(* ===== verification/Prelude.thy ===== *)
theory Prelude
  imports Main "HOL-Library.Word" "HOL-Library.Sublist" "HOL-Library.Char_ord"
    "HOL-Library.List_Lexorder"
begin

text \<open>
  Shared vocabulary of the development: the part of Rust's standard library that the
  Abora crates use on strings and integers, and the generic lemmas on it.

  A Rust \<^verbatim>\<open>str\<close> is its UTF-8 byte sequence; \<^typ>\<open>string\<close> (a list of 8-bit characters) is
  that sequence, so \<^verbatim>\<open>len()\<close> is \<^term>\<open>length\<close>, \<^verbatim>\<open>Ord\<close> is the lexicographic order on bytes
  and a test on ASCII characters is a test on bytes. Multi-byte white space is spelled out
  where the standard library asks for Unicode white space.
\<close>

named_theorems str_defs "definitions of the standard string routines"
named_theorems str_specs "characterisations of the standard string routines"

type_synonym u8 = "8 word"
type_synonym u32 = "32 word"
type_synonym u64 = "64 word"
type_synonym path = string

section \<open>Characters\<close>

abbreviation byte :: "char \<Rightarrow> nat" where
  "byte c \<equiv> of_char c"

definition is_ascii_digit :: "char \<Rightarrow> bool" where
  "is_ascii_digit c \<longleftrightarrow> 48 \<le> byte c \<and> byte c \<le> 57"

definition is_ascii_lowercase :: "char \<Rightarrow> bool" where
  "is_ascii_lowercase c \<longleftrightarrow> 97 \<le> byte c \<and> byte c \<le> 122"

definition is_ascii_uppercase :: "char \<Rightarrow> bool" where
  "is_ascii_uppercase c \<longleftrightarrow> 65 \<le> byte c \<and> byte c \<le> 90"

definition is_ascii_alphanumeric :: "char \<Rightarrow> bool" where
  "is_ascii_alphanumeric c \<longleftrightarrow>
     is_ascii_digit c \<or> is_ascii_lowercase c \<or> is_ascii_uppercase c"

lemmas [str_defs] = is_ascii_digit_def is_ascii_lowercase_def is_ascii_uppercase_def
  is_ascii_alphanumeric_def

definition to_ascii_lower :: "char \<Rightarrow> char" where
  "to_ascii_lower c = (if is_ascii_uppercase c then char_of (byte c + 32) else c)"

definition to_ascii_lowercase :: "string \<Rightarrow> string" where
  "to_ascii_lowercase s = map to_ascii_lower s"

definition eq_ignore_ascii_case :: "string \<Rightarrow> string \<Rightarrow> bool" where
  "eq_ignore_ascii_case a b \<longleftrightarrow> to_ascii_lowercase a = to_ascii_lowercase b"

section \<open>UTF-8\<close>

text \<open>\<^term>\<open>utf8_char s\<close>: the number of bytes of the well-formed UTF-8 character at the front, 0 if there is
  none (overlong forms, surrogates and values above U+10FFFF are not well-formed).\<close>

definition cont_byte :: "char \<Rightarrow> bool" where
  "cont_byte c \<longleftrightarrow> 128 \<le> byte c \<and> byte c < 192"

definition utf8_second :: "nat \<Rightarrow> char \<Rightarrow> bool" where
  "utf8_second a c \<longleftrightarrow> cont_byte c \<and>
     (a = 0xE0 \<longrightarrow> 0xA0 \<le> byte c) \<and> (a = 0xED \<longrightarrow> byte c \<le> 0x9F) \<and>
     (a = 0xF0 \<longrightarrow> 0x90 \<le> byte c) \<and> (a = 0xF4 \<longrightarrow> byte c \<le> 0x8F)"

definition utf8_char :: "string \<Rightarrow> nat" where
  "utf8_char s = (case s of [] \<Rightarrow> 0 | a # t \<Rightarrow>
     let n = (if byte a < 0x80 then 1 else if 0xC2 \<le> byte a \<and> byte a \<le> 0xDF then 2
              else if 0xE0 \<le> byte a \<and> byte a \<le> 0xEF then 3
              else if 0xF0 \<le> byte a \<and> byte a \<le> 0xF4 then 4 else 0)
     in if n \<le> 1 then n
        else if n - 1 \<le> length t \<and> utf8_second (byte a) (hd t) \<and> list_all cont_byte (take (n - 1) t) then n
        else 0)"

lemma utf8_char_le: "utf8_char s \<le> length s"
  by (auto simp: utf8_char_def Let_def split: list.split)

function valid_utf8 :: "string \<Rightarrow> bool" where
  "valid_utf8 s = 
     (if s = [] then True else if utf8_char s = 0 then False else valid_utf8 (drop (utf8_char s) s))"
  by pat_completeness auto
termination
proof (relation "measure length", goal_cases)
  case (2 s)
  then show ?case using utf8_char_le [of s] by simp
qed simp

declare valid_utf8.simps [simp del]

lemma valid_utf8_ascii: "list_all (\<lambda>c. byte c < 128) s \<Longrightarrow> valid_utf8 s"
proof (induction s)
  case Nil
  show ?case by (subst valid_utf8.simps) simp
next
  case (Cons c s)
  then have "utf8_char (c # s) = 1" by (simp add: utf8_char_def)
  with Cons show ?case by (subst valid_utf8.simps) simp
qed

text \<open>\<^verbatim>\<open>String::from_utf8_lossy\<close>: each longest piece that could have been the beginning of a character becomes
  U+FFFD. \<^term>\<open>utf8_broken s\<close> is the length of such a piece at the front.\<close>

definition utf8_broken :: "string \<Rightarrow> nat" where
  "utf8_broken s = (case s of
     a # b # t \<Rightarrow>
       if \<not> (0xE0 \<le> byte a \<and> byte a \<le> 0xF4 \<and> utf8_second (byte a) b) then 1
       else (case t of c # _ \<Rightarrow> if 0xF0 \<le> byte a \<and> cont_byte c then 3 else 2 | [] \<Rightarrow> 2)
   | _ \<Rightarrow> 1)"

function from_utf8_lossy :: "string \<Rightarrow> string" where
  "from_utf8_lossy s = (if s = [] then []
     else if utf8_char s = 0 then [CHR 0xEF, CHR 0xBF, CHR 0xBD] @ from_utf8_lossy (drop (utf8_broken s) s)
     else take (utf8_char s) s @ from_utf8_lossy (drop (utf8_char s) s))"
  by pat_completeness auto
termination
proof (relation "measure length", goal_cases)
  case (2 s)
  have "0 < utf8_broken s" by (simp add: utf8_broken_def split: list.split)
  with 2 show ?case by simp
qed simp_all

declare from_utf8_lossy.simps [simp del]

lemma from_utf8_lossy_valid: "valid_utf8 s \<Longrightarrow> from_utf8_lossy s = s"
proof (induction s rule: from_utf8_lossy.induct)
  case (1 s)
  then show ?case by (subst from_utf8_lossy.simps) (auto simp: valid_utf8.simps [of s])
qed

lemma utf8_char_Cons:
  obtains m where "\<And>t. utf8_char (a # t) = (if m \<le> 1 then m
     else if m - 1 \<le> length t \<and> utf8_second (byte a) (hd t) \<and> list_all cont_byte (take (m - 1) t) then m else 0)"
    and "0 < m \<Longrightarrow> byte a < 0xF5"
proof
  let ?m = "if byte a < 0x80 then 1 else if 0xC2 \<le> byte a \<and> byte a \<le> 0xDF then 2
    else if 0xE0 \<le> byte a \<and> byte a \<le> 0xEF then 3 else if 0xF0 \<le> byte a \<and> byte a \<le> 0xF4 then 4 else 0 :: nat"
  show "utf8_char (a # t) = (if ?m \<le> 1 then ?m
     else if ?m - 1 \<le> length t \<and> utf8_second (byte a) (hd t) \<and> list_all cont_byte (take (?m - 1) t) then ?m else 0)" for t
    unfolding utf8_char_def Let_def list.case ..
  show "0 < ?m \<Longrightarrow> byte a < 0xF5" by (simp split: if_splits)
qed

lemma utf8_char_app:
  assumes "utf8_char s = n" "0 < n"
  shows "utf8_char (take n s @ t) = n"
proof (cases s)
  case (Cons a r)
  from utf8_char_Cons [of a] obtain m where m: "\<And>t. utf8_char (a # t) = (if m \<le> 1 then m
     else if m - 1 \<le> length t \<and> utf8_second (byte a) (hd t) \<and> list_all cont_byte (take (m - 1) t) then m else 0)" by blast
  have n: "m = n" "1 < n \<Longrightarrow> n - 1 \<le> length r \<and> utf8_second (byte a) (hd r) \<and> list_all cont_byte (take (n - 1) r)"
    using assms m [of r] Cons by (auto split: if_splits)
  have "take n s = a # take (n - 1) r" using Cons assms(2) by (cases n) auto
  moreover have "hd (take (n - 1) r @ t) = hd r" "n - 1 \<le> length (take (n - 1) r @ t)"
    "take (n - 1) (take (n - 1) r @ t) = take (n - 1) r" if "1 < n" using n(2) that by (auto simp: hd_append)
  ultimately show ?thesis using n assms(2) m [of "take (n - 1) r @ t"] by (cases "n = 1") auto
qed (use assms in \<open>simp add: utf8_char_def\<close>)

text \<open>No byte from 0xF5 on occurs in UTF-8.\<close>

lemma valid_utf8_bytes: "valid_utf8 s \<Longrightarrow> c \<in> set s \<Longrightarrow> byte c < 0xF5"
proof (induction s rule: valid_utf8.induct)
  case (1 s)
  then obtain a r where s: "s = a # r" by (cases s) auto
  from utf8_char_Cons [of a] obtain m where m: "\<And>t. utf8_char (a # t) = (if m \<le> 1 then m
     else if m - 1 \<le> length t \<and> utf8_second (byte a) (hd t) \<and> list_all cont_byte (take (m - 1) t) then m else 0)"
    "0 < m \<Longrightarrow> byte a < 0xF5" by blast
  have v: "utf8_char s \<noteq> 0" "valid_utf8 (drop (utf8_char s) s)" using "1.prems"(1) s valid_utf8.simps [of s]
    by (simp_all split: if_splits)
  then have n: "m = utf8_char s" "byte a < 0xF5" "1 < m \<Longrightarrow> list_all cont_byte (take (m - 1) r)"
    using m(1) [of r] m(2) s by (auto split: if_splits)
  have "c \<in> set (take (utf8_char s) s) \<or> c \<in> set (drop (utf8_char s) s)"
    using "1.prems"(2) by (metis Un_iff append_take_drop_id set_append)
  then show ?case
  proof
    assume "c \<in> set (drop (utf8_char s) s)"
    with 1 v s show ?thesis by auto
  next
    assume "c \<in> set (take (utf8_char s) s)"
    then have "c \<in> set (take m (a # r))" using s n(1) by simp
    then have "c = a \<or> (1 < m \<and> c \<in> set (take (m - 1) r))" by (cases m; cases "m - 1") auto
    with n show ?thesis by (fastforce simp: list_all_iff cont_byte_def)
  qed
qed

lemma valid_utf8_from_utf8_lossy: "valid_utf8 (from_utf8_lossy s)"
proof (induction s rule: from_utf8_lossy.induct)
  case (1 s)
  consider "s = []" | "s \<noteq> []" "utf8_char s = 0" | "s \<noteq> []" "0 < utf8_char s" by auto
  then show ?case
  proof cases
    case 1
    then show ?thesis by (subst from_utf8_lossy.simps) (simp add: valid_utf8.simps)
  next
    case 2
    have "utf8_char ([CHR 0xEF, CHR 0xBF, CHR 0xBD] @ t) = 3" for t
      by (simp add: utf8_char_def utf8_second_def cont_byte_def)
    then have "valid_utf8 ([CHR 0xEF, CHR 0xBF, CHR 0xBD] @ from_utf8_lossy (drop (utf8_broken s) s))"
      using 1(1) [OF 2] by (subst valid_utf8.simps) simp
    with 2 show ?thesis by (subst from_utf8_lossy.simps) simp
  next
    case 3
    then have u: "utf8_char (take (utf8_char s) s @ from_utf8_lossy (drop (utf8_char s) s)) = utf8_char s"
      by (intro utf8_char_app) auto
    have "valid_utf8 (take (utf8_char s) s @ from_utf8_lossy (drop (utf8_char s) s))"
      using 1(2) 3 utf8_char_le [of s] by (subst valid_utf8.simps) (simp add: u)
    with 3 show ?thesis by (subst from_utf8_lossy.simps) simp
  qed
qed

section \<open>Splitting\<close>

fun split_once :: "char \<Rightarrow> string \<Rightarrow> (string \<times> string) option" where
  "split_once c [] = None"
| "split_once c (x # xs) =
     (if x = c then Some ([], xs)
      else map_option (\<lambda>(a, b). (x # a, b)) (split_once c xs))"

lemma split_once_None [str_specs]: "split_once c s = None \<longleftrightarrow> c \<notin> set s"
  by (induction s) auto

lemma split_once_Some [str_specs]:
  "split_once c s = Some (a, b) \<longleftrightarrow> s = a @ c # b \<and> c \<notin> set a"
proof (induction s arbitrary: a)
  case Nil
  then show ?case by simp
next
  case (Cons x xs)
  show ?case
  proof (cases a)
    case Nil
    then show ?thesis by auto
  next
    case (Cons y ys)
    then show ?thesis using Cons.IH by auto
  qed
qed

lemma split_once_append: "c \<notin> set a \<Longrightarrow> split_once c (a @ c # b) = Some (a, b)"
  by (simp add: split_once_Some)

text \<open>\<^verbatim>\<open>str::split\<close> with a predicate: always at least one piece.\<close>

fun split_pred :: "(char \<Rightarrow> bool) \<Rightarrow> string \<Rightarrow> string list" where
  "split_pred p [] = [[]]"
| "split_pred p (x # xs) =
     (if p x then [] # split_pred p xs
      else case split_pred p xs of [] \<Rightarrow> [[x]] | y # ys \<Rightarrow> (x # y) # ys)"

abbreviation split_char :: "char \<Rightarrow> string \<Rightarrow> string list" where
  "split_char c \<equiv> split_pred (\<lambda>x. x = c)"

lemma split_pred_not_Nil [simp]: "split_pred p s \<noteq> []"
  by (cases s) (auto split: list.splits)

lemma split_pred_pieces: "y \<in> set (split_pred p s) \<Longrightarrow> x \<in> set y \<Longrightarrow> x \<in> set s \<and> \<not> p x"
proof (induction s arbitrary: y)
  case Nil
  then show ?case by simp
next
  case (Cons z zs)
  show ?case
  proof (cases "p z")
    case True
    with Cons show ?thesis by auto
  next
    case False
    obtain w ws where w: "split_pred p zs = w # ws"
      by (cases "split_pred p zs") auto
    with Cons.prems False have "y = z # w \<or> y \<in> set ws" by auto
    with Cons.IH Cons.prems False w show ?thesis by fastforce
  qed
qed

lemma split_pred_none: "(\<forall>x \<in> set s. \<not> p x) \<Longrightarrow> split_pred p s = [s]"
  by (induction s) auto

lemma split_pred_append:
  "(\<forall>x \<in> set a. \<not> p x) \<Longrightarrow> p c \<Longrightarrow> split_pred p (a @ c # b) = a # split_pred p b"
  by (induction a) auto

text \<open>\<^verbatim>\<open>str::lines\<close>: pieces ended by a line feed lose one trailing carriage return; a final
  piece without a line feed is kept as it is, unless it is empty.\<close>

definition strip_cr :: "string \<Rightarrow> string" where
  "strip_cr s = (if s \<noteq> [] \<and> last s = CHR 0x0D then butlast s else s)"

definition lines :: "string \<Rightarrow> string list" where
  "lines s =
     (let ps = split_char (CHR 0x0A) s
      in map strip_cr (butlast ps) @ (if last ps = [] then [] else [last ps]))"

lemma lines_chars: "l \<in> set (lines s) \<Longrightarrow> x \<in> set l \<Longrightarrow> x \<in> set s \<and> x \<noteq> CHR 0x0A"
proof -
  assume l: "l \<in> set (lines s)" and x: "x \<in> set l"
  let ?ps = "split_char (CHR 0x0A) s"
  from l consider y where "y \<in> set (butlast ?ps)" "l = strip_cr y" | "l = last ?ps"
    by (auto simp: lines_def Let_def split: if_splits)
  then have "\<exists>y \<in> set ?ps. set l \<subseteq> set y"
  proof cases
    case (1 y)
    then have "set l \<subseteq> set y" by (auto simp: strip_cr_def dest: in_set_butlastD split: if_splits)
    with 1 show ?thesis by (blast dest: in_set_butlastD)
  qed auto
  with x show ?thesis using split_pred_pieces by blast
qed

definition strip_prefix :: "string \<Rightarrow> string \<Rightarrow> string option" where
  "strip_prefix p s = (if prefix p s then Some (drop (length p) s) else None)"

lemma strip_prefix_Some [str_specs]: "strip_prefix p s = Some t \<longleftrightarrow> s = p @ t"
  by (auto simp: strip_prefix_def prefix_def)

fun join :: "string \<Rightarrow> string list \<Rightarrow> string" where
  "join sep [] = []"
| "join sep [x] = x"
| "join sep (x # y # zs) = x @ sep @ join sep (y # zs)"

definition trim_end_matches :: "char \<Rightarrow> string \<Rightarrow> string" where
  "trim_end_matches c s = rev (dropWhile (\<lambda>x. x = c) (rev s))"

definition trim_start_matches :: "char \<Rightarrow> string \<Rightarrow> string" where
  "trim_start_matches c s = dropWhile (\<lambda>x. x = c) s"

text \<open>\<^verbatim>\<open>find\<close> and \<^verbatim>\<open>contains\<close> for a text: byte positions.\<close>

fun str_find :: "string \<Rightarrow> string \<Rightarrow> nat option" where
  "str_find n [] = (if n = [] then Some 0 else None)"
| "str_find n (c # s) = (if prefix n (c # s) then Some 0 else map_option Suc (str_find n s))"

definition str_contains :: "string \<Rightarrow> string \<Rightarrow> bool" where
  "str_contains hay needle \<longleftrightarrow> str_find needle hay \<noteq> None"

lemma str_find_sublist: "str_find n s \<noteq> None \<longleftrightarrow> sublist n s"
  by (induction s) (auto simp: sublist_Cons_right)

lemma str_contains_sublist [str_specs]: "str_contains h n \<longleftrightarrow> sublist n h"
  by (simp only: str_contains_def str_find_sublist)

section \<open>White space\<close>

text \<open>\<^term>\<open>ws_len s\<close> is the number of bytes of the Unicode white-space character at the front
  of \<^term>\<open>s\<close>, 0 when there is none. The multi-byte ones are U+0085, U+00A0, U+1680, U+2000 to
  U+200A, U+2028, U+2029, U+202F, U+205F and U+3000.\<close>

definition ws1 :: "char \<Rightarrow> bool" where
  "ws1 a \<longleftrightarrow> (9 \<le> byte a \<and> byte a \<le> 13) \<or> byte a = 32"

definition ws2 :: "char \<Rightarrow> char \<Rightarrow> bool" where
  "ws2 a b \<longleftrightarrow> byte a = 0xC2 \<and> (byte b = 0x85 \<or> byte b = 0xA0)"

definition ws3 :: "char \<Rightarrow> char \<Rightarrow> char \<Rightarrow> bool" where
  "ws3 a b c \<longleftrightarrow>
     (byte a = 0xE1 \<and> byte b = 0x9A \<and> byte c = 0x80) \<or>
     (byte a = 0xE2 \<and> byte b = 0x80 \<and>
        ((0x80 \<le> byte c \<and> byte c \<le> 0x8A) \<or> byte c = 0xA8 \<or> byte c = 0xA9 \<or> byte c = 0xAF)) \<or>
     (byte a = 0xE2 \<and> byte b = 0x81 \<and> byte c = 0x9F) \<or>
     (byte a = 0xE3 \<and> byte b = 0x80 \<and> byte c = 0x80)"

definition ws_len_by ::
  "(char \<Rightarrow> char \<Rightarrow> bool) \<Rightarrow> (char \<Rightarrow> char \<Rightarrow> char \<Rightarrow> bool) \<Rightarrow> string \<Rightarrow> nat" where
  "ws_len_by w2 w3 s =
     (case s of [] \<Rightarrow> 0
      | a # t \<Rightarrow> if ws1 a then 1
         else case t of [] \<Rightarrow> 0
         | b # u \<Rightarrow> if w2 a b then 2
             else case u of [] \<Rightarrow> 0 | c # _ \<Rightarrow> if w3 a b c then 3 else 0)"

abbreviation ws_len :: "string \<Rightarrow> nat" where
  "ws_len \<equiv> ws_len_by ws2 ws3"

lemma ws_len_Nil [simp]: "ws_len_by w2 w3 [] = 0"
  by (simp add: ws_len_by_def)

lemma ws_len_le: "ws_len_by w2 w3 s \<le> length s"
  by (auto simp: ws_len_by_def split: list.splits)

function strip_ws ::
  "(char \<Rightarrow> char \<Rightarrow> bool) \<Rightarrow> (char \<Rightarrow> char \<Rightarrow> char \<Rightarrow> bool) \<Rightarrow> string \<Rightarrow> string" where
  "strip_ws w2 w3 s =
     (if ws_len_by w2 w3 s = 0 then s else strip_ws w2 w3 (drop (ws_len_by w2 w3 s) s))"
  by pat_completeness auto
termination
proof (relation "measure (\<lambda>(_, _, s). length s)", goal_cases)
  case (2 w2 w3 s)
  then show ?case using ws_len_le [of w2 w3 s] by simp
qed simp

declare strip_ws.simps [simp del]

definition trim_start :: "string \<Rightarrow> string" where
  "trim_start s = strip_ws ws2 ws3 s"

definition trim_end :: "string \<Rightarrow> string" where
  "trim_end s = rev (strip_ws (\<lambda>a b. ws2 b a) (\<lambda>a b c. ws3 c b a) (rev s))"

definition trim :: "string \<Rightarrow> string" where
  "trim s = trim_end (trim_start s)"

lemma strip_ws_suffix: "suffix (strip_ws w2 w3 s) s"
proof (induction w2 w3 s rule: strip_ws.induct)
  case (1 w2 w3 s)
  then show ?case
    by (cases "ws_len_by w2 w3 s = 0")
      (auto simp: strip_ws.simps [of w2 w3 s] intro: suffix_order.trans suffix_drop)
qed

lemma strip_ws_done: "ws_len_by w2 w3 (strip_ws w2 w3 s) = 0"
proof (induction w2 w3 s rule: strip_ws.induct)
  case (1 w2 w3 s)
  then show ?case
    by (cases "ws_len_by w2 w3 s = 0") (auto simp: strip_ws.simps [of w2 w3 s])
qed

lemma strip_ws_id: "ws_len_by w2 w3 s = 0 \<Longrightarrow> strip_ws w2 w3 s = s"
  by (simp add: strip_ws.simps)

lemma set_strip_ws: "set (strip_ws w2 w3 s) \<subseteq> set s"
  using strip_ws_suffix [of w2 w3 s] by (rule set_mono_suffix)

lemma set_trim_end: "set (trim_end s) \<subseteq> set s"
  using set_strip_ws [of _ _ "rev s"] by (simp add: trim_end_def)

lemma set_trim_start: "set (trim_start s) \<subseteq> set s"
  by (simp add: trim_start_def set_strip_ws)

lemma set_trim: "set (trim s) \<subseteq> set s"
  using set_trim_end set_trim_start unfolding trim_def by blast

text \<open>A byte that starts or ends no white-space character: every ASCII byte above the blank.\<close>

definition plain_char :: "char \<Rightarrow> bool" where
  "plain_char c \<longleftrightarrow> 32 < byte c \<and> byte c < 128"

lemma ws_len_plain:
  "plain_char a \<Longrightarrow> ws_len_by ws2 ws3 (a # s) = 0"
  "plain_char a \<Longrightarrow> ws_len_by (\<lambda>a b. ws2 b a) (\<lambda>a b c. ws3 c b a) (a # s) = 0"
  by (auto simp: plain_char_def ws_len_by_def ws1_def ws2_def ws3_def split: list.splits)

lemma trim_plain:
  assumes "s \<noteq> []" "plain_char (hd s)" "plain_char (last s)"
  shows "trim s = s"
proof -
  have "trim_start s = s"
    using assms by (cases s) (auto simp: trim_start_def ws_len_plain strip_ws_id)
  moreover have "trim_end s = s"
    using assms by (cases s rule: rev_cases) (auto simp: trim_end_def ws_len_plain strip_ws_id)
  ultimately show ?thesis by (simp add: trim_def)
qed

lemma trim_Nil [simp]: "trim [] = []"
  by (simp add: trim_def trim_end_def trim_start_def strip_ws_id)

fun has_ws :: "string \<Rightarrow> bool" where
  "has_ws [] = False"
| "has_ws (a # s) = (0 < ws_len (a # s) \<or> has_ws s)"

text \<open>\<^verbatim>\<open>str::split_whitespace\<close>: maximal runs without white space.\<close>

function split_ws_aux :: "string \<Rightarrow> string \<Rightarrow> string list" where
  "split_ws_aux acc [] = (if acc = [] then [] else [rev acc])"
| "split_ws_aux acc (a # s) =
     (if ws_len (a # s) = 0 then split_ws_aux (a # acc) s
      else (if acc = [] then [] else [rev acc]) @
        split_ws_aux [] (drop (ws_len (a # s)) (a # s)))"
  by pat_completeness auto
termination
proof (relation "measure (\<lambda>(_, s). length s)", goal_cases)
  case (3 acc a s)
  then show ?case using ws_len_le [of ws2 ws3 "a # s"] by simp
qed simp_all

definition split_whitespace :: "string \<Rightarrow> string list" where
  "split_whitespace s = split_ws_aux [] s"

lemma split_ws_aux_not_Nil: "w \<in> set (split_ws_aux acc s) \<Longrightarrow> w \<noteq> []"
  by (induction acc s rule: split_ws_aux.induct) (auto split: if_splits)

section \<open>Decimal numbers\<close>

definition digit_val :: "char \<Rightarrow> nat" where
  "digit_val c = byte c - 48"

definition digits_val :: "string \<Rightarrow> nat" where
  "digits_val s = foldl (\<lambda>n c. n * 10 + digit_val c) 0 s"

text \<open>\<^verbatim>\<open>str::parse\<close> for an unsigned integer with the given largest value: an optional plus
  sign, then at least one ASCII digit, and no overflow.\<close>

definition parse_uint :: "nat \<Rightarrow> string \<Rightarrow> nat option" where
  "parse_uint mx s =
     (let ds = (case s of [] \<Rightarrow> [] | c # t \<Rightarrow> if c = CHR ''+'' then t else s)
      in if ds = [] \<or> \<not> list_all is_ascii_digit ds then None
         else if digits_val ds \<le> mx then Some (digits_val ds) else None)"

definition u8_max :: nat where "u8_max = 255"
definition u16_max :: nat where "u16_max = 65535"
definition u32_max :: nat where "u32_max = 4294967295"
definition u64_max :: nat where "u64_max = 18446744073709551615"

text \<open>On the 64-bit targets the project ships for, \<^verbatim>\<open>usize\<close> is 64 bits wide.\<close>

abbreviation usize_max :: nat where
  "usize_max \<equiv> u64_max"

definition parse_u64 :: "string \<Rightarrow> u64 option" where
  "parse_u64 s = map_option of_nat (parse_uint u64_max s)"

lemma parse_uint_le: "parse_uint mx s = Some n \<Longrightarrow> n \<le> mx"
  by (auto simp: parse_uint_def Let_def split: if_splits list.splits)

lemma parse_uint_digits:
  "s \<noteq> [] \<Longrightarrow> list_all is_ascii_digit s \<Longrightarrow>
   parse_uint mx s = (if digits_val s \<le> mx then Some (digits_val s) else None)"
  by (cases s) (auto simp: parse_uint_def is_ascii_digit_def)

definition digit_char :: "nat \<Rightarrow> char" where
  "digit_char d = char_of (48 + d)"

fun show_nat :: "nat \<Rightarrow> string" where
  "show_nat n = (if n < 10 then [digit_char n] else show_nat (n div 10) @ [digit_char (n mod 10)])"

declare show_nat.simps [simp del]

lemma byte_digit_char: "d < 10 \<Longrightarrow> byte (digit_char d) = 48 + d"
  by (simp add: digit_char_def of_char_of)

lemma digit_char_digit: "d < 10 \<Longrightarrow> is_ascii_digit (digit_char d)"
  by (simp add: is_ascii_digit_def byte_digit_char)

lemma digits_val_snoc: "digits_val (s @ [c]) = digits_val s * 10 + digit_val c"
  by (simp add: digits_val_def)

lemma show_nat_digits: "list_all is_ascii_digit (show_nat n)"
proof (induction n rule: show_nat.induct)
  case (1 n)
  then show ?case
    by (cases "n < 10") (auto simp: show_nat.simps [of n] digit_char_digit)
qed

lemma show_nat_not_Nil [simp]: "show_nat n \<noteq> []"
  by (subst show_nat.simps) simp

lemma digits_val_show_nat: "digits_val (show_nat n) = n"
proof (induction n rule: show_nat.induct)
  case (1 n)
  show ?case
  proof (cases "n < 10")
    case True
    then show ?thesis
      by (simp add: show_nat.simps [of n] digits_val_def digit_val_def byte_digit_char)
  next
    case False
    with 1 have "digits_val (show_nat (n div 10)) = n div 10" by simp
    with False show ?thesis
      by (simp add: show_nat.simps [of n] digits_val_snoc digit_val_def byte_digit_char)
  qed
qed

lemma parse_show_nat: "n \<le> mx \<Longrightarrow> parse_uint mx (show_nat n) = Some n"
  by (simp add: parse_uint_digits show_nat_digits digits_val_show_nat)

lemma is_digit_of_show_nat: "c \<in> set (show_nat n) \<Longrightarrow> is_ascii_digit c"
  using show_nat_digits [of n] by (simp add: list_all_iff)

text \<open>\<^verbatim>\<open>{:0w$}\<close>: decimal, padded on the left with zeros to at least \<^term>\<open>w\<close> characters.\<close>

definition pad0 :: "nat \<Rightarrow> nat \<Rightarrow> string" where
  "pad0 w n = replicate (w - length (show_nat n)) (CHR ''0'') @ show_nat n"

definition show_bool :: "bool \<Rightarrow> string" where
  "show_bool b = (if b then ''true'' else ''false'')"

section \<open>Hexadecimal\<close>

definition hex_digit :: "nat \<Rightarrow> char" where
  "hex_digit d = (if d < 10 then char_of (48 + d) else char_of (87 + d))"

definition from_hex_digit :: "char \<Rightarrow> nat option" where
  "from_hex_digit c =
     (if is_ascii_digit c then Some (byte c - 48)
      else if 97 \<le> byte c \<and> byte c \<le> 102 then Some (byte c - 87)
      else if 65 \<le> byte c \<and> byte c \<le> 70 then Some (byte c - 55)
      else None)"

lemma byte_hex_digit: "d < 16 \<Longrightarrow> byte (hex_digit d) = (if d < 10 then 48 + d else 87 + d)"
  by (simp add: hex_digit_def of_char_of)

lemma from_hex_digit_hex_digit: "d < 16 \<Longrightarrow> from_hex_digit (hex_digit d) = Some d"
  by (auto simp: from_hex_digit_def is_ascii_digit_def byte_hex_digit)

lemma hex_digit_alnum: "d < 16 \<Longrightarrow> is_ascii_alphanumeric (hex_digit d)"
  by (auto simp: byte_hex_digit str_defs)

section \<open>Command lines\<close>

text \<open>What a parser of command-line arguments ends with: the arguments, a text printed before the
  program exits with success (\<^verbatim>\<open>--help\<close>, \<^verbatim>\<open>--version\<close>), or an error.\<close>

datatype 'a args_result = ArgsOk 'a | ArgsExit string | ArgsError string

section \<open>Durations\<close>

text \<open>A \<^verbatim>\<open>Duration\<close> is its number of nanoseconds.\<close>

type_synonym duration = nat

definition from_secs :: "u64 \<Rightarrow> duration" where
  "from_secs s = unat s * 1000000000"

definition as_secs :: "duration \<Rightarrow> nat" where
  "as_secs d = d div 1000000000"

section \<open>Results and lists\<close>

text \<open>A Rust \<^verbatim>\<open>Result<T, E>\<close> is a sum with the error on the left.\<close>

definition map_err :: "('e \<Rightarrow> 'f) \<Rightarrow> 'e + 'a \<Rightarrow> 'f + 'a" where
  "map_err f r = (case r of Inl e \<Rightarrow> Inl (f e) | Inr x \<Rightarrow> Inr x)"

definition result_ok :: "'e + 'a \<Rightarrow> 'a option" where
  "result_ok r = (case r of Inl _ \<Rightarrow> None | Inr x \<Rightarrow> Some x)"

lemma map_err_simps [simp]:
  "map_err f (Inl e) = Inl (f e)" "map_err f (Inr x) = Inr x"
  by (simp_all add: map_err_def)

lemma result_ok_simps [simp]: "result_ok (Inl e) = None" "result_ok (Inr x) = Some x"
  by (simp_all add: result_ok_def)

lemma length_drop_excess: "length (drop (length xs - n) xs) \<le> n"
  by simp

text \<open>\<^verbatim>\<open>slice::chunks\<close>; the code never asks for chunks of size zero, which would panic.\<close>

function chunks :: "nat \<Rightarrow> 'a list \<Rightarrow> 'a list list" where
  "chunks n xs = (if n = 0 \<or> xs = [] then [] else take n xs # chunks n (drop n xs))"
  by pat_completeness auto
termination by (relation "measure (\<lambda>(_, xs). length xs)") auto

declare chunks.simps [simp del]

lemma chunks_Nil [simp]: "chunks n [] = []"
  by (simp add: chunks.simps)

lemma chunks_step: "0 < n \<Longrightarrow> xs \<noteq> [] \<Longrightarrow> chunks n xs = take n xs # chunks n (drop n xs)"
  by (simp add: chunks.simps [of n xs])

lemma concat_chunks: "0 < n \<Longrightarrow> concat (chunks n xs) = xs"
proof (induction n xs rule: chunks.induct)
  case (1 n xs)
  then show ?case by (cases "xs = []") (simp_all add: chunks_step)
qed

lemma chunk_length: "c \<in> set (chunks n xs) \<Longrightarrow> c \<noteq> [] \<and> length c \<le> n"
proof (induction n xs rule: chunks.induct)
  case (1 n xs)
  then show ?case by (cases "n = 0 \<or> xs = []") (auto simp: chunks.simps [of n xs])
qed

lemma remdups_adj_sorted_distinct:
  "sorted (xs :: 'a :: linorder list) \<Longrightarrow> distinct (remdups_adj xs)"
  by (induction xs rule: remdups_adj.induct) (auto simp: order.antisym)

section \<open>Values and ordered maps\<close>

text \<open>\<^verbatim>\<open>serde_json::Value\<close>: an object is a map, a number its literal.\<close>

datatype json = JNull | JBool bool | JNum string | JStr string | JArr "json list" | JObj "string \<Rightarrow> json option"

text \<open>\<^verbatim>\<open>BTreeMap<String, V>\<close>: its entries in the order of the keys.\<close>

fun btree_insert :: "string \<Rightarrow> 'v \<Rightarrow> (string \<times> 'v) list \<Rightarrow> (string \<times> 'v) list" where
  "btree_insert k v [] = [(k, v)]"
| "btree_insert k v ((x, w) # m) =
     (if k < x then (k, v) # (x, w) # m else if k = x then (k, v) # m else (x, w) # btree_insert k v m)"

lemma btree_insert_keys: "fst ` set (btree_insert k v m) = insert k (fst ` set m)"
  by (induction k v m rule: btree_insert.induct) auto

lemma btree_insert_sorted: "sorted_wrt (<) (map fst m) \<Longrightarrow> sorted_wrt (<) (map fst (btree_insert k v m))"
proof (induction k v m rule: btree_insert.induct)
  case (2 k v x w m)
  have "z \<in> fst ` set (btree_insert k v m) \<Longrightarrow> x < z" if "\<not> k < x" "k \<noteq> x" for z
    using 2(2) that by (auto simp: btree_insert_keys)
  with 2 show ?case by (auto simp: image_iff)
qed simp

lemma btree_insert_lookup: "map_of (btree_insert k v m) = (map_of m)(k \<mapsto> v)"
  by (induction k v m rule: btree_insert.induct) (auto simp: fun_eq_iff)

end
