(* ===== verification/Core.thy ===== *)
theory Core
  imports Prelude
begin

text \<open>
  \<^verbatim>\<open>crates/abora-core\<close>: the shared constants and the \<^verbatim>\<open>Version\<close> type with its parser and its
  \<^verbatim>\<open>Display\<close>. Record fields carry a prefix per struct (\<^verbatim>\<open>v_\<close> here) because field names are
  global constants; otherwise the source's names are kept.
\<close>

definition FRAMEWORK_NAME :: string where "FRAMEWORK_NAME = ''Abora Framework''"

text \<open>\<^verbatim>\<open>CARGO_PKG_VERSION\<close> is the workspace version of \<^verbatim>\<open>Cargo.toml\<close>.\<close>

definition FRAMEWORK_VERSION :: string where "FRAMEWORK_VERSION = ''0.1.0''"
definition DAEMON_NAME :: string where "DAEMON_NAME = ''aborad''"
definition CLI_NAME :: string where "CLI_NAME = ''abora''"
definition API_VERSION :: string where "API_VERSION = ''v1''"
definition API_PATH_PREFIX :: string where "API_PATH_PREFIX = ''/api/v1''"
definition DEFAULT_LISTEN_ADDR :: string where "DEFAULT_LISTEN_ADDR = ''127.0.0.1:7360''"
definition DEFAULT_CONFIG_PATH :: path where "DEFAULT_CONFIG_PATH = ''/etc/abora/abora.toml''"

record version =
  v_major :: u64
  v_minor :: u64
  v_patch :: u64
  v_prerelease :: "string option"
  v_build :: "string option"

definition version_new :: "u64 \<Rightarrow> u64 \<Rightarrow> u64 \<Rightarrow> version" where
  "version_new ma mi pa =
     \<lparr>v_major = ma, v_minor = mi, v_patch = pa, v_prerelease = None, v_build = None\<rparr>"

definition version_component_error :: "string \<Rightarrow> string" where
  "version_component_error part = ''invalid version number component `'' @ part @ ''`''"

text \<open>One turn of the loop over the three components.\<close>

definition version_component :: "string \<Rightarrow> string + u64" where
  "version_component part =
     (if part = [] \<or> \<not> list_all is_ascii_digit part then Inl (version_component_error part)
      else case parse_u64 part of
        None \<Rightarrow> Inl (version_component_error part)
      | Some n \<Rightarrow> Inr n)"

definition version_parse :: "string \<Rightarrow> string + version" where
  "version_parse input =
     (let (rest, build) = (case split_once (CHR ''+'') input of
            Some (head, b) \<Rightarrow> (head, Some b) | None \<Rightarrow> (input, None));
          (rest, prerelease) = (case split_once (CHR ''-'') rest of
            Some (head, pre) \<Rightarrow> (head, Some pre) | None \<Rightarrow> (rest, None))
      in case split_char (CHR ''.'') rest of
           [a, b, c] \<Rightarrow>
             (case version_component a of Inl e \<Rightarrow> Inl e
              | Inr ma \<Rightarrow> (case version_component b of Inl e \<Rightarrow> Inl e
                 | Inr mi \<Rightarrow> (case version_component c of Inl e \<Rightarrow> Inl e
                    | Inr pa \<Rightarrow> Inr \<lparr>v_major = ma, v_minor = mi, v_patch = pa,
                        v_prerelease = prerelease, v_build = build\<rparr>)))
         | _ \<Rightarrow> Inl (''expected <major>.<minor>.<patch>, got `'' @ input @ ''`''))"

definition version_current :: version where
  "version_current =
     (case version_parse FRAMEWORK_VERSION of Inr v \<Rightarrow> v | Inl _ \<Rightarrow> version_new 0 0 0)"

definition show_u64 :: "u64 \<Rightarrow> string" where
  "show_u64 n = show_nat (unat n)"

definition version_display :: "version \<Rightarrow> string" where
  "version_display v =
     show_u64 (v_major v) @ ''.'' @ show_u64 (v_minor v) @ ''.'' @ show_u64 (v_patch v) @
     (case v_prerelease v of Some pre \<Rightarrow> ''-'' @ pre | None \<Rightarrow> []) @
     (case v_build v of Some b \<Rightarrow> ''+'' @ b | None \<Rightarrow> [])"

section \<open>Facts on the number components\<close>

lemma unat_le_u64_max: "unat (n :: u64) \<le> u64_max"
proof -
  have "unat n < 2 ^ 64" using unsigned_less [of n, where ?'a = nat] by simp
  then show ?thesis by (simp add: u64_max_def)
qed

lemma parse_u64_show: "parse_u64 (show_u64 n) = Some n"
  by (simp add: parse_u64_def show_u64_def parse_show_nat unat_le_u64_max)

lemma show_u64_digits: "c \<in> set (show_u64 n) \<Longrightarrow> is_ascii_digit c"
  by (auto simp: show_u64_def dest: is_digit_of_show_nat)

lemma not_digit_not_in_show:
  "\<not> is_ascii_digit c \<Longrightarrow> c \<notin> set (show_u64 n)"
  by (auto dest: show_u64_digits)

lemma not_digit_punct [simp]:
  "\<not> is_ascii_digit (CHR ''.'')" "\<not> is_ascii_digit (CHR ''-'')" "\<not> is_ascii_digit (CHR ''+'')"
  "\<not> is_ascii_digit (CHR '':'')"
  by (simp_all add: is_ascii_digit_def)

lemma version_component_show: "version_component (show_u64 n) = Inr n"
  using show_u64_digits [of _ n] parse_u64_show [of n]
  by (auto simp: version_component_def list_all_iff show_u64_def)

lemma split_dots_show:
  "split_char (CHR ''.'') (show_u64 a @ CHR ''.'' # show_u64 b @ CHR ''.'' # show_u64 c)
   = [show_u64 a, show_u64 b, show_u64 c]"
proof -
  have d: "\<forall>x \<in> set (show_u64 n). x \<noteq> CHR ''.''" for n
    using not_digit_not_in_show [of "CHR ''.''"] by auto
  show ?thesis using d by (simp add: split_pred_append split_pred_none)
qed

lemma version_component_ok_iff:
  "version_component s = Inr n \<longleftrightarrow>
     s \<noteq> [] \<and> list_all is_ascii_digit s \<and> digits_val s \<le> u64_max \<and> n = of_nat (digits_val s)"
  by (auto simp: version_component_def parse_u64_def parse_uint_digits split: option.splits if_splits)

lemma version_current_value: "version_current = version_new 0 1 0"
  by (simp add: version_current_def FRAMEWORK_VERSION_def version_new_def version_parse_def
      version_component_def parse_u64_def parse_uint_def is_ascii_digit_def digits_val_def
      digit_val_def u64_max_def)

section \<open>Properties\<close>

text \<open>Parsing what \<^verbatim>\<open>Display\<close> prints gives the version back, for every version whose
  prerelease holds no plus sign (the build part is unrestricted). Numbers are 64-bit.\<close>

theorem version_display_parse:
  assumes "\<And>p. v_prerelease v = Some p \<Longrightarrow> CHR ''+'' \<notin> set p"
  shows "version_parse (version_display v) = Inr v"
proof -
  let ?nums = "show_u64 (v_major v) @ CHR ''.'' # show_u64 (v_minor v) @ CHR ''.'' # show_u64 (v_patch v)"
  let ?pre = "case v_prerelease v of Some pre \<Rightarrow> CHR ''-'' # pre | None \<Rightarrow> []"
  let ?bld = "case v_build v of Some b \<Rightarrow> CHR ''+'' # b | None \<Rightarrow> []"
  have disp: "version_display v = (?nums @ ?pre) @ ?bld"
    by (simp add: version_display_def split: option.split)
  have plus: "CHR ''+'' \<notin> set ?nums" and dash: "CHR ''-'' \<notin> set ?nums"
    by (simp_all add: not_digit_not_in_show)
  have plus': "CHR ''+'' \<notin> set (?nums @ ?pre)"
    using plus assms by (auto split: option.split)
  have s1: "split_once (CHR ''+'') ((?nums @ ?pre) @ ?bld) =
      (case v_build v of Some b \<Rightarrow> Some (?nums @ ?pre, b) | None \<Rightarrow> None)"
    using plus' by (cases "v_build v") (simp_all only: option.case append_Nil2 split_once_append split_once_None simp_thms)
  have s2: "split_once (CHR ''-'') (?nums @ ?pre) =
      (case v_prerelease v of Some p \<Rightarrow> Some (?nums, p) | None \<Rightarrow> None)"
    using dash by (cases "v_prerelease v") (simp_all only: option.case append_Nil2 split_once_append split_once_None simp_thms)
  show ?thesis
    unfolding version_parse_def disp s1 Let_def
    by (cases "v_build v"; cases "v_prerelease v")
      (use s2 in \<open>simp_all add: split_dots_show version_component_show del: split_once.simps append.simps\<close>)
qed

theorem version_display_parse_witness:
  "version_parse (version_display
     \<lparr>v_major = 1, v_minor = 2, v_patch = 3, v_prerelease = Some ''rc.1'', v_build = Some ''b+7''\<rparr>)
   = Inr \<lparr>v_major = 1, v_minor = 2, v_patch = 3, v_prerelease = Some ''rc.1'', v_build = Some ''b+7''\<rparr>"
  by (rule version_display_parse) simp

end
