(* ===== verification/Update.thy ===== *)
theory Update
  imports Core
begin

text \<open>
  \<^verbatim>\<open>crates/abora-update/src/lib.rs\<close>: the shared update vocabulary (channels, reboot policy,
  maintenance windows, available updates, status, history, provider errors) and the default
  \<^verbatim>\<open>apply\<close> of the \<^verbatim>\<open>UpdateProvider\<close> trait.
\<close>

datatype channel = Stable | Beta | Nightly | Custom string

definition channel_display :: "channel \<Rightarrow> string" where
  "channel_display c = (case c of
     Stable \<Rightarrow> ''stable'' | Beta \<Rightarrow> ''beta'' | Nightly \<Rightarrow> ''nightly''
   | Custom name \<Rightarrow> ''custom:'' @ name)"

datatype reboot_policy = Ask | Always | Never

datatype weekday = Monday | Tuesday | Wednesday | Thursday | Friday | Saturday | Sunday

record maintenance_window =
  mw_days :: "weekday list"
  mw_start :: string
  mw_end :: string
  mw_max_duration_minutes :: "u32 option"

record available_update =
  au_channel :: channel
  au_version :: version
  au_component :: string
  au_summary :: string
  au_release_notes :: "string option"
  au_size_bytes :: u64
  au_released_at :: "string option"
  au_checksums :: "string list option"

record available_updates =
  aus_channel :: channel
  aus_updates :: "available_update list"

datatype update_status =
    UpToDate
  | UpdateAvailable "string list"
  | Installing string "u8 option"
  | StatusError string

record reboot_status =
  rs_required :: bool
  rs_reason :: "string option"
  rs_pending_since :: "string option"

definition reboot_status_default :: reboot_status where
  "reboot_status_default = \<lparr>rs_required = False, rs_reason = None, rs_pending_since = None\<rparr>"

record update_history_entry =
  he_applied_at :: string
  he_from_version :: version
  he_to_version :: version
  he_channel :: channel
  he_component :: string
  he_succeeded :: bool
  he_note :: "string option"

datatype update_error =
    NotImplemented string
  | Unsupported string
  | Conflict string
  | Source string

definition update_error_display :: "update_error \<Rightarrow> string" where
  "update_error_display e = (case e of
     NotImplemented m \<Rightarrow> ''not implemented: '' @ m
   | Unsupported m \<Rightarrow> ''unsupported: '' @ m
   | Conflict m \<Rightarrow> ''update conflict: '' @ m
   | Source m \<Rightarrow> ''update source failure: '' @ m)"

text \<open>The trait's default \<^verbatim>\<open>apply\<close>, which the host-package provider keeps.\<close>

definition provider_apply :: "available_update \<Rightarrow> update_error + unit" where
  "provider_apply _ = Inl (NotImplemented ''apply is not implemented by this provider'')"

end
