(* ===== verification/FileSys.thy ===== *)
theory FileSys
  imports Prelude
begin

text \<open>
  The part of \<^verbatim>\<open>std::path\<close> and \<^verbatim>\<open>std::fs\<close> (Unix) the crates use. A file system maps paths to
  nodes. Every call that changes it may be made to fail by the environment \<^verbatim>\<open>io_env\<close>, which says
  for the n-th call whether it fails, with which message, and how much of its work it did
  before; a disk also records every intermediate file system, so that a property of the trace
  is a property of every state a crash can leave behind.
\<close>

section \<open>Paths\<close>

fun strip_rev :: "string \<Rightarrow> string" where
  "strip_rev (a # b # r) =
     (if a = CHR ''/'' then strip_rev (b # r)
      else if a = CHR ''.'' \<and> b = CHR ''/'' then strip_rev (b # r)
      else a # b # r)"
| "strip_rev r = r"

text \<open>\<^verbatim>\<open>Path::parent\<close>: trailing separators and \<^verbatim>\<open>/.\<close> are ignored, then the last component goes.\<close>

definition path_parent :: "path \<Rightarrow> path option" where
  "path_parent p =
     (let r = strip_rev (rev p)
      in if r = [] \<or> r = ''/'' then None
         else Some (rev (strip_rev (dropWhile (\<lambda>c. c \<noteq> CHR ''/'') r))))"

definition path_join :: "path \<Rightarrow> path \<Rightarrow> path" where
  "path_join d n =
     (if prefix ''/'' n then n
      else if d = [] \<or> last d = CHR ''/'' then d @ n else d @ ''/'' @ n)"

definition tmp_path :: "path \<Rightarrow> path" where
  "tmp_path p = p @ ''.tmp''"

text \<open>\<^verbatim>\<open>path.parent().filter(|p| !p.as_os_str().is_empty())\<close>\<close>

definition parent_dir :: "path \<Rightarrow> path option" where
  "parent_dir p = (case path_parent p of Some (c # q) \<Rightarrow> Some (c # q) | _ \<Rightarrow> None)"

lemma length_strip_rev: "length (strip_rev r) \<le> length r"
  by (induction r rule: strip_rev.induct) auto

lemma path_parent_shorter: "path_parent p = Some q \<Longrightarrow> length q < length p"
proof -
  assume p: "path_parent p = Some q"
  let ?r = "strip_rev (rev p)"
  let ?d = "dropWhile (\<lambda>c. c \<noteq> CHR ''/'') ?r"
  from p have q: "q = rev (strip_rev ?d)" and r: "?r \<noteq> []" "?r \<noteq> ''/''"
    by (auto simp: path_parent_def Let_def split: if_splits)
  show ?thesis
  proof (cases "hd ?r = CHR ''/''")
    case True
    have "strip_rev x = [] \<or> hd (strip_rev x) \<noteq> CHR ''/'' \<or> strip_rev x = ''/''" for x
      by (induction x rule: strip_rev.induct) auto
    then show ?thesis using True r by blast
  next
    case False
    have "length (strip_rev ?d) \<le> length ?d" by (rule length_strip_rev)
    also have "length ?d < length ?r"
      using False r length_dropWhile_le [of "\<lambda>c. c \<noteq> CHR ''/''" "tl ?r"] by (cases ?r) auto
    also have "\<dots> \<le> length p" using length_strip_rev [of "rev p"] by simp
    finally show ?thesis by (simp add: q)
  qed
qed

lemma parent_dir_shorter: "parent_dir p = Some q \<Longrightarrow> length q < length p"
  by (auto simp: parent_dir_def split: option.splits list.splits dest: path_parent_shorter)

lemma tmp_path_neq [simp]: "tmp_path p \<noteq> p" "p \<noteq> tmp_path p"
  by (simp_all add: tmp_path_def)

section \<open>Nodes\<close>

record regular =
  rf_bytes :: string
  rf_mode :: nat
  rf_mtime :: nat

datatype node = Regular regular | Symlink path | Directory

type_synonym fs = "path \<Rightarrow> node option"

definition content :: "fs \<Rightarrow> path \<Rightarrow> string option" where
  "content f p = (case f p of Some (Regular r) \<Rightarrow> Some (rf_bytes r) | _ \<Rightarrow> None)"

definition is_symlink :: "fs \<Rightarrow> path \<Rightarrow> bool" where
  "is_symlink f p = (case f p of Some (Symlink _) \<Rightarrow> True | _ \<Rightarrow> False)"

text \<open>Opening a path follows symbolic links, at most 40 of them (\<^verbatim>\<open>ELOOP\<close> after that).\<close>

fun resolve :: "nat \<Rightarrow> fs \<Rightarrow> path \<Rightarrow> path option" where
  "resolve 0 f p = None"
| "resolve (Suc n) f p = (case f p of Some (Symlink q) \<Rightarrow> resolve n f q | _ \<Rightarrow> Some p)"

definition follow :: "fs \<Rightarrow> path \<Rightarrow> path option" where
  "follow f p = resolve 41 f p"

lemma resolve_id: "0 < n \<Longrightarrow> \<not> is_symlink f p \<Longrightarrow> resolve n f p = Some p"
  by (cases n) (auto simp: is_symlink_def split: option.splits node.splits)

lemma follow_id: "\<not> is_symlink f p \<Longrightarrow> follow f p = Some p"
  by (simp add: follow_def resolve_id)

section \<open>Calls\<close>

text \<open>How \<^verbatim>\<open>io::Error\<close> prints the errors the model itself produces.\<close>

definition ENOENT :: string where "ENOENT = ''No such file or directory (os error 2)''"
definition EISDIR :: string where "EISDIR = ''Is a directory (os error 21)''"
definition ELOOP :: string where "ELOOP = ''Too many levels of symbolic links (os error 40)''"

text \<open>The environment: for the n-th call, \<^term>\<open>None\<close> (it succeeds) or the message of the error
  and how much of the work was done before.\<close>

type_synonym io_env = "nat \<Rightarrow> (string \<times> nat) option"

record disk =
  dk_fs :: fs
  dk_calls :: nat
  dk_now :: nat
  dk_trace :: "fs list"

type_synonym 'a io = "disk \<Rightarrow> (string + 'a) \<times> disk"

definition io_bind :: "'a io \<Rightarrow> ('a \<Rightarrow> 'b io) \<Rightarrow> 'b io" where
  "io_bind m k d = (case m d of (Inl e, d') \<Rightarrow> (Inl e, d') | (Inr x, d') \<Rightarrow> k x d')"

definition put_fs :: "fs list \<Rightarrow> fs \<Rightarrow> disk \<Rightarrow> disk" where
  "put_fs between f d =
     d\<lparr>dk_fs := f, dk_calls := Suc (dk_calls d), dk_trace := dk_trace d @ between @ [f]\<rparr>"

text \<open>A call whose partial work after \<^term>\<open>k\<close> units is \<^term>\<open>part k\<close>, and whose whole work is
  \<^term>\<open>part n\<close>.\<close>

definition call :: "io_env \<Rightarrow> (nat \<Rightarrow> fs) \<Rightarrow> nat \<Rightarrow> unit io" where
  "call env part n d = (case env (dk_calls d) of
     None \<Rightarrow> (Inr (), put_fs (map part [0..<n]) (part n) d)
   | Some (e, k) \<Rightarrow> (Inl e, put_fs (map part [0..<min k n]) (part (min k n)) d))"

text \<open>A call that does all of its work or, when it fails, none of it.\<close>

definition call_atomic :: "io_env \<Rightarrow> fs \<Rightarrow> unit io" where
  "call_atomic env f d = (case env (dk_calls d) of
     None \<Rightarrow> (Inr (), put_fs [] f d)
   | Some (e, _) \<Rightarrow> (Inl e, put_fs [] (dk_fs d) d))"

definition dir_prefixes :: "path \<Rightarrow> path list" where
  "dir_prefixes p =
     filter (\<lambda>q. q \<noteq> [] \<and> (q = p \<or> p ! length q = CHR ''/'')) (prefixes p)"

definition add_dirs :: "path list \<Rightarrow> fs \<Rightarrow> fs" where
  "add_dirs ps f q = (if q \<in> set ps \<and> f q = None then Some Directory else f q)"

definition create_dir_all :: "io_env \<Rightarrow> path \<Rightarrow> unit io" where
  "create_dir_all env p d =
     call env (\<lambda>k. add_dirs (take k (dir_prefixes p)) (dk_fs d)) (length (dir_prefixes p)) d"

text \<open>\<^verbatim>\<open>OpenOptions::write.create.truncate.mode(m)\<close>: the mode matters only for a new file. The
  handle is the path the name resolves to.\<close>

definition truncated :: "nat \<Rightarrow> nat \<Rightarrow> node option \<Rightarrow> node option" where
  "truncated m now n = (case n of
     Some (Regular r) \<Rightarrow> Some (Regular (r\<lparr>rf_bytes := [], rf_mtime := now\<rparr>))
   | None \<Rightarrow> Some (Regular \<lparr>rf_bytes = [], rf_mode = m, rf_mtime = now\<rparr>)
   | other \<Rightarrow> other)"

definition open_truncate :: "io_env \<Rightarrow> path \<Rightarrow> nat \<Rightarrow> path io" where
  "open_truncate env p m d = (case follow (dk_fs d) p of
     None \<Rightarrow> (Inl ELOOP, d)
   | Some h \<Rightarrow>
       (if dk_fs d h = Some Directory then (Inl EISDIR, d)
        else io_bind (call_atomic env ((dk_fs d)(h := truncated m (dk_now d) (dk_fs d h))))
               (\<lambda>_ d'. (Inr h, d')) d))"

definition with_bytes :: "string \<Rightarrow> nat \<Rightarrow> node option \<Rightarrow> node option" where
  "with_bytes bs now n = (case n of
     Some (Regular r) \<Rightarrow> Some (Regular (r\<lparr>rf_bytes := bs, rf_mtime := now\<rparr>))
   | other \<Rightarrow> other)"

text \<open>\<^verbatim>\<open>write_all\<close> on a handle opened by \<^const>\<open>open_truncate\<close>: the bytes arrive one after the other.\<close>

definition write_all :: "io_env \<Rightarrow> path \<Rightarrow> string \<Rightarrow> unit io" where
  "write_all env h bs d =
     call env (\<lambda>k. (dk_fs d)(h := with_bytes (take k bs) (dk_now d) (dk_fs d h))) (length bs) d"

definition sync_all :: "io_env \<Rightarrow> unit io" where
  "sync_all env d = call_atomic env (dk_fs d) d"

definition renamed :: "path \<Rightarrow> path \<Rightarrow> fs \<Rightarrow> fs" where
  "renamed a b f = (if a = b then f else f(b := f a, a := None))"

text \<open>Neither puts a file in the place of a directory.\<close>

definition rename :: "io_env \<Rightarrow> path \<Rightarrow> path \<Rightarrow> unit io" where
  "rename env a b d =
     (if dk_fs d a = None then (Inl ENOENT, d)
      else if dk_fs d b = Some Directory then (Inl EISDIR, d)
      else call_atomic env (renamed a b (dk_fs d)) d)"

definition remove_file :: "io_env \<Rightarrow> path \<Rightarrow> unit io" where
  "remove_file env p d =
     (if dk_fs d p = None then (Inl ENOENT, d)
      else if dk_fs d p = Some Directory then (Inl EISDIR, d)
      else call_atomic env ((dk_fs d)(p := None)) d)"

text \<open>\<^verbatim>\<open>fs::read\<close> follows links and changes nothing. \<^verbatim>\<open>NotFound\<close> is the error kind the code asks for.\<close>

datatype read_error = NotFound | ReadFailed string

definition read_error_display :: "read_error \<Rightarrow> string" where
  "read_error_display e = (case e of NotFound \<Rightarrow> ENOENT | ReadFailed m \<Rightarrow> m)"

definition read_node :: "fs \<Rightarrow> path \<Rightarrow> read_error + string" where
  "read_node f p = (case follow f p of
     None \<Rightarrow> Inl (ReadFailed ELOOP)
   | Some h \<Rightarrow> (case f h of
       Some (Regular r) \<Rightarrow> Inr (rf_bytes r)
     | None \<Rightarrow> Inl NotFound
     | _ \<Rightarrow> Inl (ReadFailed EISDIR)))"

definition read_file :: "io_env \<Rightarrow> path \<Rightarrow> disk \<Rightarrow> (read_error + string) \<times> disk" where
  "read_file env p d =
     (case env (dk_calls d) of
        Some (e, _) \<Rightarrow> Inl (ReadFailed e)
      | None \<Rightarrow> read_node (dk_fs d) p,
      d\<lparr>dk_calls := Suc (dk_calls d)\<rparr>)"

text \<open>\<^verbatim>\<open>read_to_string\<close>: as \<^verbatim>\<open>read\<close>, and the bytes must be UTF-8.\<close>

definition NOT_UTF8 :: string where "NOT_UTF8 = ''stream did not contain valid UTF-8''"

definition read_to_string :: "io_env \<Rightarrow> path \<Rightarrow> disk \<Rightarrow> (read_error + string) \<times> disk" where
  "read_to_string env p d = (case read_file env p d of
     (Inr bs, d') \<Rightarrow> (if valid_utf8 bs then Inr bs else Inl (ReadFailed NOT_UTF8), d')
   | (Inl e, d') \<Rightarrow> (Inl e, d'))"

text \<open>\<^verbatim>\<open>symlink_metadata(p).is_ok()\<close>, which does not follow links.\<close>

definition lstat_ok :: "io_env \<Rightarrow> path \<Rightarrow> disk \<Rightarrow> bool \<times> disk" where
  "lstat_ok env p d = (env (dk_calls d) = None \<and> dk_fs d p \<noteq> None, d\<lparr>dk_calls := Suc (dk_calls d)\<rparr>)"

definition disk_of :: "fs \<Rightarrow> disk" where
  "disk_of f = \<lparr>dk_fs = f, dk_calls = 0, dk_now = 0, dk_trace = []\<rparr>"

section \<open>Framing\<close>

text \<open>\<^term>\<open>keeps ps d d'\<close>: going from \<^term>\<open>d\<close> to \<^term>\<open>d'\<close>, every file system passed through agrees with the
  first one outside \<^term>\<open>ps\<close>, and the trace only grows.\<close>

definition keeps :: "path set \<Rightarrow> disk \<Rightarrow> disk \<Rightarrow> bool" where
  "keeps ps d d' \<longleftrightarrow> (\<forall>q. q \<notin> ps \<longrightarrow> dk_fs d' q = dk_fs d q) \<and> dk_now d' = dk_now d \<and>
     (\<exists>new. dk_trace d' = dk_trace d @ new \<and> (\<forall>f \<in> set new. \<forall>q. q \<notin> ps \<longrightarrow> f q = dk_fs d q))"

lemma keeps_refl [simp]: "keeps ps d d"
  by (simp add: keeps_def)

lemma keeps_trans: "keeps ps d d' \<Longrightarrow> keeps ps d' d'' \<Longrightarrow> keeps ps d d''"
  unfolding keeps_def by fastforce

lemma keeps_mono: "keeps ps d d' \<Longrightarrow> ps \<subseteq> ps' \<Longrightarrow> keeps ps' d d'"
  unfolding keeps_def by blast

lemma call_keeps:
  assumes "\<And>k q. q \<notin> ps \<Longrightarrow> part k q = dk_fs d q"
  shows "keeps ps d (snd (call env part n d))"
  using assms by (auto simp: call_def put_fs_def keeps_def split: option.split)

lemma call_now [simp]: "dk_now (snd (call env part n d)) = dk_now d"
  by (auto simp: call_def put_fs_def split: option.split)

lemma call_Inr: "fst (call env part n d) = Inr u \<Longrightarrow> dk_fs (snd (call env part n d)) = part n"
  by (auto simp: call_def put_fs_def split: option.splits)

lemma call_atomic_keeps:
  assumes "\<And>q. q \<notin> ps \<Longrightarrow> f q = dk_fs d q"
  shows "keeps ps d (snd (call_atomic env f d))"
  using assms by (auto simp: call_atomic_def put_fs_def keeps_def split: option.split)

lemma call_atomic_Inr:
  "fst (call_atomic env f d) = Inr u \<Longrightarrow> dk_fs (snd (call_atomic env f d)) = f"
  by (auto simp: call_atomic_def put_fs_def split: option.splits)

lemma io_bind_keeps:
  assumes "keeps ps d (snd (m d))" "\<And>x d'. m d = (Inr x, d') \<Longrightarrow> keeps ps d' (snd (k x d'))"
  shows "keeps ps d (snd (io_bind m k d))"
  using assms by (auto simp: io_bind_def split: prod.split sum.split intro: keeps_trans)

lemma rename_keeps: "keeps {a, b} d (snd (rename env a b d))"
  unfolding rename_def using call_atomic_keeps [of "{a, b}" "renamed a b (dk_fs d)" d env]
  by (auto simp: renamed_def)

text \<open>\<^term>\<open>passes P d d'\<close>: all the file systems passed through on the way from \<^term>\<open>d\<close> to \<^term>\<open>d'\<close>, the last one included,
  satisfy \<^term>\<open>P\<close>. A crash leaves one of them.\<close>

definition passes :: "(fs \<Rightarrow> bool) \<Rightarrow> disk \<Rightarrow> disk \<Rightarrow> bool" where
  "passes P d d' \<longleftrightarrow> P (dk_fs d') \<and> (\<exists>new. dk_trace d' = dk_trace d @ new \<and> (\<forall>f \<in> set new. P f))"

lemma passes_last: "passes P d d' \<Longrightarrow> P (dk_fs d')"
  by (simp add: passes_def)

lemma passes_same: "P (dk_fs d') \<Longrightarrow> dk_trace d' = dk_trace d \<Longrightarrow> passes P d d'"
  by (simp add: passes_def)

lemma passes_trans: "passes P d d' \<Longrightarrow> passes P d' d'' \<Longrightarrow> passes P d d''"
  unfolding passes_def by fastforce

lemma passes_mono: "passes P d d' \<Longrightarrow> (\<And>f. P f \<Longrightarrow> Q f) \<Longrightarrow> passes Q d d'"
  unfolding passes_def by blast

lemma passes_conj: "passes P d d' \<Longrightarrow> passes Q d d' \<Longrightarrow> passes (\<lambda>f. P f \<and> Q f) d d'"
  unfolding passes_def by force

lemma passes_new: "passes P d d' \<Longrightarrow> dk_trace d' = dk_trace d @ new \<Longrightarrow> f \<in> set (dk_fs d' # new) \<Longrightarrow> P f"
  unfolding passes_def by auto

lemma keeps_passes: "keeps ps d d' \<Longrightarrow> passes (\<lambda>f. \<forall>q. q \<notin> ps \<longrightarrow> f q = dk_fs d q) d d'"
  unfolding keeps_def passes_def by blast

lemma call_passes: "(\<And>k. P (part k)) \<Longrightarrow> passes P d (snd (call env part n d))"
  by (auto simp: call_def put_fs_def passes_def split: option.split)

lemma call_atomic_passes: "P f \<Longrightarrow> P (dk_fs d) \<Longrightarrow> passes P d (snd (call_atomic env f d))"
  by (auto simp: call_atomic_def put_fs_def passes_def split: option.split)

lemma io_bind_passes:
  assumes "passes P d (snd (m d))" "\<And>x d'. m d = (Inr x, d') \<Longrightarrow> P (dk_fs d') \<Longrightarrow> passes P d' (snd (k x d'))"
  shows "passes P d (snd (io_bind m k d))"
  using assms passes_last [OF assms(1)]
  by (auto simp: io_bind_def split: prod.split sum.split intro: passes_trans)

lemma create_dir_all_keeps: "keeps (set (dir_prefixes p)) d (snd (create_dir_all env p d))"
  unfolding create_dir_all_def
  by (rule call_keeps) (auto simp: add_dirs_def dest: in_set_takeD)

lemma dir_prefixes_length: "q \<in> set (dir_prefixes p) \<Longrightarrow> length q \<le> length p"
  by (auto simp: dir_prefixes_def prefix_length_le)

lemma write_all_keeps: "keeps {h} d (snd (write_all env h bs d))"
  unfolding write_all_def by (rule call_keeps) simp

lemma sync_all_keeps: "keeps {} d (snd (sync_all env d))"
  unfolding sync_all_def by (rule call_atomic_keeps) simp

lemma remove_file_keeps: "keeps {p} d (snd (remove_file env p d))"
  unfolding remove_file_def using call_atomic_keeps [of "{p}"] by auto

lemma open_truncate_keeps:
  assumes "\<not> is_symlink (dk_fs d) p"
  shows "keeps {p} d (snd (open_truncate env p m d))"
  using call_atomic_keeps [of "{p}" "(dk_fs d)(p := truncated m (dk_now d) (dk_fs d p))"]
  by (auto simp: open_truncate_def follow_id [OF assms] intro!: io_bind_keeps)

lemma open_truncate_Inr:
  assumes "\<not> is_symlink (dk_fs d) p" "open_truncate env p m d = (Inr h, d')"
  shows "h = p \<and> (\<exists>r. dk_fs d' p = Some (Regular r))"
proof -
  let ?f = "(dk_fs d)(p := truncated m (dk_now d) (dk_fs d p))"
  from assms have nd: "dk_fs d p \<noteq> Some Directory" and h: "h = p"
    and c: "fst (call_atomic env ?f d) = Inr ()" "d' = snd (call_atomic env ?f d)"
    by (auto simp: open_truncate_def follow_id io_bind_def split: if_splits prod.splits sum.splits)
  then have "dk_fs d' p = truncated m (dk_now d) (dk_fs d p)"
    using call_atomic_Inr [OF c(1)] by simp
  with nd assms(1) h show ?thesis
    by (auto simp: truncated_def is_symlink_def split: option.splits node.splits)
qed

lemma write_all_Inr:
  assumes "write_all env h bs d = (Inr u, d')" "dk_fs d h = Some (Regular r)"
  shows "content (dk_fs d') h = Some bs"
proof -
  let ?part = "\<lambda>k. (dk_fs d)(h := with_bytes (take k bs) (dk_now d) (dk_fs d h))"
  have c: "fst (call env ?part (length bs) d) = Inr u" "d' = snd (call env ?part (length bs) d)"
    using assms(1) by (simp_all add: write_all_def)
  have "dk_fs d' = ?part (length bs)" using call_Inr [OF c(1)] c(2) by simp
  with assms(2) show ?thesis by (simp add: content_def with_bytes_def)
qed

lemma sync_all_fs: "dk_fs (snd (sync_all env d)) = dk_fs d"
  by (auto simp: sync_all_def call_atomic_def put_fs_def split: option.split)

lemma rename_Inr: "rename env a b d = (Inr u, d') \<Longrightarrow> dk_fs d' = renamed a b (dk_fs d)"
  by (auto simp: rename_def call_atomic_def put_fs_def split: option.splits if_splits)

lemma rename_Inl: "rename env a b d = (Inl e, d') \<Longrightarrow> dk_fs d' = dk_fs d"
  by (auto simp: rename_def call_atomic_def put_fs_def split: option.splits if_splits)

lemma rename_now: "rename env a b d = (r, d') \<Longrightarrow> dk_now d' = dk_now d"
  by (auto simp: rename_def call_atomic_def put_fs_def split: option.splits if_splits)

lemma rename_trace:
  "rename env a b d = (r, d') \<Longrightarrow>
   \<exists>new. dk_trace d' = dk_trace d @ new \<and> set new \<subseteq> {dk_fs d, renamed a b (dk_fs d)}"
  by (auto simp: rename_def call_atomic_def put_fs_def split: option.splits if_splits)

lemma read_file_disk [simp]:
  "dk_fs (snd (read_file env p d)) = dk_fs d" "dk_trace (snd (read_file env p d)) = dk_trace d"
  "dk_now (snd (read_file env p d)) = dk_now d"
  by (simp_all add: read_file_def)

lemma read_to_string_disk [simp]:
  "dk_fs (snd (read_to_string env p d)) = dk_fs d" "dk_trace (snd (read_to_string env p d)) = dk_trace d"
  "dk_now (snd (read_to_string env p d)) = dk_now d"
  using read_file_disk [of env p d]
  by (cases "read_file env p d"; cases "fst (read_file env p d)"; simp add: read_to_string_def)+

lemma lstat_ok_disk [simp]:
  "dk_fs (snd (lstat_ok env p d)) = dk_fs d" "dk_trace (snd (lstat_ok env p d)) = dk_trace d"
  "dk_now (snd (lstat_ok env p d)) = dk_now d"
  by (simp_all add: lstat_ok_def)

lemma read_node_content:
  "\<not> is_symlink f p \<Longrightarrow> read_node f p = Inr bs \<longleftrightarrow> content f p = Some bs"
  by (auto simp: read_node_def follow_id content_def is_symlink_def split: option.splits node.splits)

end
