(* ===== verification/AtomicWrite.thy ===== *)
theory AtomicWrite
  imports FileSys
begin

text \<open>
  The contract of replacing a file atomically (temporary file, sync, rename), as a locale. Two
  routines of the code promise it: \<^verbatim>\<open>write_atomic\<close> of \<^verbatim>\<open>apply.rs\<close> and \<^verbatim>\<open>save\<close> of \<^verbatim>\<open>store.rs\<close>; each
  interprets the locale in its own theory. The contract holds as long as the name of the
  temporary file is not a symbolic link, which opening it would follow.
\<close>

section \<open>The common sequence of calls\<close>

definition tmp_then_rename :: "io_env \<Rightarrow> path \<Rightarrow> string \<Rightarrow> nat \<Rightarrow> unit io" where
  "tmp_then_rename env p bs mode =
     io_bind (open_truncate env (tmp_path p) mode) (\<lambda>h.
     io_bind (write_all env h bs) (\<lambda>_.
     io_bind (sync_all env) (\<lambda>_.
       rename env (tmp_path p) p)))"

definition ensure_parent :: "io_env \<Rightarrow> path \<Rightarrow> unit io" where
  "ensure_parent env p = (case parent_dir p of
     Some q \<Rightarrow> create_dir_all env q | None \<Rightarrow> (\<lambda>d. (Inr (), d)))"

definition cleanup :: "io_env \<Rightarrow> path \<Rightarrow> unit io \<Rightarrow> unit io" where
  "cleanup env t m d = (case m d of
     (Inl e, d') \<Rightarrow> (Inl e, snd (remove_file env t d'))
   | (Inr u, d') \<Rightarrow> (Inr u, d'))"

definition replace_file :: "io_env \<Rightarrow> path \<Rightarrow> string \<Rightarrow> nat \<Rightarrow> unit io" where
  "replace_file env p bs mode =
     io_bind (ensure_parent env p) (\<lambda>_. cleanup env (tmp_path p) (tmp_then_rename env p bs mode))"

abbreviation parent_dirs :: "path \<Rightarrow> path set" where
  "parent_dirs p \<equiv> (case parent_dir p of Some q \<Rightarrow> set (dir_prefixes q) | None \<Rightarrow> {})"

lemma io_bind_assoc: "io_bind (io_bind m k) l = io_bind m (\<lambda>x. io_bind (k x) l)"
  by (auto simp: io_bind_def fun_eq_iff split: prod.split sum.split)

lemma parent_dirs_shorter: "q \<in> parent_dirs p \<Longrightarrow> length q < length p"
  by (auto split: option.splits dest!: dir_prefixes_length dest: parent_dir_shorter order.strict_trans1)

lemma parent_dirs_notin [simp]: "p \<notin> parent_dirs p" "tmp_path p \<notin> parent_dirs p"
  using parent_dirs_shorter [of p p] parent_dirs_shorter [of "tmp_path p" p]
  by (auto simp: tmp_path_def)

section \<open>What the sequence does\<close>

text \<open>States before the rename differ from the start only at the temporary name.\<close>

lemma before_rename:
  assumes sym: "\<not> is_symlink (dk_fs d) (tmp_path p)"
    and run: "io_bind (open_truncate env (tmp_path p) mode) (\<lambda>h. io_bind (write_all env h bs)
      (\<lambda>_. sync_all env)) d = (r, d')"
  shows "keeps {tmp_path p} d d'" and "r = Inr u \<Longrightarrow> content (dk_fs d') (tmp_path p) = Some bs"
proof -
  let ?t = "tmp_path p"
  obtain r1 d1 where o: "open_truncate env ?t mode d = (r1, d1)" by fastforce
  have k1: "keeps {?t} d d1" using open_truncate_keeps [OF sym, of env mode] o by simp
  have k: "keeps {?t} d d' \<and> (r = Inr u \<longrightarrow> content (dk_fs d') ?t = Some bs)"
  proof (cases r1)
    case (Inl e)
    with run o k1 show ?thesis by (auto simp: io_bind_def)
  next
    case (Inr h)
    with open_truncate_Inr [OF sym] o obtain g where h: "h = ?t" and g: "dk_fs d1 ?t = Some (Regular g)"
      by blast
    obtain r2 d2 where w: "write_all env ?t bs d1 = (r2, d2)" by fastforce
    have k2: "keeps {?t} d1 d2" using write_all_keeps [of ?t d1 env bs] w by simp
    show ?thesis
    proof (cases r2)
      case (Inl e)
      with run o w Inr h keeps_trans [OF k1 k2] show ?thesis by (auto simp: io_bind_def)
    next
      case (Inr v)
      obtain r3 d3 where s: "sync_all env d2 = (r3, d3)" by fastforce
      have "keeps {?t} d2 d3" using keeps_mono [OF sync_all_keeps, of "{?t}" d2 env] s by simp
      moreover have "dk_fs d3 = dk_fs d2" using sync_all_fs [of env d2] s by simp
      moreover have "d' = d3" "r = r3" using run o w s Inr \<open>r1 = Inr h\<close> h by (simp_all add: io_bind_def)
      ultimately show ?thesis
        using keeps_trans [OF keeps_trans [OF k1 k2]] write_all_Inr [OF w [unfolded Inr] g] by simp
    qed
  qed
  from k show "keeps {tmp_path p} d d'" by blast
  from k show "r = Inr u \<Longrightarrow> content (dk_fs d') (tmp_path p) = Some bs" by blast
qed

definition replaced :: "path \<Rightarrow> string \<Rightarrow> fs \<Rightarrow> fs \<Rightarrow> bool" where
  "replaced p bs f f' \<longleftrightarrow> content f' p = Some bs \<and> f' (tmp_path p) = None \<and>
     (\<forall>q. q \<noteq> p \<longrightarrow> q \<noteq> tmp_path p \<longrightarrow> f' q = f q)"

lemma tmp_then_rename_split:
  "tmp_then_rename env p bs mode =
     io_bind (io_bind (open_truncate env (tmp_path p) mode)
       (\<lambda>h. io_bind (write_all env h bs) (\<lambda>_. sync_all env)))
     (\<lambda>_. rename env (tmp_path p) p)"
  by (simp add: tmp_then_rename_def io_bind_assoc)

lemma tmp_then_rename_effect:
  assumes sym: "\<not> is_symlink (dk_fs d) (tmp_path p)" and run: "tmp_then_rename env p bs mode d = (r, d')"
  shows "(case r of Inr _ \<Rightarrow> replaced p bs (dk_fs d) (dk_fs d') \<and> dk_now d' = dk_now d
           | Inl _ \<Rightarrow> \<forall>q. q \<noteq> tmp_path p \<longrightarrow> dk_fs d' q = dk_fs d q)
     \<and> (\<exists>new. dk_trace d' = dk_trace d @ new \<and> (\<forall>f \<in> set new.
           (\<forall>q. q \<noteq> tmp_path p \<longrightarrow> f q = dk_fs d q) \<or> replaced p bs (dk_fs d) f))"
proof -
  let ?t = "tmp_path p"
  obtain r1 d1 where m: "io_bind (open_truncate env ?t mode)
      (\<lambda>h. io_bind (write_all env h bs) (\<lambda>_. sync_all env)) d = (r1, d1)" by fastforce
  note k = before_rename(1) [OF sym m]
  show ?thesis
  proof (cases r1)
    case (Inl e)
    with run m have "r = Inl e" "d' = d1"
      by (simp_all add: tmp_then_rename_split io_bind_def [of "io_bind _ _"])
    with k show ?thesis by (auto simp: keeps_def)
  next
    case (Inr v)
    with run m have ren: "rename env ?t p d1 = (r, d')"
      by (simp add: tmp_then_rename_split io_bind_def [of "io_bind _ _"])
    have c: "content (dk_fs d1) ?t = Some bs" by (rule before_rename(2) [OF sym m Inr])
    have dn: "replaced p bs (dk_fs d) (renamed ?t p (dk_fs d1))"
      using c k by (simp add: replaced_def renamed_def content_def keeps_def)
    obtain new where n: "dk_trace d' = dk_trace d1 @ new" "set new \<subseteq> {dk_fs d1, renamed ?t p (dk_fs d1)}"
      using rename_trace [OF ren] by blast
    obtain new1 where n1: "dk_trace d1 = dk_trace d @ new1"
        "\<forall>f \<in> set new1. \<forall>q. q \<noteq> ?t \<longrightarrow> f q = dk_fs d q"
      using k by (auto simp: keeps_def)
    have same: "\<forall>q. q \<noteq> ?t \<longrightarrow> dk_fs d1 q = dk_fs d q" using k by (simp add: keeps_def)
    have "dk_trace d' = dk_trace d @ (new1 @ new)" using n(1) n1(1) by simp
    moreover have "\<forall>f \<in> set (new1 @ new).
        (\<forall>q. q \<noteq> ?t \<longrightarrow> f q = dk_fs d q) \<or> replaced p bs (dk_fs d) f"
    proof
      fix f assume "f \<in> set (new1 @ new)"
      then consider "f \<in> set new1" | "f = dk_fs d1" | "f = renamed ?t p (dk_fs d1)"
        using n(2) by auto
      then show "(\<forall>q. q \<noteq> ?t \<longrightarrow> f q = dk_fs d q) \<or> replaced p bs (dk_fs d) f"
      proof cases
        case 1
        with n1(2) show ?thesis by blast
      next
        case 2
        show ?thesis unfolding 2 using same by blast
      next
        case 3
        show ?thesis unfolding 3 using dn by blast
      qed
    qed
    ultimately have "dk_trace d' = dk_trace d @ (new1 @ new) \<and> (\<forall>f \<in> set (new1 @ new).
        (\<forall>q. q \<noteq> ?t \<longrightarrow> f q = dk_fs d q) \<or> replaced p bs (dk_fs d) f)" ..
    then have tr: "\<exists>new. dk_trace d' = dk_trace d @ new \<and> (\<forall>f \<in> set new.
        (\<forall>q. q \<noteq> ?t \<longrightarrow> f q = dk_fs d q) \<or> replaced p bs (dk_fs d) f)" by (rule exI)
    have "case r of Inr _ \<Rightarrow> replaced p bs (dk_fs d) (dk_fs d') \<and> dk_now d' = dk_now d
        | Inl _ \<Rightarrow> \<forall>q. q \<noteq> ?t \<longrightarrow> dk_fs d' q = dk_fs d q"
    proof (cases r)
      case (Inl e)
      have "dk_fs d' = dk_fs d1" by (rule rename_Inl [OF ren [unfolded Inl]])
      with same Inl show ?thesis by simp
    next
      case (Inr u)
      have f: "dk_fs d' = renamed ?t p (dk_fs d1)" by (rule rename_Inr [OF ren [unfolded Inr]])
      have "dk_now d' = dk_now d1" by (rule rename_now [OF ren])
      also have "\<dots> = dk_now d" using k by (simp add: keeps_def)
      finally show ?thesis using dn by (simp only: Inr sum.case f simp_thms)
    qed
    with tr show ?thesis by blast
  qed
qed

lemma cleanup_effect:
  assumes sym: "\<not> is_symlink (dk_fs d) (tmp_path p)"
    and run: "cleanup env (tmp_path p) (tmp_then_rename env p bs mode) d = (r, d')"
  shows "(case r of Inr _ \<Rightarrow> replaced p bs (dk_fs d) (dk_fs d')
           | Inl _ \<Rightarrow> \<forall>q. q \<noteq> tmp_path p \<longrightarrow> dk_fs d' q = dk_fs d q)
     \<and> (\<exists>new. dk_trace d' = dk_trace d @ new \<and> (\<forall>f \<in> set new.
           (\<forall>q. q \<noteq> tmp_path p \<longrightarrow> f q = dk_fs d q) \<or> replaced p bs (dk_fs d) f))"
proof -
  let ?t = "tmp_path p"
  obtain r1 d1 where m: "tmp_then_rename env p bs mode d = (r1, d1)" by fastforce
  note e = tmp_then_rename_effect [OF sym m]
  show ?thesis
  proof (cases r1)
    case (Inr v)
    with run m e show ?thesis by (auto simp: cleanup_def)
  next
    case (Inl x)
    with run m have d': "r = Inl x" "d' = snd (remove_file env ?t d1)" by (simp_all add: cleanup_def)
    have "keeps {?t} d1 d'" by (simp add: d' remove_file_keeps)
    then obtain new2 where "\<forall>q. q \<noteq> ?t \<longrightarrow> dk_fs d' q = dk_fs d1 q" "dk_trace d' = dk_trace d1 @ new2"
      "\<forall>f \<in> set new2. \<forall>q. q \<noteq> ?t \<longrightarrow> f q = dk_fs d1 q"
      by (auto simp: keeps_def)
    with e Inl d' show ?thesis by fastforce
  qed
qed

lemma ensure_parent_keeps: "keeps (parent_dirs p) d (snd (ensure_parent env p d))"
  by (auto simp: ensure_parent_def create_dir_all_keeps split: option.split)

section \<open>The contract\<close>

definition no_link :: "path \<Rightarrow> disk \<Rightarrow> bool" where
  "no_link p d \<longleftrightarrow> \<not> is_symlink (dk_fs d) (tmp_path p)"

text \<open>A state on the way to the new content: the file is old or new, its temporary name no link, the rest as before.\<close>

definition write_state :: "path \<Rightarrow> string \<Rightarrow> fs \<Rightarrow> fs \<Rightarrow> bool" where
  "write_state p bs f0 f \<longleftrightarrow> \<not> is_symlink f (tmp_path p) \<and> (f p = f0 p \<or> content f p = Some bs) \<and>
     (\<forall>q. q \<noteq> p \<longrightarrow> q \<noteq> tmp_path p \<longrightarrow> q \<notin> parent_dirs p \<longrightarrow> f q = f0 q)"

locale atomic_writer =
  fixes wr :: "io_env \<Rightarrow> path \<Rightarrow> string \<Rightarrow> disk \<Rightarrow> ('e + unit) \<times> disk"
  assumes wr_ok: "no_link p d \<Longrightarrow> wr env p bs d = (Inr u, d') \<Longrightarrow> content (dk_fs d') p = Some bs"
    and wr_err: "no_link p d \<Longrightarrow> wr env p bs d = (Inl e, d') \<Longrightarrow> dk_fs d' p = dk_fs d p"
    and wr_passes: "no_link p d \<Longrightarrow> wr env p bs d = (r, d') \<Longrightarrow> passes (write_state p bs (dk_fs d)) d d'"
begin

lemma wr_trace:
  "no_link p d \<Longrightarrow> wr env p bs d = (r, d') \<Longrightarrow>
   \<exists>new. dk_trace d' = dk_trace d @ new \<and> (\<forall>f \<in> set new. f p = dk_fs d p \<or> content f p = Some bs)"
  by (drule (1) wr_passes) (auto simp: passes_def write_state_def)

lemma wr_frame:
  "no_link p d \<Longrightarrow> wr env p bs d = (r, d') \<Longrightarrow> q \<noteq> p \<Longrightarrow> q \<noteq> tmp_path p \<Longrightarrow> q \<notin> parent_dirs p \<Longrightarrow>
   dk_fs d' q = dk_fs d q"
  by (drule (1) wr_passes) (simp add: passes_def write_state_def)

lemma wr_no_link: "no_link p d \<Longrightarrow> wr env p bs d = (r, d') \<Longrightarrow> no_link p d'"
  by (drule (1) wr_passes) (simp add: passes_def write_state_def no_link_def)

lemma old_or_new:
  "no_link p d \<Longrightarrow> wr env p bs d = (r, d') \<Longrightarrow>
   content (dk_fs d') p = (case r of Inr _ \<Rightarrow> Some bs | Inl _ \<Rightarrow> content (dk_fs d) p)"
  using wr_ok wr_err by (cases r) (auto simp: content_def)

text \<open>Several writes in a row: whatever fails, and wherever a crash strikes, the file holds its
  original content or the whole content of one of the writes.\<close>

fun wr_many :: "io_env \<Rightarrow> path \<Rightarrow> string list \<Rightarrow> disk \<Rightarrow> disk" where
  "wr_many env p [] d = d"
| "wr_many env p (bs # rest) d = wr_many env p rest (snd (wr env p bs d))"

lemma wr_many_versions:
  assumes "no_link p d"
  shows "\<exists>new. dk_trace (wr_many env p bss d) = dk_trace d @ new \<and>
     (\<forall>f \<in> set (dk_fs (wr_many env p bss d) # new).
        content f p \<in> insert (content (dk_fs d) p) (Some ` set bss))"
  using assms
proof (induction bss arbitrary: d)
  case Nil
  then show ?case by simp
next
  case (Cons bs bss)
  obtain r d1 where w: "wr env p bs d = (r, d1)" by fastforce
  obtain new1 where n1: "dk_trace d1 = dk_trace d @ new1"
      "\<forall>f \<in> set new1. f p = dk_fs d p \<or> content f p = Some bs"
    using wr_trace [OF Cons.prems w] by blast
  obtain new2 where n2: "dk_trace (wr_many env p bss d1) = dk_trace d1 @ new2"
      "\<forall>f \<in> set (dk_fs (wr_many env p bss d1) # new2).
         content f p \<in> insert (content (dk_fs d1) p) (Some ` set bss)"
    using Cons.IH [OF wr_no_link [OF Cons.prems w]] by blast
  have d1: "content (dk_fs d1) p \<in> {content (dk_fs d) p, Some bs}"
    using old_or_new [OF Cons.prems w] by (cases r) auto
  have c1: "\<forall>f \<in> set new1. content f p \<in> {content (dk_fs d) p, Some bs}"
    using n1(2) by (auto simp: content_def)
  have "\<forall>f \<in> set (dk_fs (wr_many env p bss d1) # new1 @ new2).
      content f p \<in> insert (content (dk_fs d) p) (Some ` set (bs # bss))"
    using c1 n2(2) d1 by auto
  moreover have "dk_trace (wr_many env p (bs # bss) d) = dk_trace d @ new1 @ new2"
    using w n1(1) n2(1) by simp
  moreover have "wr_many env p (bs # bss) d = wr_many env p bss d1" using w by simp
  ultimately show ?case by metis
qed

end

lemma replace_file_effect:
  assumes "no_link p d" and run: "replace_file env p bs mode d = (r, d')"
  shows "(case r of Inr _ \<Rightarrow> content (dk_fs d') p = Some bs | Inl _ \<Rightarrow> dk_fs d' p = dk_fs d p)
    \<and> (\<exists>new. dk_trace d' = dk_trace d @ new \<and>
         (\<forall>f \<in> set new. f p = dk_fs d p \<or> content f p = Some bs))
    \<and> (\<forall>q. q \<noteq> p \<longrightarrow> q \<noteq> tmp_path p \<longrightarrow> q \<notin> parent_dirs p \<longrightarrow> dk_fs d' q = dk_fs d q)"
proof -
  obtain r1 d1 where m: "ensure_parent env p d = (r1, d1)" by fastforce
  have k: "keeps (parent_dirs p) d d1" using ensure_parent_keeps [of p d env] m by simp
  then have same: "dk_fs d1 p = dk_fs d p" "dk_fs d1 (tmp_path p) = dk_fs d (tmp_path p)"
    by (simp_all add: keeps_def)
  show ?thesis
  proof (cases r1)
    case (Inl e)
    with run m have "r = Inl e" "d' = d1" by (simp_all add: replace_file_def io_bind_def)
    with k show ?thesis by (auto simp: keeps_def)
  next
    case (Inr v)
    with run m have c: "cleanup env (tmp_path p) (tmp_then_rename env p bs mode) d1 = (r, d')"
      by (simp add: replace_file_def io_bind_def)
    have "\<not> is_symlink (dk_fs d1) (tmp_path p)"
      using assms(1) same by (simp add: no_link_def is_symlink_def)
    note e = cleanup_effect [OF this c]
    obtain new where n: "dk_trace d' = dk_trace d1 @ new"
      "\<forall>f \<in> set new. (\<forall>q. q \<noteq> tmp_path p \<longrightarrow> f q = dk_fs d1 q) \<or> replaced p bs (dk_fs d1) f"
      using e by blast
    obtain new1 where n1: "dk_trace d1 = dk_trace d @ new1"
      "\<forall>f \<in> set new1. \<forall>q. q \<notin> parent_dirs p \<longrightarrow> f q = dk_fs d q"
      using k by (auto simp: keeps_def)
    have "dk_trace d' = dk_trace d @ (new1 @ new)" using n(1) n1(1) by simp
    moreover have "\<forall>f \<in> set (new1 @ new). f p = dk_fs d p \<or> content f p = Some bs"
      using n(2) n1(2) same by (auto simp: replaced_def)
    ultimately have tr: "\<exists>new. dk_trace d' = dk_trace d @ new \<and>
         (\<forall>f \<in> set new. f p = dk_fs d p \<or> content f p = Some bs)" by blast
    show ?thesis
      using e k same tr by (cases r) (auto simp: replaced_def keeps_def)
  qed
qed

section \<open>No step makes the temporary name a symbolic link\<close>

text \<open>Nor does it touch any other file; both hold in all states on the way.\<close>

lemma create_dir_all_linkless:
  "\<not> is_symlink (dk_fs d) t \<Longrightarrow> passes (\<lambda>f. \<not> is_symlink f t) d (snd (create_dir_all env p d))"
  unfolding create_dir_all_def by (rule call_passes) (auto simp: is_symlink_def add_dirs_def)

lemma open_truncate_linkless:
  assumes "\<not> is_symlink (dk_fs d) t"
  shows "passes (\<lambda>f. \<not> is_symlink f t) d (snd (open_truncate env p m d))"
proof -
  have "\<not> is_symlink ((dk_fs d)(h := truncated m (dk_now d) (dk_fs d h))) t" for h
    using assms by (auto simp: is_symlink_def truncated_def split: option.splits node.splits)
  then show ?thesis
    using assms by (auto simp: open_truncate_def passes_same passes_same intro!: io_bind_passes call_atomic_passes split: option.split)
qed

lemma write_all_linkless:
  "\<not> is_symlink (dk_fs d) t \<Longrightarrow> passes (\<lambda>f. \<not> is_symlink f t) d (snd (write_all env h bs d))"
  unfolding write_all_def
  by (rule call_passes) (auto simp: is_symlink_def with_bytes_def split: option.splits node.splits)

lemma sync_all_linkless:
  "\<not> is_symlink (dk_fs d) t \<Longrightarrow> passes (\<lambda>f. \<not> is_symlink f t) d (snd (sync_all env d))"
  unfolding sync_all_def by (rule call_atomic_passes)

lemma rename_linkless:
  "\<not> is_symlink (dk_fs d) t \<Longrightarrow> passes (\<lambda>f. \<not> is_symlink f t) d (snd (rename env t p d))"
  by (auto simp: rename_def passes_same renamed_def is_symlink_def intro!: call_atomic_passes split: if_splits)

lemma remove_file_linkless:
  "\<not> is_symlink (dk_fs d) t \<Longrightarrow> passes (\<lambda>f. \<not> is_symlink f t) d (snd (remove_file env p d))"
  by (auto simp: remove_file_def passes_same is_symlink_def intro!: call_atomic_passes split: if_splits)

lemma tmp_then_rename_linkless:
  "\<not> is_symlink (dk_fs d) (tmp_path p) \<Longrightarrow>
   passes (\<lambda>f. \<not> is_symlink f (tmp_path p)) d (snd (tmp_then_rename env p bs mode d))"
  unfolding tmp_then_rename_def
  by (intro io_bind_passes open_truncate_linkless write_all_linkless sync_all_linkless rename_linkless)

lemma ensure_parent_linkless:
  "\<not> is_symlink (dk_fs d) t \<Longrightarrow> passes (\<lambda>f. \<not> is_symlink f t) d (snd (ensure_parent env p d))"
  by (auto simp: ensure_parent_def passes_same create_dir_all_linkless split: option.split)

lemma cleanup_passes:
  assumes "passes P d (snd (m d))" "\<And>d'. passes P d d' \<Longrightarrow> passes P d' (snd (remove_file env t d'))"
  shows "passes P d (snd (cleanup env t m d))"
  using assms by (auto simp: cleanup_def split: prod.split sum.split intro: passes_trans)

lemma replace_file_linkless:
  assumes "no_link p d"
  shows "passes (\<lambda>f. \<not> is_symlink f (tmp_path p)) d (snd (replace_file env p bs mode d))"
proof -
  have 1: "passes (\<lambda>f. \<not> is_symlink f (tmp_path p)) d (snd (ensure_parent env p d))"
    using assms ensure_parent_linkless by (simp add: no_link_def)
  have 2: "passes (\<lambda>f. \<not> is_symlink f (tmp_path p)) d1 (snd (cleanup env (tmp_path p) (tmp_then_rename env p bs mode) d1))"
    if "\<not> is_symlink (dk_fs d1) (tmp_path p)" for d1
    using that by (intro cleanup_passes tmp_then_rename_linkless remove_file_linkless) (auto dest: passes_last)
  show ?thesis
    unfolding replace_file_def using 1 2 by (intro io_bind_passes)
qed

lemma tmp_then_rename_keeps:
  assumes "\<not> is_symlink (dk_fs d) (tmp_path p)"
  shows "keeps {p, tmp_path p} d (snd (tmp_then_rename env p bs mode d))"
  unfolding tmp_then_rename_def
proof (intro io_bind_keeps)
  show "keeps {p, tmp_path p} d (snd (open_truncate env (tmp_path p) mode d))"
    using open_truncate_keeps [OF assms] by (rule keeps_mono) simp
next
  fix h d1
  assume "open_truncate env (tmp_path p) mode d = (Inr h, d1)"
  then have "h = tmp_path p" using open_truncate_Inr [OF assms] by blast
  then show "keeps {p, tmp_path p} d1 (snd (write_all env h bs d1))"
    using keeps_mono [OF write_all_keeps, of h "{p, tmp_path p}"] by simp
next
  show "keeps {p, tmp_path p} d2 (snd (sync_all env d2))" for d2
    using sync_all_keeps by (rule keeps_mono) simp
  show "keeps {p, tmp_path p} d3 (snd (rename env (tmp_path p) p d3))" for d3
    using rename_keeps by (rule keeps_mono) simp
qed

lemma replace_file_keeps:
  assumes "no_link p d"
  shows "keeps (insert p (insert (tmp_path p) (parent_dirs p))) d (snd (replace_file env p bs mode d))"
  unfolding replace_file_def
proof (rule io_bind_keeps)
  show "keeps (insert p (insert (tmp_path p) (parent_dirs p))) d (snd (ensure_parent env p d))"
    using ensure_parent_keeps by (rule keeps_mono) auto
next
  fix x d1
  assume "ensure_parent env p d = (Inr x, d1)"
  then have sym: "\<not> is_symlink (dk_fs d1) (tmp_path p)"
    using passes_last [OF ensure_parent_linkless] assms by (metis no_link_def snd_conv)
  obtain r d2 where t: "tmp_then_rename env p bs mode d1 = (r, d2)" by fastforce
  have k: "keeps {p, tmp_path p} d1 d2" using tmp_then_rename_keeps [OF sym, of env bs mode] t by simp
  have "keeps {p, tmp_path p} d2 (snd (remove_file env (tmp_path p) d2))"
    using remove_file_keeps by (rule keeps_mono) simp
  then have "keeps {p, tmp_path p} d1 (snd (cleanup env (tmp_path p) (tmp_then_rename env p bs mode) d1))"
    using k keeps_trans by (auto simp: cleanup_def t split: sum.split)
  then show "keeps (insert p (insert (tmp_path p) (parent_dirs p))) d1
      (snd (cleanup env (tmp_path p) (tmp_then_rename env p bs mode) d1))"
    by (rule keeps_mono) auto
qed

lemma replace_file_passes:
  assumes "no_link p d" "replace_file env p bs mode d = (r, d')"
  shows "passes (write_state p bs (dk_fs d)) d d'"
proof -
  have "passes (\<lambda>f. f p = dk_fs d p \<or> content f p = Some bs) d d'"
    using replace_file_effect [OF assms] by (cases r) (auto simp: passes_def)
  moreover have "passes (\<lambda>f. \<not> is_symlink f (tmp_path p)) d d'" using replace_file_linkless [OF assms(1)] assms(2) by (metis snd_conv)
  moreover have "passes (\<lambda>f. \<forall>q. q \<notin> insert p (insert (tmp_path p) (parent_dirs p)) \<longrightarrow> f q = dk_fs d q) d d'"
    using keeps_passes [OF replace_file_keeps [OF assms(1), of env bs mode]] assms(2) by simp
  ultimately have "passes (\<lambda>f. (f p = dk_fs d p \<or> content f p = Some bs) \<and> \<not> is_symlink f (tmp_path p) \<and>
      (\<forall>q. q \<notin> insert p (insert (tmp_path p) (parent_dirs p)) \<longrightarrow> f q = dk_fs d q)) d d'"
    by (intro passes_conj)
  then show ?thesis by (rule passes_mono) (simp add: write_state_def)
qed

lemma replace_file_no_link: "no_link p d \<Longrightarrow> replace_file env p bs mode d = (r, d') \<Longrightarrow> no_link p d'"
  using passes_last [OF replace_file_passes] by (auto simp: write_state_def no_link_def)

section \<open>Without faults\<close>

text \<open>When no call fails, the temporary name is neither a link nor a directory and the name itself no directory,
  the write succeeds.\<close>

definition replaceable :: "path \<Rightarrow> disk \<Rightarrow> bool" where
  "replaceable p d \<longleftrightarrow> no_link p d \<and> dk_fs d (tmp_path p) \<noteq> Some Directory \<and> dk_fs d p \<noteq> Some Directory"

lemma replaceable_same: "dk_fs d' p = dk_fs d p \<Longrightarrow> dk_fs d' (tmp_path p) = dk_fs d (tmp_path p) \<Longrightarrow> replaceable p d' = replaceable p d"
  by (simp add: replaceable_def no_link_def is_symlink_def)

lemma tmp_then_rename_quiet:
  assumes "replaceable p d"
  shows "\<exists>d'. tmp_then_rename (\<lambda>_. None) p bs mode d = (Inr (), d')"
proof -
  have "\<exists>r. truncated mode (dk_now d) (dk_fs d (tmp_path p)) = Some (Regular r)"
    using assms by (simp add: replaceable_def no_link_def truncated_def is_symlink_def split: option.splits node.splits)
  then obtain r where "truncated mode (dk_now d) (dk_fs d (tmp_path p)) = Some (Regular r)" by blast
  then show ?thesis
    using assms by (simp add: replaceable_def no_link_def tmp_then_rename_def io_bind_def open_truncate_def follow_id call_atomic_def put_fs_def
        write_all_def call_def with_bytes_def sync_all_def rename_def)
qed

lemma replace_file_quiet:
  assumes "replaceable p d"
  shows "\<exists>d'. replace_file (\<lambda>_. None) p bs mode d = (Inr (), d')"
proof -
  obtain r d1 where e: "ensure_parent (\<lambda>_. None) p d = (r, d1)" by fastforce
  have r: "r = Inr ()" using e by (auto simp: ensure_parent_def create_dir_all_def call_def split: option.splits)
  have "dk_fs d1 p = dk_fs d p" "dk_fs d1 (tmp_path p) = dk_fs d (tmp_path p)"
    using ensure_parent_keeps [of p d "\<lambda>_. None"] e by (simp_all add: keeps_def)
  then have "replaceable p d1" using assms replaceable_same by metis
  then show ?thesis
    using tmp_then_rename_quiet [of p d1 bs mode] e r
    by (auto simp: replace_file_def io_bind_def cleanup_def)
qed

end
