(* ===== verification/Store.thy ===== *)
theory Store
  imports Update AtomicWrite
begin

text \<open>
  \<^verbatim>\<open>crates/abora-update/src/store.rs\<close>: the persistent update state. JSON is the business of
  \<^verbatim>\<open>serde_json\<close>: the serialiser \<^term>\<open>ser\<close> and the parser \<^term>\<open>de\<close> are arguments, and what the code
  relies on, that parsing undoes serialising, is a hypothesis where it is needed. The store
  handed from one operation to the next is the value behind the mutex; an operation holds the
  lock from its first read to its last write, so operations are sequential.
\<close>

section \<open>Data\<close>

definition SCHEMA_VERSION :: u32 where "SCHEMA_VERSION = 1"
definition MAX_HISTORY :: nat where "MAX_HISTORY = 500"

record store_data =
  sd_schema :: u32
  sd_last_check :: "string option"
  sd_reboot :: reboot_status
  sd_history :: "update_history_entry list"

definition store_data_default :: store_data where
  "store_data_default = \<lparr>sd_schema = SCHEMA_VERSION, sd_last_check = None,
     sd_reboot = reboot_status_default, sd_history = []\<rparr>"

datatype opened = Fresh | Loaded | Recovered path

datatype store_error = Io path string | NewerSchema path u32 u32

definition store_error_display :: "store_error \<Rightarrow> string" where
  "store_error_display e = (case e of
     Io p m \<Rightarrow> ''update store I/O error at '' @ p @ '': '' @ m
   | NewerSchema p found supported \<Rightarrow> ''update store '' @ p @
       '' was written by a newer version (schema '' @ show_nat (unat found) @
       '', this build understands '' @ show_nat (unat supported) @ ''); refusing to overwrite it'')"

record update_store =
  us_path :: "path option"
  us_data :: store_data

type_synonym serialiser = "store_data \<Rightarrow> string"
type_synonym deserialiser = "string \<Rightarrow> store_data option"

section \<open>Operations\<close>

definition in_memory :: update_store where
  "in_memory = \<lparr>us_path = None, us_data = store_data_default\<rparr>"

definition store_trim :: "store_data \<Rightarrow> store_data" where
  "store_trim data =
     (if length (sd_history data) > MAX_HISTORY
      then let excess = length (sd_history data) - MAX_HISTORY
           in data\<lparr>sd_history := drop excess (sd_history data)\<rparr>
      else data)"

definition store_io :: "path \<Rightarrow> 'a io \<Rightarrow> disk \<Rightarrow> (store_error + 'a) \<times> disk" where
  "store_io p m d = (case m d of (r, d') \<Rightarrow> (map_err (Io p) r, d'))"

text \<open>\<^verbatim>\<open>write_synced\<close> creates the file with mode 0600.\<close>

definition write_synced :: "io_env \<Rightarrow> path \<Rightarrow> string \<Rightarrow> unit io" where
  "write_synced env path bytes =
     io_bind (open_truncate env path 384) (\<lambda>h.
     io_bind (write_all env h bytes) (\<lambda>_. sync_all env))"

text \<open>Syncing the directory after the rename is best effort.\<close>

definition sync_parent :: "io_env \<Rightarrow> path \<Rightarrow> disk \<Rightarrow> disk" where
  "sync_parent env path d = (case parent_dir path of Some _ \<Rightarrow> snd (sync_all env d) | None \<Rightarrow> d)"

definition save_bytes :: "io_env \<Rightarrow> path \<Rightarrow> string \<Rightarrow> disk \<Rightarrow> (store_error + unit) \<times> disk" where
  "save_bytes env path json d =
     (case (case parent_dir path of
         Some parent \<Rightarrow> store_io parent (create_dir_all env parent) d
       | None \<Rightarrow> (Inr (), d)) of
       (Inl e, d') \<Rightarrow> (Inl e, d')
     | (Inr _, d') \<Rightarrow>
         (case io_bind (write_synced env (tmp_path path) json)
                 (\<lambda>_. rename env (tmp_path path) path) d' of
            (Inl e, d'') \<Rightarrow> (Inl (Io path e), snd (remove_file env (tmp_path path) d''))
          | (Inr _, d'') \<Rightarrow> (Inr (), sync_parent env path d'')))"

definition save :: "serialiser \<Rightarrow> io_env \<Rightarrow> path \<Rightarrow> store_data \<Rightarrow> disk \<Rightarrow> (store_error + unit) \<times> disk" where
  "save ser env path data = save_bytes env path (ser data)"

definition store_open ::
    "deserialiser \<Rightarrow> io_env \<Rightarrow> path \<Rightarrow> disk \<Rightarrow> (store_error + update_store \<times> opened) \<times> disk" where
  "store_open de env path d =
     (let opened_with = (\<lambda>data how. Inr (\<lparr>us_path = Some path, us_data = store_trim data\<rparr>, how))
      in case read_file env path d of
        (Inr bytes, d') \<Rightarrow> (case de bytes of
            Some data \<Rightarrow>
              if sd_schema data > SCHEMA_VERSION
              then (Inl (NewerSchema path (sd_schema data) SCHEMA_VERSION), d')
              else (opened_with data Loaded, d')
          | None \<Rightarrow>
              let backup = path @ ''.corrupt''
              in case rename env path backup d' of
                   (Inl e, d'') \<Rightarrow> (Inl (Io path e), d'')
                 | (Inr _, d'') \<Rightarrow> (opened_with store_data_default (Recovered backup), d''))
      | (Inl NotFound, d') \<Rightarrow> (opened_with store_data_default Fresh, d')
      | (Inl e, d') \<Rightarrow> (Inl (Io path (read_error_display e)), d'))"

definition snapshot :: "update_store \<Rightarrow> store_data" where
  "snapshot s = us_data s"

definition store_history :: "update_store \<Rightarrow> update_history_entry list" where
  "store_history s = rev (sd_history (us_data s))"

definition store_last_check :: "update_store \<Rightarrow> string option" where
  "store_last_check s = sd_last_check (us_data s)"

definition store_reboot :: "update_store \<Rightarrow> reboot_status" where
  "store_reboot s = sd_reboot (us_data s)"

type_synonym store_op = "update_store \<Rightarrow> disk \<Rightarrow> (store_error + unit) \<times> update_store \<times> disk"

definition store_change :: "serialiser \<Rightarrow> io_env \<Rightarrow> (store_data \<Rightarrow> store_data) \<Rightarrow> store_op" where
  "store_change ser env edit s d =
     (let next_data = store_trim (edit (us_data s))
      in case us_path s of
           None \<Rightarrow> (Inr (), s\<lparr>us_data := next_data\<rparr>, d)
         | Some path \<Rightarrow> (case save ser env path next_data d of
             (Inl e, d') \<Rightarrow> (Inl e, s, d')
           | (Inr _, d') \<Rightarrow> (Inr (), s\<lparr>us_data := next_data\<rparr>, d')))"

definition record_check :: "serialiser \<Rightarrow> io_env \<Rightarrow> string \<Rightarrow> store_op" where
  "record_check ser env when = store_change ser env (\<lambda>d. d\<lparr>sd_last_check := Some when\<rparr>)"

definition record_update :: "serialiser \<Rightarrow> io_env \<Rightarrow> update_history_entry \<Rightarrow> store_op" where
  "record_update ser env entry = store_change ser env (\<lambda>d. d\<lparr>sd_history := sd_history d @ [entry]\<rparr>)"

definition set_reboot :: "serialiser \<Rightarrow> io_env \<Rightarrow> reboot_status \<Rightarrow> store_op" where
  "set_reboot ser env status = store_change ser env (\<lambda>d. d\<lparr>sd_reboot := status\<rparr>)"

section \<open>Saving keeps the contract of an atomic writer\<close>

lemma save_bytes_replace:
  "save_bytes env p json d =
     (case io_bind (ensure_parent env p) (\<lambda>_ d. (Inr (), d)) d of
        (Inl e, d') \<Rightarrow> (Inl (Io (case parent_dir p of Some q \<Rightarrow> q | None \<Rightarrow> p) e), d')
      | (Inr _, d') \<Rightarrow>
          (case cleanup env (tmp_path p) (tmp_then_rename env p json 384) d' of
             (Inl e, d'') \<Rightarrow> (Inl (Io p e), d'')
           | (Inr _, d'') \<Rightarrow> (Inr (), sync_parent env p d'')))"
  by (auto simp: save_bytes_def ensure_parent_def store_io_def cleanup_def write_synced_def
      tmp_then_rename_split map_err_def io_bind_assoc io_bind_def [of "create_dir_all _ _"]
      io_bind_def [of "\<lambda>d. (Inr (), d)"]
      split: option.split prod.split sum.split)

lemma save_bytes_replace_file:
  assumes "save_bytes env p json d = (r, d')"
  obtains e d'' where "r = Inl e" "replace_file env p json 384 d = (Inl d'', d')"
    | d'' where "r = Inr ()" "replace_file env p json 384 d = (Inr (), d'')"
      "d' = sync_parent env p d''"
proof -
  obtain r1 d1 where e: "ensure_parent env p d = (r1, d1)" by fastforce
  obtain r2 d2 where c: "cleanup env (tmp_path p) (tmp_then_rename env p json 384) d1 = (r2, d2)"
    by fastforce
  show thesis
  proof (cases r1)
    case (Inl x)
    with assms e have "\<exists>y. r = Inl y" "d' = d1" by (auto simp: save_bytes_replace io_bind_def)
    moreover have "replace_file env p json 384 d = (Inl x, d1)"
      using e Inl by (simp add: replace_file_def io_bind_def)
    ultimately show thesis using that(1) by blast
  next
    case (Inr v)
    then have rf: "replace_file env p json 384 d = (r2, d2)"
      using e c by (simp add: replace_file_def io_bind_def)
    show thesis
    proof (cases r2)
      case (Inl y)
      with assms e c \<open>r1 = Inr v\<close> have "\<exists>y. r = Inl y" "d' = d2"
        by (auto simp: save_bytes_replace io_bind_def)
      with rf Inl show thesis using that(1) by blast
    next
      case (Inr w)
      with assms e c \<open>r1 = Inr v\<close> have "r = Inr ()" "d' = sync_parent env p d2"
        by (auto simp: save_bytes_replace io_bind_def)
      with rf Inr show thesis using that(2) by simp
    qed
  qed
qed

lemma sync_parent_keeps: "keeps {} d (sync_parent env p d)"
  by (simp add: sync_parent_def sync_all_keeps split: option.split)

lemma sync_parent_fs [simp]: "dk_fs (sync_parent env p d) = dk_fs d"
  by (simp add: sync_parent_def sync_all_fs split: option.split)

lemma sync_parent_trace: "\<exists>new. dk_trace (sync_parent env p d) = dk_trace d @ new \<and> set new \<subseteq> {dk_fs d}"
proof -
  obtain new where n: "dk_trace (sync_parent env p d) = dk_trace d @ new"
    "\<forall>f \<in> set new. \<forall>q. q \<notin> {} \<longrightarrow> f q = dk_fs d q"
    using sync_parent_keeps [of d env p] unfolding keeps_def by blast
  then have "set new \<subseteq> {dk_fs d}" by (auto simp: fun_eq_iff)
  with n show ?thesis by blast
qed

lemma save_bytes_effect:
  assumes "no_link p d" and run: "save_bytes env p bs d = (r, d')"
  shows "(case r of Inr _ \<Rightarrow> content (dk_fs d') p = Some bs | Inl _ \<Rightarrow> dk_fs d' p = dk_fs d p) \<and>
    passes (write_state p bs (dk_fs d)) d d'"
  using run
proof (cases rule: save_bytes_replace_file)
  case (1 e m)
  with replace_file_effect [OF assms(1) 1(2)] replace_file_passes [OF assms(1) 1(2)] show ?thesis by simp
next
  case (2 d2)
  note p = replace_file_passes [OF assms(1) 2(2)]
  obtain new where "dk_trace d' = dk_trace d2 @ new" "set new \<subseteq> {dk_fs d2}"
    using sync_parent_trace 2(3) by blast
  then have "passes (write_state p bs (dk_fs d)) d2 d'"
    using passes_last [OF p] by (auto simp: passes_def 2(3))
  with p replace_file_effect [OF assms(1) 2(2)] 2(1,3) passes_trans show ?thesis by fastforce
qed

interpretation sv: atomic_writer save_bytes
proof
  fix p d env bs u d'
  assume "no_link p d" "save_bytes env p bs d = (Inr u, d')"
  then show "content (dk_fs d') p = Some bs" using save_bytes_effect by fastforce
next
  fix p d env bs e d'
  assume "no_link p d" "save_bytes env p bs d = (Inl e, d')"
  then show "dk_fs d' p = dk_fs d p" using save_bytes_effect by fastforce
next
  fix p d env bs r d'
  assume "no_link p d" "save_bytes env p bs d = (r, d')"
  then show "passes (write_state p bs (dk_fs d)) d d'" using save_bytes_effect by blast
qed

section \<open>Commands and their sequences\<close>

datatype store_cmd = RecordCheck string | RecordUpdate update_history_entry | SetReboot reboot_status

text \<open>The specification of a command: what it does to the data when it succeeds.\<close>

fun cmd_edit :: "store_cmd \<Rightarrow> store_data \<Rightarrow> store_data" where
  "cmd_edit (RecordCheck w) d = d\<lparr>sd_last_check := Some w\<rparr>"
| "cmd_edit (RecordUpdate e) d = d\<lparr>sd_history := sd_history d @ [e]\<rparr>"
| "cmd_edit (SetReboot r) d = d\<lparr>sd_reboot := r\<rparr>"

fun store_exec :: "serialiser \<Rightarrow> io_env \<Rightarrow> store_cmd \<Rightarrow> store_op" where
  "store_exec ser env (RecordCheck w) = record_check ser env w"
| "store_exec ser env (RecordUpdate e) = record_update ser env e"
| "store_exec ser env (SetReboot r) = set_reboot ser env r"

fun store_run :: "serialiser \<Rightarrow> io_env \<Rightarrow> store_cmd list \<Rightarrow> update_store \<Rightarrow> disk \<Rightarrow> update_store \<times> disk" where
  "store_run ser env [] s d = (s, d)"
| "store_run ser env (c # cs) s d = (case store_exec ser env c s d of (_, s', d') \<Rightarrow> store_run ser env cs s' d')"

text \<open>The data a run goes through: after every command, and what every command tried to save.\<close>

fun store_versions :: "serialiser \<Rightarrow> io_env \<Rightarrow> store_cmd list \<Rightarrow> update_store \<Rightarrow> disk \<Rightarrow> store_data list" where
  "store_versions ser env [] s d = [us_data s]"
| "store_versions ser env (c # cs) s d = us_data s # store_trim (cmd_edit c (us_data s)) #
     (case store_exec ser env c s d of (_, s', d') \<Rightarrow> store_versions ser env cs s' d')"

lemma store_exec_change: "store_exec ser env c = store_change ser env (cmd_edit c)"
proof -
  have "cmd_edit c = (case c of RecordCheck w \<Rightarrow> (\<lambda>d. d\<lparr>sd_last_check := Some w\<rparr>)
     | RecordUpdate e \<Rightarrow> (\<lambda>d. d\<lparr>sd_history := sd_history d @ [e]\<rparr>) | SetReboot r \<Rightarrow> (\<lambda>d. d\<lparr>sd_reboot := r\<rparr>))"
    by (cases c) (simp_all add: fun_eq_iff)
  then show ?thesis by (cases c) (simp_all add: record_check_def record_update_def set_reboot_def)
qed

definition data_ok :: "store_data \<Rightarrow> bool" where
  "data_ok x \<longleftrightarrow> length (sd_history x) \<le> MAX_HISTORY \<and> sd_schema x \<le> SCHEMA_VERSION"

lemma store_trim_simps [simp]:
  "sd_schema (store_trim x) = sd_schema x" "sd_last_check (store_trim x) = sd_last_check x"
  "sd_reboot (store_trim x) = sd_reboot x"
  by (simp_all add: store_trim_def Let_def)

lemma store_trim_bound: "length (sd_history (store_trim x)) \<le> MAX_HISTORY"
  by (simp add: store_trim_def Let_def)

lemma store_trim_id: "length (sd_history x) \<le> MAX_HISTORY \<Longrightarrow> store_trim x = x"
  by (simp add: store_trim_def)

lemma store_trim_newest: "rev (sd_history (store_trim x)) = take MAX_HISTORY (rev (sd_history x))"
  by (simp add: store_trim_def Let_def rev_drop)

lemma cmd_edit_ok: "data_ok x \<Longrightarrow> data_ok (store_trim (cmd_edit c x))"
  using store_trim_bound by (cases c) (auto simp: data_ok_def)

section \<open>The interface of the store\<close>

text \<open>What the clients of the store rely on: a change that reports success has made the edit,
  trimmed; a change that reports an error has made none.\<close>

locale change_log =
  fixes view :: "'s \<Rightarrow> store_data"
    and chg :: "(store_data \<Rightarrow> store_data) \<Rightarrow> 's \<Rightarrow> 'd \<Rightarrow> ('e + unit) \<times> 's \<times> 'd"
  assumes chg_ok: "chg e s d = (Inr u, s', d') \<Longrightarrow> view s' = store_trim (e (view s))"
    and chg_err: "chg e s d = (Inl x, s', d') \<Longrightarrow> s' = s"
begin

lemma chg_view:
  "chg e s d = (r, s', d') \<Longrightarrow> view s' = (case r of Inr _ \<Rightarrow> store_trim (e (view s)) | Inl _ \<Rightarrow> view s)"
  by (cases r) (auto dest: chg_ok chg_err)

lemma bounded:
  "length (sd_history (view s)) \<le> MAX_HISTORY \<Longrightarrow> chg e s d = (r, s', d') \<Longrightarrow>
   length (sd_history (view s')) \<le> MAX_HISTORY"
  using store_trim_bound by (cases r) (auto dest: chg_view)

lemma pushed:
  "chg (\<lambda>x. x\<lparr>sd_history := sd_history x @ [h]\<rparr>) s d = (r, s', d') \<Longrightarrow>
   rev (sd_history (view s')) = (case r of
     Inr _ \<Rightarrow> take MAX_HISTORY (h # rev (sd_history (view s))) | Inl _ \<Rightarrow> rev (sd_history (view s)))"
  by (cases r) (auto dest!: chg_view simp: store_trim_newest)

end

lemma store_change_cases:
  assumes "store_change ser env edit s d = (r, s', d')"
  obtains "us_path s = None" "r = Inr ()" "s' = s\<lparr>us_data := store_trim (edit (us_data s))\<rparr>" "d' = d"
  | p where "us_path s = Some p" "r = Inr ()" "s' = s\<lparr>us_data := store_trim (edit (us_data s))\<rparr>"
      "save_bytes env p (ser (store_trim (edit (us_data s)))) d = (Inr (), d')"
  | p e where "us_path s = Some p" "r = Inl e" "s' = s"
      "save_bytes env p (ser (store_trim (edit (us_data s)))) d = (Inl e, d')"
  using assms by (auto simp: store_change_def save_def Let_def split: option.splits prod.splits sum.splits)

interpretation st: change_log us_data "store_change ser env"
  by unfold_locales (auto elim: store_change_cases)

lemma store_change_path: "store_change ser env edit s d = (r, s', d') \<Longrightarrow> us_path s' = us_path s"
  by (auto elim: store_change_cases)

section \<open>Crash safety\<close>

text \<open>The file holds exactly what is in memory.\<close>

definition synced :: "serialiser \<Rightarrow> update_store \<Rightarrow> path \<Rightarrow> disk \<Rightarrow> bool" where
  "synced ser s p d \<longleftrightarrow> us_path s = Some p \<and> no_link p d \<and> content (dk_fs d) p = Some (ser (us_data s))"

lemma store_change_synced:
  assumes "synced ser s p d" "store_change ser env edit s d = (r, s', d')"
  shows "synced ser s' p d'"
  using assms(2)
proof (cases rule: store_change_cases)
  case (2 q)
  with assms(1) have "content (dk_fs d') p = Some (ser (store_trim (edit (us_data s))))" "no_link p d'" "q = p"
    using sv.wr_ok [of p d env] sv.wr_no_link [of p d env] by (auto simp: synced_def)
  with 2 show ?thesis by (simp add: synced_def)
next
  case (3 q e)
  with assms(1) have "dk_fs d' p = dk_fs d p" "no_link p d'" "q = p"
    using sv.wr_err [of p d env] sv.wr_no_link [of p d env] by (auto simp: synced_def)
  with 3 assms(1) show ?thesis by (simp add: synced_def content_def)
qed (use assms(1) in \<open>simp add: synced_def\<close>)

lemma store_change_trace:
  assumes "synced ser s p d" "store_change ser env edit s d = (r, s', d')"
  shows "\<exists>new. dk_trace d' = dk_trace d @ new \<and> (\<forall>f \<in> set new.
    content f p \<in> {Some (ser (us_data s)), Some (ser (store_trim (edit (us_data s))))})"
proof -
  have "no_link p d" "us_path s = Some p" and c: "content (dk_fs d) p = Some (ser (us_data s))"
    using assms(1) by (simp_all add: synced_def)
  moreover obtain r' where "save_bytes env p (ser (store_trim (edit (us_data s)))) d = (r', d')"
    using assms(2) calculation by (cases rule: store_change_cases) auto
  ultimately obtain new where n: "dk_trace d' = dk_trace d @ new"
     "\<forall>f \<in> set new. f p = dk_fs d p \<or> content f p = Some (ser (store_trim (edit (us_data s))))"
    using sv.wr_trace by blast
  have "\<forall>f \<in> set new. content f p \<in> {Some (ser (us_data s)), Some (ser (store_trim (edit (us_data s))))}"
  proof
    fix f assume "f \<in> set new"
    with n(2) have "f p = dk_fs d p \<or> content f p = Some (ser (store_trim (edit (us_data s))))" by blast
    then show "content f p \<in> {Some (ser (us_data s)), Some (ser (store_trim (edit (us_data s))))}"
      using c by (auto simp: content_def)
  qed
  with n(1) show ?thesis by blast
qed

lemma store_versions_head: "us_data s \<in> set (store_versions ser env cs s d)"
  by (cases cs) simp_all

lemma store_run_versions:
  assumes "synced ser s p d" "store_run ser env cs s d = (s', d')"
  shows "synced ser s' p d' \<and> us_data s' \<in> set (store_versions ser env cs s d) \<and>
    (\<exists>new. dk_trace d' = dk_trace d @ new \<and>
       (\<forall>f \<in> set new. content f p \<in> (Some \<circ> ser) ` set (store_versions ser env cs s d)))"
  using assms
proof (induction cs arbitrary: s d)
  case Nil
  then show ?case by simp
next
  case (Cons c cs)
  obtain r s1 d1 where x: "store_exec ser env c s d = (r, s1, d1)" by (cases "store_exec ser env c s d") auto
  then have c: "store_change ser env (cmd_edit c) s d = (r, s1, d1)" by (simp add: store_exec_change)
  have run: "store_run ser env cs s1 d1 = (s', d')" using Cons.prems(2) x by simp
  let ?V = "store_versions ser env (c # cs) s d"
  have V: "?V = us_data s # store_trim (cmd_edit c (us_data s)) # store_versions ser env cs s1 d1"
    using x by simp
  note IH = Cons.IH [OF store_change_synced [OF Cons.prems(1) c] run]
  obtain new1 where n1: "dk_trace d1 = dk_trace d @ new1"
    "\<forall>f \<in> set new1. content f p \<in> {Some (ser (us_data s)), Some (ser (store_trim (cmd_edit c (us_data s))))}"
    using store_change_trace [OF Cons.prems(1) c] by blast
  obtain new2 where n2: "dk_trace d' = dk_trace d1 @ new2"
    "\<forall>f \<in> set new2. content f p \<in> (Some \<circ> ser) ` set (store_versions ser env cs s1 d1)"
    using IH by blast
  have "dk_trace d' = dk_trace d @ (new1 @ new2)" using n1(1) n2(1) by simp
  moreover have "\<forall>f \<in> set (new1 @ new2). content f p \<in> (Some \<circ> ser) ` set ?V"
    unfolding V using n1(2) n2(2) by auto
  moreover have "us_data s' \<in> set ?V" unfolding V using IH by auto
  ultimately show ?case using IH by blast
qed

lemma store_versions_ok: "data_ok (us_data s) \<Longrightarrow> x \<in> set (store_versions ser env cs s d) \<Longrightarrow> data_ok x"
proof (induction cs arbitrary: s d)
  case (Cons c cs)
  obtain r s1 d1 where e: "store_exec ser env c s d = (r, s1, d1)" by (cases "store_exec ser env c s d") auto
  then have "store_change ser env (cmd_edit c) s d = (r, s1, d1)" by (simp add: store_exec_change)
  then have "data_ok (us_data s1)"
    using Cons.prems(1) cmd_edit_ok by (cases rule: store_change_cases) auto
  with Cons e show ?case by (auto simp: cmd_edit_ok)
qed simp

lemma store_open_content:
  assumes "content f p = Some (ser x)" "de (ser x) = Some x" "data_ok x"
  shows "fst (store_open de (\<lambda>_. None) p (disk_of f)) = Inr (\<lparr>us_path = Some p, us_data = x\<rparr>, Loaded)"
proof -
  have "\<not> is_symlink f p" using assms(1)
    by (auto simp: content_def is_symlink_def split: option.splits node.splits)
  then have "read_node f p = Inr (ser x)" using assms(1) by (simp add: read_node_content)
  then show ?thesis
    using assms(2,3) by (auto simp: store_open_def Let_def read_file_def disk_of_def data_ok_def store_trim_id)
qed

section \<open>Properties\<close>

text \<open>C9. Crash safety of the store. Start from an open store whose file holds its data, run any sequence of
  record and set commands, let any system call fail after any part of its work, and stop at any
  moment: opening the file as it then is loads, without loss or damage, one of the versions the
  store went through; at the end the file holds exactly what is in memory.\<close>

theorem store_crash_recovery:
  assumes codec: "\<And>x. x \<in> set (store_versions ser env cs s d) \<Longrightarrow> de (ser x) = Some x"
    and "data_ok (us_data s)" and start: "synced ser s p d"
    and run: "store_run ser env cs s d = (s', d')"
  shows "\<exists>new. dk_trace d' = dk_trace d @ new \<and>
     (\<forall>f \<in> set new. \<exists>x \<in> set (store_versions ser env cs s d).
        fst (store_open de (\<lambda>_. None) p (disk_of f)) = Inr (\<lparr>us_path = Some p, us_data = x\<rparr>, Loaded)) \<and>
     fst (store_open de (\<lambda>_. None) p (disk_of (dk_fs d'))) = Inr (s', Loaded)"
proof -
  note v = store_run_versions [OF start run]
  obtain new where n: "dk_trace d' = dk_trace d @ new"
      "\<forall>f \<in> set new. content f p \<in> (Some \<circ> ser) ` set (store_versions ser env cs s d)"
    using v by blast
  have ok: "x \<in> set (store_versions ser env cs s d) \<Longrightarrow> data_ok x" for x
    by (rule store_versions_ok [OF assms(2)])
  have "\<exists>x \<in> set (store_versions ser env cs s d).
        fst (store_open de (\<lambda>_. None) p (disk_of f)) = Inr (\<lparr>us_path = Some p, us_data = x\<rparr>, Loaded)"
    if f: "f \<in> set new" for f
  proof -
    obtain x where "x \<in> set (store_versions ser env cs s d)" "content f p = Some (ser x)"
      using n(2) f by auto
    then show ?thesis using store_open_content [of f p ser x de] codec ok by blast
  qed
  moreover have "fst (store_open de (\<lambda>_. None) p (disk_of (dk_fs d'))) = Inr (s', Loaded)"
  proof -
    have s': "us_path s' = Some p" "content (dk_fs d') p = Some (ser (us_data s'))"
      using v by (simp_all add: synced_def)
    have "\<lparr>us_path = Some p, us_data = us_data s'\<rparr> = s'" using s'(1) by simp
    then show ?thesis
      using store_open_content [of "dk_fs d'" p ser "us_data s'" de, OF s'(2)] codec ok v by simp
  qed
  ultimately show ?thesis using n(1) by blast
qed

definition check_codec :: serialiser where
  "check_codec x = (case sd_last_check x of None \<Rightarrow> [] | Some w \<Rightarrow> CHR ''t'' # w)"

definition check_decodec :: deserialiser where
  "check_decodec b = Some (store_data_default\<lparr>sd_last_check := (case b of [] \<Rightarrow> None | _ # w \<Rightarrow> Some w)\<rparr>)"

theorem store_crash_recovery_witness:
  "let s = \<lparr>us_path = Some ''u'', us_data = store_data_default\<rparr>;
       d = disk_of [''u'' \<mapsto> Regular \<lparr>rf_bytes = [], rf_mode = 384, rf_mtime = 0\<rparr>];
       env = (\<lambda>n. if n = 1 then Some (''disk full'', 0) else None);
       (s', d') = store_run check_codec env [RecordCheck ''now''] s d
   in fst (store_open check_decodec (\<lambda>_. None) ''u'' (disk_of (dk_fs d'))) = Inr (s', Loaded)"
proof -
  let ?s = "\<lparr>us_path = Some ''u'', us_data = store_data_default\<rparr>"
  let ?d = "disk_of [''u'' \<mapsto> Regular \<lparr>rf_bytes = [], rf_mode = 384, rf_mtime = 0\<rparr>]"
  let ?env = "\<lambda>n. if n = (1::nat) then Some (''disk full'', 0::nat) else None"
  let ?c = "RecordCheck ''now''"
  obtain r s' d' where x: "store_exec check_codec ?env ?c ?s ?d = (r, s', d')"
    by (cases "store_exec check_codec ?env ?c ?s ?d") auto
  then have "us_data s' \<in> {store_data_default, store_trim (cmd_edit ?c store_data_default)}"
    using st.chg_view [of check_codec ?env "cmd_edit ?c" ?s ?d r s' d'] unfolding store_exec_change
    by (cases r) auto
  then have v: "set (store_versions check_codec ?env [?c] ?s ?d) =
      {store_data_default, store_trim (cmd_edit ?c store_data_default)}"
    using x by auto
  have codec: "check_decodec (check_codec y) = Some y" if "y \<in> set (store_versions check_codec ?env [?c] ?s ?d)" for y
    using that unfolding v
    by (auto simp: check_codec_def check_decodec_def store_data_default_def store_trim_def)
  have ok: "data_ok (us_data ?s)" by (simp add: data_ok_def store_data_default_def)
  have sy: "synced check_codec ?s ''u'' ?d"
    by (simp add: synced_def no_link_def is_symlink_def disk_of_def tmp_path_def content_def
        check_codec_def store_data_default_def)
  have run: "store_run check_codec ?env [?c] ?s ?d = (s', d')" using x by simp
  have "fst (store_open check_decodec (\<lambda>_. None) ''u'' (disk_of (dk_fs d'))) = Inr (s', Loaded)"
    using store_crash_recovery [OF codec ok sy run] by blast
  then show ?thesis unfolding Let_def run prod.case .
qed

text \<open>The history, newest first, after recording an entry is the entry followed by the old history, cut to
  the 500 newest; when saving fails the caller gets the error and the state in memory is the
  old one, also on disk.\<close>

theorem record_update_newest_first:
  assumes "record_update ser env h s d = (r, s', d')"
  shows "store_history s' = (case r of
      Inr _ \<Rightarrow> take 500 (h # store_history s) | Inl _ \<Rightarrow> store_history s) \<and>
    (length (store_history s) \<le> 500 \<longrightarrow> length (store_history s') \<le> 500) \<and>
    (\<forall>e. r = Inl e \<longrightarrow> s' = s \<and> (\<forall>p. us_path s = Some p \<longrightarrow> no_link p d \<longrightarrow> dk_fs d' p = dk_fs d p))"
proof -
  have c: "store_change ser env (\<lambda>x. x\<lparr>sd_history := sd_history x @ [h]\<rparr>) s d = (r, s', d')"
    using assms by (simp add: record_update_def)
  have "dk_fs d' p = dk_fs d p" if "r = Inl e" "us_path s = Some p" "no_link p d" for e p
    using c that sv.wr_err [of p d env] by (cases rule: store_change_cases) auto
  moreover have "s' = s" if "r = Inl e" for e using st.chg_err c that by blast
  ultimately show ?thesis
    using st.pushed [OF c] st.bounded [OF _ c] by (auto simp: store_history_def MAX_HISTORY_def split: sum.splits)
qed

definition some_entry :: update_history_entry where
  "some_entry = \<lparr>he_applied_at = ''t'', he_from_version = version_new 0 0 0, he_to_version = version_new 0 0 0,
     he_channel = Stable, he_component = ''apply a'', he_succeeded = True, he_note = None\<rparr>"

theorem record_update_newest_first_witness:
  "store_history (fst (snd (record_update (\<lambda>_. []) (\<lambda>_. None) some_entry in_memory (disk_of Map.empty)))) = [some_entry]"
proof -
  have "record_update (\<lambda>_. []) (\<lambda>_. None) some_entry in_memory (disk_of Map.empty) =
     (Inr (), in_memory\<lparr>us_data := store_data_default\<lparr>sd_history := [some_entry]\<rparr>\<rparr>, disk_of Map.empty)"
    by (simp add: record_update_def store_change_def in_memory_def store_trim_def store_data_default_def
        MAX_HISTORY_def)
  from record_update_newest_first [OF this] show ?thesis
    unfolding \<open>record_update _ _ _ _ _ = _\<close>
    by (simp add: store_history_def in_memory_def store_data_default_def)
qed

text \<open>Opening handles what it finds: no file starts an empty store and touches nothing; a file of a newer
  schema is refused and left as it is; a file that does not parse is moved, with its bytes, to
  \<^verbatim>\<open><file>.corrupt\<close> and the store starts empty; any other file is loaded with at most the 500
  newest entries of its history.\<close>

theorem store_open_cases:
  assumes "\<not> is_symlink (dk_fs d) p"
  shows "case store_open de (\<lambda>_. None) p d of (r, d') \<Rightarrow>
    (case dk_fs d p of
       None \<Rightarrow> r = Inr (\<lparr>us_path = Some p, us_data = store_data_default\<rparr>, Fresh) \<and> dk_fs d' = dk_fs d
     | Some (Regular f) \<Rightarrow> (case de (rf_bytes f) of
         None \<Rightarrow> if dk_fs d (p @ ''.corrupt'') = Some Directory
           then r = Inl (Io p ''Is a directory (os error 21)'') \<and> dk_fs d' = dk_fs d
           else r = Inr (\<lparr>us_path = Some p, us_data = store_data_default\<rparr>, Recovered (p @ ''.corrupt'')) \<and>
             dk_fs d' p = None \<and> content (dk_fs d') (p @ ''.corrupt'') = Some (rf_bytes f)
       | Some x \<Rightarrow> dk_fs d' = dk_fs d \<and>
           (if 1 < sd_schema x then r = Inl (NewerSchema p (sd_schema x) 1)
            else \<exists>s. r = Inr (s, Loaded) \<and> us_path s = Some p \<and> store_history s = take 500 (rev (sd_history x)) \<and>
              store_last_check s = sd_last_check x \<and> store_reboot s = sd_reboot x))
     | Some _ \<Rightarrow> r = Inl (Io p ''Is a directory (os error 21)'') \<and> dk_fs d' = dk_fs d)"
proof -
  have rd: "store_trim store_data_default = store_data_default"
    by (simp add: store_trim_def store_data_default_def)
  have hist: "store_history \<lparr>us_path = Some p, us_data = store_trim x\<rparr> = take 500 (rev (sd_history x))" for x
    using store_trim_newest [of x] by (simp add: store_history_def MAX_HISTORY_def)
  consider "dk_fs d p = None" | f where "dk_fs d p = Some (Regular f)" | "dk_fs d p = Some Directory"
    using assms by (auto simp: is_symlink_def split: option.splits node.splits)
  then show ?thesis
  proof cases
    case (2 f)
    have r: "read_file (\<lambda>_. None) p d = (Inr (rf_bytes f), d\<lparr>dk_calls := Suc (dk_calls d)\<rparr>)"
      using 2 assms by (simp add: read_file_def read_node_def follow_id)
    show ?thesis
    proof (cases "de (rf_bytes f)")
      case None
      then show ?thesis using 2 r
        by (simp add: store_open_def rename_def call_atomic_def put_fs_def renamed_def content_def rd Let_def EISDIR_def)
    next
      case (Some x)
      then show ?thesis using 2 r hist [of x]
        by (simp add: store_open_def SCHEMA_VERSION_def store_last_check_def store_reboot_def)
    qed
  qed (use assms in \<open>simp_all add: store_open_def read_file_def read_node_def follow_id rd
        read_error_display_def EISDIR_def\<close>)
qed

theorem store_open_cases_witness:
  "fst (store_open (\<lambda>_. None) (\<lambda>_. None) ''u.json'' (disk_of
     [''u.json'' \<mapsto> Regular \<lparr>rf_bytes = ''garbage'', rf_mode = 384, rf_mtime = 0\<rparr>]))
   = Inr (\<lparr>us_path = Some ''u.json'', us_data = store_data_default\<rparr>, Recovered ''u.json.corrupt'')"
  using store_open_cases [of "disk_of [''u.json'' \<mapsto> Regular \<lparr>rf_bytes = ''garbage'', rf_mode = 384, rf_mtime = 0\<rparr>]"
      "''u.json''" "\<lambda>_. None"]
  by (auto simp: disk_of_def is_symlink_def split: prod.splits)

end
