(* ===== verification/HostParse.thy ===== *)
theory HostParse
  imports Update
begin

text \<open>
  The parsing half of \<^verbatim>\<open>crates/abora-update/src/host.rs\<close>: package names, the \<^verbatim>\<open>Inst\<close> lines of
  \<^verbatim>\<open>apt-get -s\<close>, the version shown for a Debian version, and the loop that waits for a child
  process. What the operating system answers is an argument: a child is the sequence of what
  polling it reports.
\<close>

section \<open>The end of a long text\<close>

text \<open>In UTF-8 a byte starts a character unless it is of the form \<^verbatim>\<open>10xxxxxx\<close>.\<close>

definition char_start :: "char \<Rightarrow> bool" where
  "char_start c \<longleftrightarrow> \<not> (128 \<le> byte c \<and> byte c < 192)"

definition tail_text :: "string \<Rightarrow> nat \<Rightarrow> string" where
  "tail_text text mx =
     (if length text \<le> mx then trim text
      else trim (dropWhile (\<lambda>c. \<not> char_start c) (drop (length text - mx) text)))"

section \<open>Running a program\<close>

text \<open>One turn of \<^verbatim>\<open>try_wait\<close>: the milliseconds since the start, and the child's answer: an
  error, still running, or exited (with success or not, and how the status prints).\<close>

datatype poll = PollError string | StillRunning | Exited bool string

text \<open>What a pipe yields up to its end: the bytes that could be read, and whether a read failed after them. The
  end comes only when every process that holds the other side has closed it; \<^term>\<open>HeldOpen\<close> is a pipe
  that one of them keeps.\<close>

datatype pipe = Drained string bool | HeldOpen

record child_process =
  cp_polls :: "(nat \<times> poll) list"
  cp_stdout :: pipe
  cp_stderr :: pipe

text \<open>\<^verbatim>\<open>drain\<close>: \<^verbatim>\<open>read_to_string\<close> keeps nothing unless all bytes are UTF-8, its error is ignored; joining the
  thread waits for the end of the pipe.\<close>

fun drain :: "pipe \<Rightarrow> string option" where
  "drain (Drained bs failed) = Some (if valid_utf8 bs then bs else [])"
| "drain HeldOpen = None"

fun wait_child :: "string \<Rightarrow> nat \<Rightarrow> (nat \<times> poll) list \<Rightarrow> (string + (bool \<times> string)) option" where
  "wait_child program timeout [] = None"
| "wait_child program timeout ((elapsed, p) # polls) = (case p of
     Exited ok status \<Rightarrow> Some (Inr (ok, status))
   | PollError e \<Rightarrow> Some (Inl (''waiting for '' @ program @ '': '' @ e))
   | StillRunning \<Rightarrow>
       if timeout * 1000 < elapsed
       then Some (Inl (program @ '' timed out after '' @ show_nat timeout @ ''s''))
       else wait_child program timeout polls)"

definition system_run :: "nat \<Rightarrow> string \<Rightarrow> string + child_process \<Rightarrow> (string + string) option" where
  "system_run timeout program spawned = (case spawned of
     Inl e \<Rightarrow> Some (Inl (''could not run '' @ program @ '': '' @ e))
   | Inr child \<Rightarrow> (case wait_child program timeout (cp_polls child) of
       None \<Rightarrow> None
     | Some (Inl e) \<Rightarrow> Some (Inl e)
     | Some (Inr (ok, status)) \<Rightarrow>
         (case (drain (cp_stdout child), drain (cp_stderr child)) of
            (Some out, Some err) \<Rightarrow> Some (
              if ok then Inr out
              else if trim err = [] then Inl (program @ '' exited with '' @ status)
              else Inl (program @ '' exited with '' @ status @ '': '' @ tail_text err 600))
          | _ \<Rightarrow> None)))"

definition COMMAND_TIMEOUT :: nat where "COMMAND_TIMEOUT = 120"

section \<open>Package names and the lines of the simulation\<close>

record package_upgrade =
  pu_name :: string
  pu_from :: "string option"
  pu_to :: string
  pu_source :: string

definition package_char :: "char \<Rightarrow> bool" where
  "package_char c \<longleftrightarrow> is_ascii_lowercase c \<or> is_ascii_digit c \<or> c \<in> set ''+-.:''"

definition valid_package_name :: "string \<Rightarrow> bool" where
  "valid_package_name name \<longleftrightarrow>
     name \<noteq> [] \<and> length name \<le> 200 \<and> hd name \<noteq> CHR ''-'' \<and> hd name \<noteq> CHR ''.'' \<and>
     list_all package_char name"

definition parse_inst_line :: "string \<Rightarrow> package_upgrade option" where
  "parse_inst_line line =
     Option.bind (strip_prefix ''Inst '' line) (\<lambda>rest.
     Option.bind (split_once (CHR '' '') rest) (\<lambda>(name, rest).
       if \<not> valid_package_name name then None
       else
         Option.bind (case strip_prefix ''['' rest of
             Some after \<Rightarrow> map_option (\<lambda>(from, tail). (Some from, trim_start tail))
               (split_once (CHR '']'') after)
           | None \<Rightarrow> Some (None, rest)) (\<lambda>(from, rest).
         Option.bind (strip_prefix ''('' rest) (\<lambda>inner.
           let inner = (case split_once (CHR '')'') inner of Some (inside, _) \<Rightarrow> inside | None \<Rightarrow> inner);
               (to, source) = (case split_once (CHR '' '') inner of Some p \<Rightarrow> p | None \<Rightarrow> (inner, []))
           in if to = [] then None
              else Some \<lparr>pu_name = name, pu_from = from, pu_to = to, pu_source = source\<rparr>))))"

definition parse_simulation :: "string \<Rightarrow> package_upgrade list" where
  "parse_simulation output = List.map_filter parse_inst_line (lines output)"

section \<open>Versions\<close>

text \<open>The k-th call of the closure \<^verbatim>\<open>next\<close>: the k-th dotted part as a number, 0 when there is none
  or it does not fit.\<close>

definition nth_number :: "string list \<Rightarrow> nat \<Rightarrow> u64" where
  "nth_number parts k =
     (if k < length parts then case parse_u64 (parts ! k) of Some n \<Rightarrow> n | None \<Rightarrow> 0 else 0)"

definition version_from_debian :: "string \<Rightarrow> version" where
  "version_from_debian version =
     (let no_epoch = (case split_once (CHR '':'') version of Some (_, v) \<Rightarrow> v | None \<Rightarrow> version);
          leading = hd (split_pred (\<lambda>c. \<not> is_ascii_digit c \<and> c \<noteq> CHR ''.'') no_epoch);
          parts = split_char (CHR ''.'') leading
      in version_new (nth_number parts 0) (nth_number parts 1) (nth_number parts 2))"

section \<open>Facts on package names\<close>

lemma package_char_not [simp]:
  "\<not> package_char (CHR '' '')" "\<not> package_char (CHR ''/'')" "\<not> package_char (CHR ''='')"
  "\<not> package_char (CHR '';'')" "\<not> package_char (CHR ''$'')" "\<not> package_char (CHR 0x0A)"
  by (simp_all add: package_char_def str_defs)

lemma package_char_ascii: "package_char c \<Longrightarrow> plain_char c"
  by (auto simp: package_char_def plain_char_def str_defs)

lemma valid_nameD:
  assumes "valid_package_name n"
  shows "n \<noteq> []" "length n \<le> 200" "hd n \<noteq> CHR ''-''" "\<And>c. c \<in> set n \<Longrightarrow> package_char c"
  using assms by (auto simp: valid_package_name_def list_all_iff)

lemma valid_name_no_blank: "valid_package_name n \<Longrightarrow> CHR '' '' \<notin> set n"
  using valid_nameD(4) package_char_not(1) by blast

lemma parse_inst_line_ok:
  "parse_inst_line line = Some u \<Longrightarrow> valid_package_name (pu_name u) \<and> pu_to u \<noteq> []"
  by (auto simp: parse_inst_line_def Let_def split: if_splits Option.bind_splits prod.splits option.splits)

lemma set_map_filter: "y \<in> set (List.map_filter f xs) \<longleftrightarrow> (\<exists>x \<in> set xs. f x = Some y)"
  by (force simp: List.map_filter_def)

lemma parse_simulation_valid:
  "u \<in> set (parse_simulation out) \<Longrightarrow> valid_package_name (pu_name u) \<and> pu_to u \<noteq> []"
  by (auto simp: parse_simulation_def set_map_filter dest: parse_inst_line_ok)

section \<open>What apt prints\<close>

text \<open>The line apt prints for an upgrade, and the upgrades that can be read back from it.\<close>

definition inst_line :: "package_upgrade \<Rightarrow> string" where
  "inst_line u = ''Inst '' @ pu_name u @ '' '' @
     (case pu_from u of Some v \<Rightarrow> ''['' @ v @ ''] '' | None \<Rightarrow> []) @
     ''('' @ pu_to u @ '' '' @ pu_source u @ '')''"

definition printable_upgrade :: "package_upgrade \<Rightarrow> bool" where
  "printable_upgrade u \<longleftrightarrow> valid_package_name (pu_name u) \<and> pu_to u \<noteq> [] \<and>
     CHR '' '' \<notin> set (pu_to u) \<and> CHR '')'' \<notin> set (pu_to u) \<and> CHR '')'' \<notin> set (pu_source u) \<and>
     (case pu_from u of Some v \<Rightarrow> CHR '']'' \<notin> set v | None \<Rightarrow> True)"

lemma trim_start_blank_paren: "trim_start (CHR '' '' # CHR ''('' # s) = CHR ''('' # s"
proof -
  have "ws_len (CHR '' '' # CHR ''('' # s) = 1" by (simp add: ws_len_by_def ws1_def)
  moreover have "ws_len (CHR ''('' # s) = 0" by (simp add: ws_len_plain plain_char_def)
  ultimately show ?thesis
    by (simp add: trim_start_def strip_ws.simps [of _ _ "CHR '' '' # CHR ''('' # s"] strip_ws_id)
qed

text \<open>The part of the line after the package name.\<close>

lemma parse_inst_line_inst_line:
  assumes "printable_upgrade u"
  shows "parse_inst_line (inst_line u @ rest) = Some u"
proof -
  let ?paren = "''('' @ (pu_to u @ CHR '' '' # pu_source u) @ CHR '')'' # rest"
  let ?after = "case pu_from u of Some v \<Rightarrow> ''['' @ v @ CHR '']'' # CHR '' '' # ?paren | None \<Rightarrow> ?paren"
  have line: "inst_line u @ rest = ''Inst '' @ pu_name u @ CHR '' '' # ?after"
    by (simp add: inst_line_def split: option.split)
  have nm: "CHR '' '' \<notin> set (pu_name u)" and v: "valid_package_name (pu_name u)"
    using assms by (auto simp: printable_upgrade_def valid_name_no_blank)
  have i: "strip_prefix ''Inst '' (''Inst '' @ x) = Some x" for x
    by (simp only: strip_prefix_Some)
  have inner: "split_once (CHR '')'') ((pu_to u @ CHR '' '' # pu_source u) @ CHR '')'' # rest)
      = Some (pu_to u @ CHR '' '' # pu_source u, rest)"
    by (rule split_once_append) (use assms in \<open>auto simp: printable_upgrade_def\<close>)
  have ver: "split_once (CHR '' '') (pu_to u @ CHR '' '' # pu_source u) = Some (pu_to u, pu_source u)"
    by (rule split_once_append) (use assms in \<open>auto simp: printable_upgrade_def\<close>)
  have p: "strip_prefix ''('' ?paren = Some ((pu_to u @ CHR '' '' # pu_source u) @ CHR '')'' # rest)"
    by (simp add: strip_prefix_Some)
  have fr: "(case strip_prefix ''['' ?after of
      Some after \<Rightarrow> map_option (\<lambda>(from, tail). (Some from, trim_start tail)) (split_once (CHR '']'') after)
    | None \<Rightarrow> Some (None, ?after)) = Some (pu_from u, ?paren)"
  proof (cases "pu_from u")
    case None
    then show ?thesis by (simp add: strip_prefix_def)
  next
    case (Some w)
    then have "split_once (CHR '']'') (w @ CHR '']'' # CHR '' '' # ?paren) = Some (w, CHR '' '' # ?paren)"
      using assms by (intro split_once_append) (simp add: printable_upgrade_def)
    with Some show ?thesis by (simp add: strip_prefix_def trim_start_blank_paren)
  qed
  have to: "pu_to u \<noteq> []" using assms by (simp add: printable_upgrade_def)
  show ?thesis
    unfolding parse_inst_line_def line i Option.bind.simps(2) split_once_append [OF nm]
      prod.case fr p inner option.case ver Let_def
    using v to by simp
qed

section \<open>Properties\<close>

text \<open>C31. Reading apt's simulation. Every \<^verbatim>\<open>Inst\<close> line apt prints for an upgrade, with or without an
  installed version and whatever follows the closing parenthesis, is read back exactly; and
  whatever the output of the command is, every package that comes out has a valid name, which
  starts with neither a dash nor a dot and holds neither blank, slash, equals sign nor shell
  character, and a version that is not empty.\<close>

theorem simulation_exact:
  "(printable_upgrade u \<longrightarrow> parse_inst_line (inst_line u @ rest) = Some u) \<and>
   (\<forall>v \<in> set (parse_simulation out).
     valid_package_name (pu_name v) \<and> hd (pu_name v) \<notin> set ''-.'' \<and> pu_to v \<noteq> [] \<and>
     (\<forall>c \<in> set (pu_name v). c \<notin> set '' /=;$'' \<and> plain_char c))"
proof (intro conjI impI ballI)
  assume "printable_upgrade u"
  then show "parse_inst_line (inst_line u @ rest) = Some u" by (rule parse_inst_line_inst_line)
next
  fix v assume "v \<in> set (parse_simulation out)"
  then have v: "valid_package_name (pu_name v)" "pu_to v \<noteq> []"
    using parse_simulation_valid by blast+
  then show "valid_package_name (pu_name v)" "hd (pu_name v) \<notin> set ''-.''" "pu_to v \<noteq> []"
    by (simp_all add: valid_package_name_def)
  fix c assume "c \<in> set (pu_name v)"
  then have "package_char c" by (rule valid_nameD(4) [OF v(1)])
  then show "c \<notin> set '' /=;$''" "plain_char c" using package_char_ascii by auto
qed

definition libssl_upgrade :: package_upgrade where
  "libssl_upgrade = \<lparr>pu_name = ''libssl3'', pu_from = Some ''3.0.1'', pu_to = ''3.0.2'',
     pu_source = ''Ubuntu:24.04 [amd64]''\<rparr>"

lemma libssl_printable: "printable_upgrade libssl_upgrade"
  by (simp add: printable_upgrade_def libssl_upgrade_def valid_package_name_def package_char_def str_defs)

theorem simulation_exact_witness:
  "parse_inst_line (inst_line libssl_upgrade @ '' []'') = Some libssl_upgrade \<and>
   valid_package_name ''a''"
proof -
  have "parse_simulation ''Inst a (1 s)'' = [\<lparr>pu_name = ''a'', pu_from = None, pu_to = ''1'', pu_source = ''s''\<rparr>]"
    by (simp add: parse_simulation_def lines_def List.map_filter_def parse_inst_line_def strip_prefix_def
        valid_package_name_def package_char_def str_defs)
  with simulation_exact [of libssl_upgrade "'' []''" "''Inst a (1 s)''"] libssl_printable
  show ?thesis by simp
qed

lemma wait_child_returns:
  "(\<exists>(t, p) \<in> set polls. timeout * 1000 < t \<or> p \<noteq> StillRunning) \<Longrightarrow>
   \<exists>w. wait_child program timeout polls = Some w"
proof (induction polls)
  case (Cons x polls)
  then show ?case by (cases x; cases "snd x") auto
qed simp

lemma wait_child_SomeD:
  "wait_child program timeout polls = Some (Inr (ok, st)) \<Longrightarrow> \<exists>t. (t, Exited ok st) \<in> set polls"
  by (induction polls) (auto split: poll.splits if_splits)

text \<open>C32. Running a program ends: as soon as one poll comes later than the timeout, or reports anything but
  a running child, the wait is over; the call then returns if nobody keeps the pipes open, and it returns
  in any case when the wait ended without an exit. Output is returned only of a child that exited with success, and it is
  what was read from its pipe, or nothing at all if that was not UTF-8.\<close>

theorem system_run_ends:
  assumes "\<And>child. spawned = Inr child \<Longrightarrow> \<exists>(t, p) \<in> set (cp_polls child). timeout * 1000 < t \<or> p \<noteq> StillRunning"
    and "\<And>child t ok st. spawned = Inr child \<Longrightarrow> (t, Exited ok st) \<in> set (cp_polls child) \<Longrightarrow>
      cp_stdout child \<noteq> HeldOpen \<and> cp_stderr child \<noteq> HeldOpen"
  shows "\<exists>r. system_run timeout program spawned = Some r \<and>
    (\<forall>out. r = Inr out \<longrightarrow> (\<exists>child t st bs f. spawned = Inr child \<and> (t, Exited True st) \<in> set (cp_polls child)
        \<and> cp_stdout child = Drained bs f \<and> out = (if valid_utf8 bs then bs else [])))"
proof (cases spawned)
  case (Inl e)
  then show ?thesis by (simp add: system_run_def)
next
  case (Inr child)
  then obtain w where w: "wait_child program timeout (cp_polls child) = Some w"
    using wait_child_returns [OF assms(1) [OF Inr]] by blast
  show ?thesis
  proof (cases w)
    case (Inl e)
    with Inr w show ?thesis by (simp add: system_run_def)
  next
    case e: (Inr x)
    obtain ok st where x: "x = (ok, st)" by fastforce
    with w e obtain t where t: "(t, Exited ok st) \<in> set (cp_polls child)" using wait_child_SomeD by fastforce
    obtain bs f bs' f' where p: "cp_stdout child = Drained bs f" "cp_stderr child = Drained bs' f'"
      using assms(2) [OF Inr t] by (cases "cp_stdout child"; cases "cp_stderr child") auto
    show ?thesis using Inr w e x p t by (cases ok) (auto simp: system_run_def Let_def)
  qed
qed

theorem system_run_ends_witness:
  "\<exists>r. system_run 120 ''apt-get'' (Inr \<lparr>cp_polls = [(0, StillRunning), (120050, StillRunning)],
     cp_stdout = HeldOpen, cp_stderr = HeldOpen\<rparr>) = Some r"
  using system_run_ends [of "Inr \<lparr>cp_polls = [(0, StillRunning), (120050, StillRunning)],
     cp_stdout = HeldOpen, cp_stderr = HeldOpen\<rparr>" 120 "''apt-get''"] by fastforce

text \<open>The timeout guards the child only. A process it leaves behind that keeps an end of the pipe keeps the caller
  waiting for ever, however long the timeout; and one byte that is not UTF-8 makes the whole
  output of a successful run disappear.\<close>

theorem system_run_stuck_or_blank:
  "system_run timeout program (Inr \<lparr>cp_polls = [(0, Exited True st)], cp_stdout = HeldOpen, cp_stderr = err\<rparr>) = None \<and>
   system_run timeout program (Inr \<lparr>cp_polls = [(0, Exited True st)],
     cp_stdout = Drained (bs @ [CHR 0xFF]) False, cp_stderr = Drained [] False\<rparr>) = Some (Inr [])"
proof -
  have "\<not> valid_utf8 (bs @ [CHR 0xFF])" using valid_utf8_bytes [of "bs @ [CHR 0xFF]" "CHR 0xFF"] by auto
  then show ?thesis by (simp add: system_run_def)
qed

end
