(* ===== verification/HostProvider.thy ===== *)
theory HostProvider
  imports Store HostParse
begin

text \<open>
  The provider half of \<^verbatim>\<open>crates/abora-update/src/host.rs\<close>: checking with apt's simulation, the
  status of the last check, the pending reboot and the history. The command runner, the clock
  and the reboot marker are arguments. The interface \<^verbatim>\<open>UpdateProvider\<close> of \<^verbatim>\<open>lib.rs\<close> is a locale,
  interpreted on this provider.
\<close>

section \<open>State\<close>

datatype last_check = Updates "string list" | Failed string

record host_provider =
  hp_store :: update_store
  hp_last :: "last_check option"

type_synonym runner = "string \<Rightarrow> string list \<Rightarrow> string + string"

definition host_new :: "update_store \<Rightarrow> host_provider" where
  "host_new s = \<lparr>hp_store = s, hp_last = None\<rparr>"

definition set_last :: "last_check \<Rightarrow> host_provider \<Rightarrow> host_provider" where
  "set_last v h = h\<lparr>hp_last := Some v\<rparr>"

definition store_err :: "store_error \<Rightarrow> update_error" where
  "store_err e = Source (store_error_display e)"

definition simulate_args :: "string list" where
  "simulate_args = [''-s'', ''-o'', ''Debug::NoLocking=1'', ''upgrade'']"

section \<open>Operations\<close>

definition update_of :: "channel \<Rightarrow> package_upgrade \<Rightarrow> available_update" where
  "update_of ch u = \<lparr>au_channel = ch, au_version = version_from_debian (pu_to u), au_component = pu_name u,
     au_summary = (case pu_from u of
        Some fr \<Rightarrow> pu_name u @ '': '' @ fr @ '' -> '' @ pu_to u @ '' ('' @ pu_source u @ '')''
      | None \<Rightarrow> pu_name u @ '': new, '' @ pu_to u @ '' ('' @ pu_source u @ '')''),
     au_release_notes = None, au_size_bytes = 0, au_released_at = None, au_checksums = None\<rparr>"

definition upgrade_label :: "package_upgrade \<Rightarrow> string" where
  "upgrade_label u = pu_name u @ '' '' @ pu_to u"

definition host_check ::
  "serialiser \<Rightarrow> io_env \<Rightarrow> runner \<Rightarrow> string \<Rightarrow> channel \<Rightarrow> host_provider \<times> disk \<Rightarrow>
   (update_error + available_updates) \<times> host_provider \<times> disk" where
  "host_check ser env run now ch = (\<lambda>(h, d).
     (case run ''apt-get'' simulate_args of
        Inl message \<Rightarrow> (Inl (Source message), set_last (Failed message) h, d)
      | Inr output \<Rightarrow>
          let upgrades = parse_simulation output;
              h = set_last (Updates (map upgrade_label upgrades)) h
          in (case record_check ser env now (hp_store h) d of
                (Inl e, s, d') \<Rightarrow> (Inl (store_err e), h\<lparr>hp_store := s\<rparr>, d')
              | (Inr _, s, d') \<Rightarrow>
                  (Inr \<lparr>aus_channel = ch, aus_updates = map (update_of ch) upgrades\<rparr>,
                   h\<lparr>hp_store := s\<rparr>, d'))))"

definition host_status :: "host_provider \<Rightarrow> update_error + update_status" where
  "host_status h = (case hp_last h of
     None \<Rightarrow> Inl (Conflict ''no update check has run yet'')
   | Some (Failed message) \<Rightarrow> Inr (StatusError message)
   | Some (Updates v) \<Rightarrow> Inr (if v = [] then UpToDate else UpdateAvailable v))"

text \<open>The marker and what reading its \<^verbatim>\<open>.pkgs\<close> companion gives.\<close>

record reboot_marker =
  rm_exists :: bool
  rm_pkgs :: "string option"

definition reboot_reason :: "string option \<Rightarrow> string" where
  "reboot_reason pkgs =
     (case map_option (\<lambda>s. join '', '' (take 5 (lines s))) pkgs of
        Some (c # p) \<Rightarrow> ''updated packages need a reboot: '' @ c # p
      | _ \<Rightarrow> ''the system reports that a reboot is required'')"

definition host_reboot_required ::
  "serialiser \<Rightarrow> io_env \<Rightarrow> reboot_marker \<Rightarrow> string \<Rightarrow> host_provider \<times> disk \<Rightarrow>
   (update_error + reboot_status) \<times> host_provider \<times> disk" where
  "host_reboot_required ser env marker now = (\<lambda>(h, d).
     (let current = store_reboot (hp_store h);
          put = (\<lambda>status. case set_reboot ser env status (hp_store h) d of
             (Inl e, s, d') \<Rightarrow> (Inl (store_err e), h\<lparr>hp_store := s\<rparr>, d')
           | (Inr _, s, d') \<Rightarrow> (Inr status, h\<lparr>hp_store := s\<rparr>, d'))
      in if \<not> rm_exists marker then
           (if rs_required current then put reboot_status_default
            else (Inr reboot_status_default, h, d))
         else if rs_required current then (Inr current, h, d)
         else put \<lparr>rs_required = True, rs_reason = Some (reboot_reason (rm_pkgs marker)),
                   rs_pending_since = Some now\<rparr>))"

definition host_history :: "host_provider \<Rightarrow> update_error + update_history_entry list" where
  "host_history h = Inr (store_history (hp_store h))"

section \<open>The interface\<close>

locale update_provider =
  fixes check :: "channel \<Rightarrow> 'p \<Rightarrow> (update_error + available_updates) \<times> 'p"
    and status :: "'p \<Rightarrow> update_error + update_status"
  assumes check_ok: "check c p = (Inr a, p') \<Longrightarrow>
      \<exists>vs. length vs = length (aus_updates a) \<and> status p' = Inr (if vs = [] then UpToDate else UpdateAvailable vs)"
    and check_any: "check c p = (r, p') \<Longrightarrow> \<exists>s. status p' = Inr s"
    and check_channel: "check c p = (Inr a, p') \<Longrightarrow>
      aus_channel a = c \<and> (\<forall>u \<in> set (aus_updates a). au_channel u = c)"
begin

text \<open>The status agrees with the list the check returned.\<close>

lemma up_to_date_iff:
  assumes "check c p = (Inr a, p')"
  shows "status p' = Inr UpToDate \<longleftrightarrow> aus_updates a = []"
  using check_ok [OF assms] by (auto split: if_splits)

lemma not_failed: "check c p = (Inr a, p') \<Longrightarrow> status p' \<noteq> Inr (StatusError m)"
  using check_ok by (fastforce split: if_splits)

end

lemma host_check_cases:
  assumes "host_check ser env run now ch (h, d) = (r, h', d')"
  obtains m where "run ''apt-get'' simulate_args = Inl m" "r = Inl (Source m)" "h' = set_last (Failed m) h" "d' = d"
  | out e where "run ''apt-get'' simulate_args = Inr out" "r = Inl (store_err e)"
      "hp_last h' = Some (Updates (map upgrade_label (parse_simulation out)))" "hp_store h' = hp_store h"
      "record_check ser env now (hp_store h) d = (Inl e, hp_store h, d')"
  | out where "run ''apt-get'' simulate_args = Inr out"
      "r = Inr \<lparr>aus_channel = ch, aus_updates = map (update_of ch) (parse_simulation out)\<rparr>"
      "hp_last h' = Some (Updates (map upgrade_label (parse_simulation out)))"
      "record_check ser env now (hp_store h) d = (Inr (), hp_store h', d')"
  using assms st.chg_err
  by (fastforce simp: host_check_def set_last_def Let_def record_check_def split: sum.splits prod.splits)

interpretation hp: update_provider "host_check ser env run now" "\<lambda>(h, d). host_status h"
proof
  fix c p a p'
  assume a: "host_check ser env run now c p = (Inr a, p')"
  obtain h d h' d' where p: "p = (h, d)" "p' = (h', d')" by (cases p; cases p') auto
  from a [unfolded p]
  show "\<exists>vs. length vs = length (aus_updates a) \<and>
      (case p' of (h, d) \<Rightarrow> host_status h) = Inr (if vs = [] then UpToDate else UpdateAvailable vs)"
    by (cases rule: host_check_cases)
      (auto simp: p host_status_def intro!: exI [of _ "map upgrade_label (parse_simulation _)"])
  from a [unfolded p] show "aus_channel a = c \<and> (\<forall>u \<in> set (aus_updates a). au_channel u = c)"
    by (cases rule: host_check_cases) (auto simp: update_of_def)
next
  fix c p r p'
  assume a: "host_check ser env run now c p = (r, p')"
  obtain h d h' d' where p: "p = (h, d)" "p' = (h', d')" by (cases p; cases p') auto
  from a [unfolded p] show "\<exists>s. (case p' of (h, d) \<Rightarrow> host_status h) = Inr s"
    by (cases rule: host_check_cases) (auto simp: p host_status_def set_last_def)
qed

lemma update_of_component: "map au_component (map (update_of ch) us) = map pu_name us"
  by (simp add: update_of_def)

text \<open>Everything a successful check lists has a valid package name.\<close>

lemma host_check_valid:
  assumes "host_check ser env run now ch p = (Inr a, p')" "u \<in> set (aus_updates a)"
  shows "valid_package_name (au_component u)"
proof -
  obtain h d h' d' where p: "p = (h, d)" "p' = (h', d')" by (cases p; cases p') auto
  from assms(1) [unfolded p] assms(2) show ?thesis
    by (cases rule: host_check_cases) (auto simp: update_of_def dest: parse_simulation_valid)
qed

section \<open>Properties\<close>

text \<open>A check and the status after it agree: whatever the store does, the status is known after any
  check; a successful check listed exactly the packages of apt's output in their order, each on
  the given channel, and the status is \<^verbatim>\<open>UpToDate\<close> exactly when that list is empty, never an error.\<close>

theorem check_then_status:
  assumes "host_check ser env run now ch (h, d) = (r, h', d')"
  shows "(\<exists>s. host_status h' = Inr s) \<and>
    (case r of
       Inr a \<Rightarrow> (\<exists>out. run ''apt-get'' simulate_args = Inr out \<and>
           map au_component (aus_updates a) = map pu_name (parse_simulation out)) \<and>
         (\<forall>u \<in> set (aus_updates a). au_channel u = ch \<and> valid_package_name (au_component u)) \<and>
         (host_status h' = Inr UpToDate \<longleftrightarrow> aus_updates a = []) \<and> (\<forall>m. host_status h' \<noteq> Inr (StatusError m)) \<and>
         store_last_check (hp_store h') = Some now
     | Inl _ \<Rightarrow> store_last_check (hp_store h') = store_last_check (hp_store h))"
proof (cases r)
  case (Inl e)
  show ?thesis
    using hp.check_any [OF assms] assms Inl
    by (cases rule: host_check_cases [OF assms]) (auto simp: set_last_def)
next
  case (Inr a)
  note a = assms [unfolded Inr]
  have "\<exists>out. run ''apt-get'' simulate_args = Inr out \<and>
      map au_component (aus_updates a) = map pu_name (parse_simulation out)"
    using a by (cases rule: host_check_cases) (auto simp: update_of_def)
  moreover have "store_last_check (hp_store h') = Some now"
    using a by (cases rule: host_check_cases)
      (auto simp: record_check_def store_last_check_def dest: st.chg_ok)
  ultimately show ?thesis
    using hp.check_any [OF a] hp.check_channel [OF a] hp.up_to_date_iff [OF a] hp.not_failed [OF a]
      host_check_valid [OF a] Inr by simp
qed

definition one_upgrade :: runner where
  "one_upgrade _ _ = Inr ''Inst a (1 s)''"

lemma parse_one_upgrade:
  "parse_simulation ''Inst a (1 s)'' = [\<lparr>pu_name = ''a'', pu_from = None, pu_to = ''1'', pu_source = ''s''\<rparr>]"
  by (simp add: parse_simulation_def lines_def List.map_filter_def parse_inst_line_def strip_prefix_def
        valid_package_name_def package_char_def str_defs)

theorem check_then_status_witness:
  "case host_check (\<lambda>_. []) (\<lambda>_. None) one_upgrade ''now'' Stable (host_new in_memory, disk_of Map.empty) of
     (r, h', d') \<Rightarrow> \<exists>s. host_status h' = Inr s"
  using check_then_status by (fastforce split: prod.split)

text \<open>The pending reboot. Without the marker the answer is that none is needed; with it a reboot is required,
  and once recorded the moment and the reason stay the ones first seen, however often it is asked,
  until the marker goes away.\<close>

theorem reboot_required_sticky:
  assumes "host_reboot_required ser env m1 now1 (h, d) = (Inr st1, h1, d1)"
    and "host_reboot_required ser env m2 now2 (h1, d1) = (Inr st2, h2, d2)"
  shows "rs_required st1 = rm_exists m1 \<and> rs_required st2 = rm_exists m2 \<and>
    (rm_exists m1 \<and> rm_exists m2 \<longrightarrow> st2 = st1 \<and> h2 = h1 \<and> d2 = d1)"
proof -
  have put: "store_reboot s' = st" if "set_reboot ser env st s d = (Inr u, s', d')" for st s d u s' d'
    using st.chg_ok that by (fastforce simp: set_reboot_def store_reboot_def)
  have one: "rs_required st = rm_exists m \<and> (rm_exists m \<longrightarrow> store_reboot (hp_store h') = st)"
    if "host_reboot_required ser env m now (h, d) = (Inr st, h', d')" for m now h d st h' d'
    using that by (auto simp: host_reboot_required_def Let_def reboot_status_default_def dest: put
        split: if_splits prod.splits sum.splits)
  have "st2 = st1 \<and> h2 = h1 \<and> d2 = d1" if "rm_exists m1" "rm_exists m2"
    using assms(2) one [OF assms(1)] that by (auto simp: host_reboot_required_def Let_def)
  then show ?thesis using one [OF assms(1)] one [OF assms(2)] by blast
qed

theorem reboot_required_sticky_witness:
  "\<exists>st1 h1 d1 st2 h2 d2.
     host_reboot_required (\<lambda>_. []) (\<lambda>_. None) \<lparr>rm_exists = True, rm_pkgs = None\<rparr> ''t1'' (host_new in_memory, disk_of Map.empty) = (Inr st1, h1, d1) \<and>
     host_reboot_required (\<lambda>_. []) (\<lambda>_. None) \<lparr>rm_exists = True, rm_pkgs = None\<rparr> ''t2'' (h1, d1) = (Inr st2, h2, d2) \<and>
     st2 = st1"
proof -
  let ?m = "\<lparr>rm_exists = True, rm_pkgs = None\<rparr>"
  obtain st1 h1 d1 where 1: "host_reboot_required (\<lambda>_. []) (\<lambda>_. None) ?m ''t1''
      (host_new in_memory, disk_of Map.empty) = (Inr st1, h1, d1)" and "rs_required (store_reboot (hp_store h1))"
    by (simp add: host_reboot_required_def host_new_def in_memory_def store_reboot_def store_data_default_def
        reboot_status_default_def set_reboot_def store_change_def store_trim_def MAX_HISTORY_def)
  then obtain st2 h2 d2 where 2: "host_reboot_required (\<lambda>_. []) (\<lambda>_. None) ?m ''t2'' (h1, d1) = (Inr st2, h2, d2)"
    by (simp add: host_reboot_required_def)
  from 1 2 reboot_required_sticky [OF 1 2] show ?thesis by auto
qed
end
