(* ===== verification/Apply.thy ===== *)
theory Apply
  imports HostParse AtomicWrite
begin

text \<open>
  \<^verbatim>\<open>crates/abora-update/src/apply.rs\<close>: the request and the result that the daemon and the root
  helper exchange through files, their validation, the arguments of the upgrade command, and
  the two file routines. \<^verbatim>\<open>write_atomic\<close> keeps the contract \<^verbatim>\<open>atomic_writer\<close>.
\<close>

section \<open>Constants and messages\<close>

definition MAX_PACKAGES :: nat where "MAX_PACKAGES = 2000"
definition MAX_REQUEST_AGE :: duration where "MAX_REQUEST_AGE = from_secs (10 * 60)"
definition MAX_FILE_BYTES :: nat where "MAX_FILE_BYTES = 1024 * 1024"
definition REQUEST_FILE_NAME :: string where "REQUEST_FILE_NAME = ''apply-request.json''"

record apply_request =
  ar_id :: string
  ar_requested_at :: string
  ar_requested_by :: string
  ar_packages :: "string list"

record apply_result =
  res_id :: string
  res_started_at :: string
  res_finished_at :: string
  res_succeeded :: bool
  res_packages :: "string list"
  res_note :: "string option"
  res_reboot_started :: bool

section \<open>Validation and arguments\<close>

definition request_id_char :: "char \<Rightarrow> bool" where
  "request_id_char c \<longleftrightarrow> is_ascii_alphanumeric c \<or> c = CHR ''-''"

definition valid_request_id :: "string \<Rightarrow> bool" where
  "valid_request_id i \<longleftrightarrow> 8 \<le> length i \<and> length i \<le> 64 \<and> list_all request_id_char i"

definition validate_request :: "apply_request \<Rightarrow> string + unit" where
  "validate_request request =
     (if \<not> valid_request_id (ar_id request) then Inl ''request id is not valid''
      else if ar_packages request = [] then Inl ''request names no packages''
      else if length (ar_packages request) > MAX_PACKAGES
      then Inl (''request names more than '' @ show_nat MAX_PACKAGES @ '' packages'')
      else case find (\<lambda>p. \<not> valid_package_name p) (ar_packages request) of
        Some bad \<Rightarrow> Inl (''request contains an invalid package name ('' @ show_nat (length bad) @ '' bytes)'')
      | None \<Rightarrow> Inr ())"

definition install_args :: "string list \<Rightarrow> string list" where
  "install_args packages =
     [''-y'', ''--no-remove'', ''-o'', ''Dpkg::Options::=--force-confold'',
      ''-o'', ''Dpkg::Options::=--force-confdef'', ''install'', ''--only-upgrade'', ''--''] @ packages"

section \<open>Files\<close>

definition write_atomic :: "io_env \<Rightarrow> path \<Rightarrow> string \<Rightarrow> nat \<Rightarrow> unit io" where
  "write_atomic env path bytes mode =
     io_bind (ensure_parent env path) (\<lambda>_.
       cleanup env (tmp_path path) (tmp_then_rename env path bytes mode))"

text \<open>The checks on the result of \<^verbatim>\<open>symlink_metadata\<close>, which does not follow a link.\<close>

definition check_metadata :: "nat \<Rightarrow> node option \<Rightarrow> path \<Rightarrow> duration option \<Rightarrow> string + unit" where
  "check_metadata now n path max_age = (case n of
     None \<Rightarrow> Inl (path @ '': '' @ ENOENT)
   | Some (Regular r) \<Rightarrow>
       if length (rf_bytes r) > MAX_FILE_BYTES
       then Inl (path @ '' is larger than '' @ show_nat MAX_FILE_BYTES @ '' bytes'')
       else (case max_age of
          None \<Rightarrow> Inr ()
        | Some mx \<Rightarrow>
            let age = (if rf_mtime r \<le> now then now - rf_mtime r else 0)
            in if age > mx
               then Inl (path @ '' is older than '' @ show_nat (as_secs mx div 60) @ '' minutes'')
               else Inr ())
   | Some _ \<Rightarrow> Inl (path @ '' is not a regular file''))"

text \<open>Between the two system calls other processes may run; \<^term>\<open>between\<close> is what they do to the
  disk.\<close>

definition read_regular_file ::
    "io_env \<Rightarrow> (disk \<Rightarrow> disk) \<Rightarrow> path \<Rightarrow> duration option \<Rightarrow> disk \<Rightarrow> (string + string) \<times> disk" where
  "read_regular_file env between path max_age d = (case env (dk_calls d) of
     Some (e, _) \<Rightarrow> (Inl (path @ '': '' @ e), d\<lparr>dk_calls := Suc (dk_calls d)\<rparr>)
   | None \<Rightarrow> (case check_metadata (dk_now d) (dk_fs d path) path max_age of
       Inl e \<Rightarrow> (Inl e, d\<lparr>dk_calls := Suc (dk_calls d)\<rparr>)
     | Inr _ \<Rightarrow> (case read_file env path (between (d\<lparr>dk_calls := Suc (dk_calls d)\<rparr>)) of
         (r, d') \<Rightarrow> (map_err (\<lambda>e. path @ '': '' @ read_error_display e) r, d'))))"

section \<open>Facts\<close>

lemma validate_request_ok:
  "validate_request q = Inr () \<longleftrightarrow>
     valid_request_id (ar_id q) \<and> ar_packages q \<noteq> [] \<and> length (ar_packages q) \<le> MAX_PACKAGES \<and>
     list_all valid_package_name (ar_packages q)"
  by (auto simp: validate_request_def list_all_iff find_None_iff find_Some_iff split: option.split)

lemma check_metadata_ok:
  "check_metadata now n p mx = Inr () \<longleftrightarrow>
     (\<exists>r. n = Some (Regular r) \<and> length (rf_bytes r) \<le> MAX_FILE_BYTES \<and>
        (\<forall>a. mx = Some a \<longrightarrow> now \<le> rf_mtime r + a))"
  by (auto simp: check_metadata_def Let_def split: option.splits node.splits if_splits)

lemma write_atomic_replace: "write_atomic = replace_file"
  by (simp add: write_atomic_def replace_file_def fun_eq_iff)

lemma read_regular_file_Inr:
  assumes "read_regular_file env id p mx d = (Inr bs, d')"
  obtains r where "dk_fs d p = Some (Regular r)" "bs = rf_bytes r" "length bs \<le> MAX_FILE_BYTES"
    "\<forall>a. mx = Some a \<longrightarrow> dk_now d \<le> rf_mtime r + a" "dk_fs d' = dk_fs d" "dk_trace d' = dk_trace d"
proof -
  let ?d = "d\<lparr>dk_calls := Suc (dk_calls d)\<rparr>"
  obtain x where c: "check_metadata (dk_now d) (dk_fs d p) p mx = Inr x"
      and b: "fst (read_file env p ?d) = Inr bs" and d': "d' = snd (read_file env p ?d)"
    using assms by (auto simp: read_regular_file_def map_err_def split: option.splits sum.splits prod.splits)
  have "check_metadata (dk_now d) (dk_fs d p) p mx = Inr ()" using c by simp
  then obtain r where r: "dk_fs d p = Some (Regular r)" "length (rf_bytes r) \<le> MAX_FILE_BYTES"
      "\<forall>a. mx = Some a \<longrightarrow> dk_now d \<le> rf_mtime r + a"
    by (auto simp only: check_metadata_ok)
  have l: "\<not> is_symlink (dk_fs d) p" using r(1) by (simp add: is_symlink_def)
  have "read_node (dk_fs d) p = Inr bs"
    using b by (auto simp: read_file_def split: option.splits)
  then have bs: "bs = rf_bytes r" using r(1) l by (simp add: read_node_content content_def)
  have "length bs \<le> MAX_FILE_BYTES" "dk_fs d' = dk_fs d" "dk_trace d' = dk_trace d"
    using r(2) bs by (simp_all add: d')
  then show ?thesis by (rule that [OF r(1) bs _ r(3)])
qed

lemma read_regular_quiet:
  "fst (read_regular_file (\<lambda>_. None) id p mx d) = Inr bs \<longleftrightarrow>
     (\<exists>r. dk_fs d p = Some (Regular r) \<and> bs = rf_bytes r \<and> length bs \<le> 1048576 \<and>
        (case mx of None \<Rightarrow> True | Some a \<Rightarrow> dk_now d \<le> rf_mtime r + a))"
proof
  assume "fst (read_regular_file (\<lambda>_. None) id p mx d) = Inr bs"
  then obtain d' where "read_regular_file (\<lambda>_. None) id p mx d = (Inr bs, d')"
    by (metis prod.collapse)
  then show "\<exists>r. dk_fs d p = Some (Regular r) \<and> bs = rf_bytes r \<and> length bs \<le> 1048576 \<and>
        (case mx of None \<Rightarrow> True | Some a \<Rightarrow> dk_now d \<le> rf_mtime r + a)"
    by (rule read_regular_file_Inr) (auto simp: MAX_FILE_BYTES_def split: option.split)
next
  assume "\<exists>r. dk_fs d p = Some (Regular r) \<and> bs = rf_bytes r \<and> length bs \<le> 1048576 \<and>
        (case mx of None \<Rightarrow> True | Some a \<Rightarrow> dk_now d \<le> rf_mtime r + a)"
  then obtain r where r: "dk_fs d p = Some (Regular r)" "bs = rf_bytes r" "length bs \<le> 1048576"
    "case mx of None \<Rightarrow> True | Some a \<Rightarrow> dk_now d \<le> rf_mtime r + a" by blast
  then have c: "check_metadata (dk_now d) (dk_fs d p) p mx = Inr ()"
    by (auto simp: check_metadata_ok MAX_FILE_BYTES_def split: option.splits)
  have "\<not> is_symlink (dk_fs d) p" "content (dk_fs d) p = Some bs"
    using r by (simp_all add: is_symlink_def content_def)
  then have "read_node (dk_fs d) p = Inr bs" by (simp add: read_node_content)
  then show "fst (read_regular_file (\<lambda>_. None) id p mx d) = Inr bs"
    by (simp add: read_regular_file_def c read_file_def)
qed

interpretation wa: atomic_writer "\<lambda>env p bs. write_atomic env p bs mode"
proof
  fix p d env bs u d'
  assume "no_link p d" "write_atomic env p bs mode d = (Inr u, d')"
  then show "content (dk_fs d') p = Some bs"
    using replace_file_effect [of p d env bs mode] by (auto simp: write_atomic_replace)
next
  fix p d env bs e d'
  assume "no_link p d" "write_atomic env p bs mode d = (Inl e, d')"
  then show "dk_fs d' p = dk_fs d p"
    using replace_file_effect [of p d env bs mode] by (auto simp: write_atomic_replace)
next
  fix p d env bs r d'
  assume "no_link p d" "write_atomic env p bs mode d = (r, d')"
  then show "passes (write_state p bs (dk_fs d)) d d'" using replace_file_passes by (simp add: write_atomic_replace)
qed

section \<open>Properties\<close>

text \<open>A request is accepted exactly when its id is 8 to 64 characters of \<^verbatim>\<open>[A-Za-z0-9-]\<close>, it names
  between 1 and 2000 packages and each of them is a valid package name.\<close>

theorem validate_request_exact:
  "validate_request q = Inr () \<longleftrightarrow>
     8 \<le> length (ar_id q) \<and> length (ar_id q) \<le> 64 \<and>
     (\<forall>c \<in> set (ar_id q). is_ascii_alphanumeric c \<or> c = CHR ''-'') \<and>
     0 < length (ar_packages q) \<and> length (ar_packages q) \<le> 2000 \<and>
     (\<forall>p \<in> set (ar_packages q). valid_package_name p)"
  by (auto simp: validate_request_ok valid_request_id_def request_id_char_def list_all_iff MAX_PACKAGES_def)

definition curl_request :: apply_request where
  "curl_request = \<lparr>ar_id = ''apply-12'', ar_requested_at = [], ar_requested_by = ''ops'',
     ar_packages = [''curl'']\<rparr>"

theorem validate_request_exact_witness:
  "validate_request curl_request = Inr () \<and> validate_request (curl_request\<lparr>ar_packages := [''-o'']\<rparr>) \<noteq> Inr ()"
  unfolding validate_request_exact
  by (simp add: curl_request_def valid_package_name_def package_char_def str_defs)



text \<open>Reading a request or result file while nobody else changes the disk returns the bytes exactly
  when the path itself is a regular file (a link or a directory is refused) of at most 1 MiB
  whose modification time is not further back than \<^verbatim>\<open>max_age\<close>.\<close>

theorem read_regular_file_exact:
  "fst (read_regular_file (\<lambda>_. None) id p mx d) = Inr bs \<longleftrightarrow>
     (\<exists>r. dk_fs d p = Some (Regular r) \<and> bs = rf_bytes r \<and> length bs \<le> 1048576 \<and>
        (case mx of None \<Rightarrow> True | Some a \<Rightarrow> dk_now d \<le> rf_mtime r + a))"
  by (rule read_regular_quiet)

text \<open>The check and the read are two system calls on the path: a process that swaps the file for a link
  between them makes the routine return the file the link points to. (The directory of the
  request belongs to the daemon's user, the routine runs as root.)\<close>

theorem read_regular_file_race:
  "\<exists>d between. dk_fs d ''/r'' = Some (Regular \<lparr>rf_bytes = ''{}'', rf_mode = 384, rf_mtime = 0\<rparr>) \<and>
     dk_fs d ''/secret'' = Some (Regular \<lparr>rf_bytes = ''key'', rf_mode = 384, rf_mtime = 0\<rparr>) \<and>
     is_symlink (dk_fs (between d)) ''/r'' \<and>
     fst (read_regular_file (\<lambda>_. None) between ''/r'' None d) = Inr ''key''"
proof -
  let ?r = "Regular \<lparr>rf_bytes = ''{}'', rf_mode = 384, rf_mtime = 0\<rparr>"
  let ?s = "Regular \<lparr>rf_bytes = ''key'', rf_mode = 384, rf_mtime = 0\<rparr>"
  let ?d = "disk_of [''/r'' \<mapsto> ?r, ''/secret'' \<mapsto> ?s]"
  let ?b = "\<lambda>d. d\<lparr>dk_fs := (dk_fs d)(''/r'' \<mapsto> Symlink ''/secret'')\<rparr>"
  have f: "follow ((dk_fs ?d)(''/r'' \<mapsto> Symlink ''/secret'')) ''/r'' = Some ''/secret''"
    by (simp add: follow_def disk_of_def eval_nat_numeral)
  have "fst (read_regular_file (\<lambda>_. None) ?b ''/r'' None ?d) = Inr ''key''"
    using f by (simp add: read_regular_file_def check_metadata_def MAX_FILE_BYTES_def read_file_def
        read_node_def disk_of_def)
  moreover have "dk_fs ?d ''/r'' = Some ?r" "dk_fs ?d ''/secret'' = Some ?s"
    "is_symlink (dk_fs (?b ?d)) ''/r''"
    by (simp_all add: disk_of_def is_symlink_def)
  ultimately show ?thesis by (intro exI [of _ ?d] exI [of _ ?b] conjI)
qed

fun write_all_versions :: "io_env \<Rightarrow> path \<Rightarrow> nat \<Rightarrow> string list \<Rightarrow> disk \<Rightarrow> disk" where
  "write_all_versions env p mode [] d = d"
| "write_all_versions env p mode (bs # rest) d =
     write_all_versions env p mode rest (snd (write_atomic env p bs mode d))"

lemma write_all_versions_many: "write_all_versions env p mode bss d = wa.wr_many mode env p bss d"
  by (induction bss arbitrary: d) simp_all

text \<open>C27. \<^verbatim>\<open>write_atomic\<close> over any sequence of writes to one file, where any system call may fail after any
  part of its work: at the end, and in every state a crash could have left behind, the file
  holds its original content or the complete content of one of the writes.\<close>

theorem write_atomic_old_or_new:
  assumes "\<not> is_symlink (dk_fs d) (tmp_path p)"
  shows "\<exists>new. dk_trace (write_all_versions env p mode bss d) = dk_trace d @ new \<and>
     (\<forall>f \<in> set (dk_fs (write_all_versions env p mode bss d) # new).
        content f p \<in> insert (content (dk_fs d) p) (Some ` set bss))"
  unfolding write_all_versions_many
  by (rule wa.wr_many_versions) (simp add: no_link_def assms)

theorem write_atomic_old_or_new_witness:
  "content (dk_fs (write_all_versions (\<lambda>n. if n = 2 then Some (''disk full'', 1) else None)
     ''s.json'' 384 [''new'', ''newer''] (disk_of [''s.json'' \<mapsto> Regular \<lparr>rf_bytes = ''old'', rf_mode = 384, rf_mtime = 0\<rparr>])))
     ''s.json'' \<in> {Some ''old'', Some ''new'', Some ''newer''}"
proof -
  let ?d = "disk_of [''s.json'' \<mapsto> Regular \<lparr>rf_bytes = ''old'', rf_mode = 384, rf_mtime = 0\<rparr>]"
  have l: "\<not> is_symlink (dk_fs ?d) (tmp_path ''s.json'')"
    by (simp add: is_symlink_def disk_of_def tmp_path_def)
  have "content (dk_fs ?d) ''s.json'' = Some ''old''" by (simp add: content_def disk_of_def)
  then show ?thesis
    using write_atomic_old_or_new [OF l, of "\<lambda>n. if n = 2 then Some (''disk full'', 1) else None" 384
        "[''new'', ''newer'']"] by auto
qed

end
