(* ===== verification/Calendar.thy ===== *)
theory Calendar
  imports Prelude "HOL-Library.Signed_Division"
begin

text \<open>
  The clock part of \<^verbatim>\<open>crates/abora-log\<close>: the system time as a duration since the epoch, the conversion of days to a
  date, and the RFC 3339 time stamp. A calendar that goes from one day to the next by the rules for
  month lengths and leap years is the reference the conversion is compared with.
\<close>

section \<open>Time stamps\<close>

text \<open>A \<^verbatim>\<open>SystemTime\<close> is the signed number of nanoseconds from the epoch, a \<^verbatim>\<open>Duration\<close> its seconds and the rest in
  nanoseconds. A clock before the epoch counts as the epoch.\<close>

definition now_since_epoch :: "int \<Rightarrow> u64 \<times> nat" where
  "now_since_epoch clock =
     (if clock < 0 then (0, 0) else (of_int (clock div 1000000000), nat (clock mod 1000000000)))"

definition civil_from_days :: "int \<Rightarrow> int \<times> int \<times> int" where
  "civil_from_days days =
     (let z = days + 719468;
          era = (if z \<ge> 0 then z else z - 146096) sdiv 146097;
          doe = z - era * 146097;
          yoe = (doe - doe div 1460 + doe div 36524 - doe div 146096) div 365;
          y = yoe + era * 400;
          doy = doe - (365 * yoe + yoe div 4 - yoe div 100);
          mp = (5 * doy + 2) div 153;
          d = doy - (153 * mp + 2) div 5 + 1;
          m = (if mp < 10 then mp + 3 else mp - 9)
      in (if m \<le> 2 then y + 1 else y, m, d))"

definition pad_int :: "nat \<Rightarrow> int \<Rightarrow> string" where
  "pad_int w n = (if n < 0 then CHR ''-'' # pad0 (w - 1) (nat (- n)) else pad0 w (nat n))"

definition utc_rfc3339_millis :: "u64 \<Rightarrow> nat \<Rightarrow> string" where
  "utc_rfc3339_millis epoch_secs millis =
     (let secs = sint epoch_secs;
          days = secs div 86400;
          day_secs = secs mod 86400;
          (year, month, day) = civil_from_days days;
          h = day_secs div 3600; mi = (day_secs mod 3600) div 60; s = day_secs mod 60
      in pad_int 4 year @ ''-'' @ pad_int 2 month @ ''-'' @ pad_int 2 day @ ''T'' @
         pad_int 2 h @ '':'' @ pad_int 2 mi @ '':'' @ pad_int 2 s @ ''.'' @ pad0 3 millis @ ''Z'')"

definition rfc3339_now :: "int \<Rightarrow> string" where
  "rfc3339_now clock = (case now_since_epoch clock of (secs, nanos) \<Rightarrow> utc_rfc3339_millis secs (nanos div 1000000))"

section \<open>The calendar\<close>

definition leap :: "int \<Rightarrow> bool" where
  "leap y \<longleftrightarrow> y mod 4 = 0 \<and> (y mod 100 \<noteq> 0 \<or> y mod 400 = 0)"

definition month_length :: "int \<Rightarrow> int \<Rightarrow> int" where
  "month_length y m = (if m = 2 then if leap y then 29 else 28 else if m \<in> {4, 6, 9, 11} then 30 else 31)"

definition next_date :: "int \<times> int \<times> int \<Rightarrow> int \<times> int \<times> int" where
  "next_date = (\<lambda>(y, m, d). if d < month_length y m then (y, m, d + 1)
     else if m < 12 then (y, m + 1, 1) else (y + 1, 1, 1))"

definition valid_date :: "int \<times> int \<times> int \<Rightarrow> bool" where
  "valid_date = (\<lambda>(y, m, d). 1 \<le> m \<and> m \<le> 12 \<and> 1 \<le> d \<and> d \<le> month_length y m)"

text \<open>The date \<^term>\<open>n\<close> days after the epoch.\<close>

definition calendar :: "nat \<Rightarrow> int \<times> int \<times> int" where
  "calendar n = (next_date ^^ n) (1970, 1, 1)"

section \<open>Division\<close>

lemma let_step: "t = v \<Longrightarrow> f v = r \<Longrightarrow> Let t f = r"
  by simp

lemma min_at_3: "min (n :: int) 3 = n \<and> n \<le> 3 \<or> min n 3 = 3 \<and> 3 < n"
  by auto

lemma era_div: "(if z \<ge> 0 then z else z - 146096) sdiv 146097 = (z :: int) div 146097"
proof (cases "z \<ge> 0")
  case False
  define q r where "q = z div 146097" and "r = z mod 146097"
  have z: "z = 146097 * q + r" "0 \<le> r" "r < 146097" by (simp_all add: q_def r_def)
  have "(146096 - z) div 146097 = - q"
    using z by (intro int_div_pos_eq [of _ _ _ "146096 - r"]) simp_all
  then show ?thesis using False by (simp add: signed_divide_int_def q_def sgn_if)
qed (simp add: signed_divide_int_def sgn_if)

lemma div_between:
  fixes n k :: int
  assumes "0 < k"
  shows "k * (n div k) \<le> n" "n < k * (n div k) + k"
  using assms mult_div_mod_eq [of k n] pos_mod_sign [of k n] pos_mod_bound [of k n] by linarith+

lemma le_div_iff_mult:
  fixes n k q :: int
  assumes "0 < k"
  shows "q \<le> n div k \<longleftrightarrow> q * k \<le> n"
proof
  assume "q \<le> n div k"
  then have "q * k \<le> n div k * k" using assms by simp
  also have "\<dots> \<le> n" using assms by (metis div_mult_mod_eq le_add_same_cancel1 pos_mod_sign)
  finally show "q * k \<le> n" .
next
  assume "q * k \<le> n"
  then have "q * k div k \<le> n div k" using assms by (rule zdiv_mono1)
  with assms show "q \<le> n div k" by simp
qed

section \<open>The year\<close>

text \<open>The conversion counts years from March, so the leap day is the last one of a year.\<close>

definition march_len :: "int \<Rightarrow> int" where
  "march_len y = (if leap (y + 1) then 366 else 365)"

lemma year_of_doe:
  fixes y :: int
  assumes y: "0 \<le> y" "y < 400" and r: "0 \<le> r" "r < march_len y"
    and d: "doe = 365 * y + y div 4 - y div 100 + r"
  shows "(doe - doe div 1460 + doe div 36524 - doe div 146096) div 365 = y"
    and "0 \<le> doe" "doe < 146097"
proof -
  define a b c where "a = y div 100" and "b = y div 4 - 25 * a" and "c = y mod 4"
  have b: "0 \<le> a" "a < 4" "0 \<le> b" "b < 25" "0 \<le> c" "c < 4" "y = 100 * a + 4 * b + c" "y div 4 = 25 * a + b"
  proof -
    define q p where "q = y div 4" and "p = y mod 100"
    have q: "y = 4 * q + c" "0 \<le> c" "c < 4" by (simp_all add: q_def c_def)
    have p: "y = 100 * a + p" "0 \<le> p" "p < 100" by (simp_all add: p_def a_def)
    have "b = q - 25 * a" by (simp add: b_def q_def)
    with q p y show "0 \<le> a" "a < 4" "0 \<le> b" "b < 25" "0 \<le> c" "c < 4" "y = 100 * a + 4 * b + c" "y div 4 = 25 * a + b"
      by (simp_all add: q_def [symmetric])
  qed
  have e: "doe = 36524 * a + 1461 * b + 365 * c + r" using d b by (simp add: a_def [symmetric])
  have l: "r = 365 \<Longrightarrow> c = 3 \<and> (b < 24 \<or> a = 3)"
  proof -
    assume "r = 365"
    then have lp: "(y + 1) mod 4 = 0" "(y + 1) mod 100 \<noteq> 0 \<or> (y + 1) mod 400 = 0"
      using r by (auto simp: march_len_def leap_def split: if_splits)
    have c: "c = 3" using lp(1) b(5,6) unfolding b(7) by presburger
    have "a = 3" if "b = 24"
    proof -
      have y1: "y + 1 = 100 * (a + 1)" using b(7) c that by simp
      then have "(y + 1) mod 400 = 0" using lp(2) by simp
      moreover have "(y + 1) mod 400 = 100 * (a + 1)" if "a \<noteq> 3"
        unfolding y1 using that b(1,2) by (intro mod_pos_pos_trivial) simp_all
      ultimately show "a = 3" using b(1) by fastforce
    qed
    with c b(4) show ?thesis by linarith
  qed
  have r365: "r \<le> 365" using r by (simp add: march_len_def split: if_splits)
  show "0 \<le> doe" "doe < 146097" using e b(1-6) r(1) r365 by linarith+
  define t where "t = (24 * a + b + 365 * c + r) div 1460"
  have 1: "doe div 1460 = 25 * a + b + t" 
  proof -
    have "doe = 24 * a + b + 365 * c + r + (25 * a + b) * 1460" using e by simp
    then show ?thesis unfolding t_def by simp
  qed
  have last: "a = 3 \<and> b = 24 \<and> c = 3 \<and> r = 365 \<or> doe < 36524 * (a + 1)"
  proof (cases "r = 365")
    case True
    have "doe < 36524 * (a + 1)" if "b \<le> 23" using that e b(6) r365 by simp
    with True l b(4) show ?thesis by fastforce
  next
    case False
    then have "r < 365" using r365 by simp
    then have "doe < 36524 * (a + 1)" using e b(4,6) by simp
    then show ?thesis by simp
  qed
  have 2: "doe div 36524 - doe div 146096 = a"
  proof -
    consider "doe = 146096" "a = 3" | "36524 * a \<le> doe" "doe < 36524 * a + 36524"
      using last e b(1-6) r(1) by fastforce
    then show ?thesis
    proof cases
      case 2
      have "doe div 36524 = a" using 2 by (intro int_div_pos_eq [of _ _ _ "doe - 36524 * a"]) simp_all
      moreover have "doe div 146096 = 0" using 2 b(1,2) by (intro div_pos_pos_trivial) simp_all
      ultimately show ?thesis by simp
    qed simp
  qed
  have t: "r - t \<ge> 0" "r - t < 365"
  proof -
    let ?n = "24 * a + b + 365 * c + r"
    have n: "0 \<le> ?n" "?n < 2920" using b(1-6) r(1) r365 by linarith+
    define n' where "n' = ?n"
    have "0 \<le> n' div 1460" "n' div 1460 \<le> 1" "n' \<ge> 1460 \<Longrightarrow> n' div 1460 = 1"
      using n div_between [of 1460 n'] unfolding n'_def [symmetric] by linarith+
    then have t01: "0 \<le> t" "t \<le> 1" "1460 \<le> ?n \<Longrightarrow> t = 1" unfolding t_def n'_def by blast+
    have "t = 0" if "r = 0"
    proof -
      have "?n < 1460" using b(1-6) that by linarith
      with n(1) show ?thesis unfolding t_def by (rule div_pos_pos_trivial)
    qed
    moreover have "t = 1" if "r = 365"
    proof -
      have "1460 \<le> ?n" using b(1-6) l [OF that] that by linarith
      then show ?thesis by (rule t01(3))
    qed
    ultimately show "r - t \<ge> 0" "r - t < 365" using t01 r(1) r365 by linarith+
  qed
  have "doe - doe div 1460 + doe div 36524 - doe div 146096 = 365 * y + (r - t)"
    using 1 2 e b(7) by simp
  with t show "(doe - doe div 1460 + doe div 36524 - doe div 146096) div 365 = y" by simp
qed

section \<open>The month\<close>

definition month_day :: "int \<Rightarrow> int \<times> int" where
  "month_day r = (let mp = (5 * r + 2) div 153
     in (if mp < 10 then mp + 3 else mp - 9, r - (153 * mp + 2) div 5 + 1))"

definition month_step :: "int \<Rightarrow> bool" where
  "month_step r = (case month_day r of (m, d) \<Rightarrow>
     1 \<le> m \<and> m \<le> 12 \<and> 1 \<le> d \<and> d \<le> 31 \<and> (m = 2 \<longrightarrow> d = r - 336) \<and>
     month_day (r + 1) = (if m = 2 \<or> d < month_length 0 m then (m, d + 1) else if m < 12 then (m + 1, 1) else (1, 1)))"

definition month_start :: "int \<Rightarrow> int" where
  "month_start mp = (153 * mp + 2) div 5"

lemma month_index_iff: "(5 * r + 2) div 153 = mp \<longleftrightarrow> month_start mp \<le> r \<and> r < month_start (mp + 1)"
proof -
  have s: "month_start p \<le> r \<longleftrightarrow> p \<le> (5 * r + 2) div 153" for p
    using le_div_iff_mult [of 153 p "5 * r + 2"] le_div_iff_mult [of 5 "r + 1" "153 * p + 2"]
    unfolding month_start_def by linarith
  show ?thesis using s [of mp] s [of "mp + 1"] by linarith
qed

lemma month_steps:
  assumes "0 \<le> r" "r < 365"
  shows "month_step r"
proof -
  define p where "p = (5 * r + 2) div 153"
  have p: "month_start p \<le> r" "r < month_start (p + 1)" using month_index_iff [of r p] by (simp_all add: p_def)
  have n: "(5 * (r + 1) + 2) div 153 = (if r + 1 < month_start (p + 1) then p else p + 1)"
  proof (cases "r + 1 < month_start (p + 1)")
    case False
    then have "r + 1 = month_start (p + 1)" using p(2) by linarith
    moreover have "month_start (p + 1) < month_start (p + 1 + 1)" unfolding month_start_def by presburger
    ultimately show ?thesis using month_index_iff [of "r + 1" "p + 1"] by (simp only: order.refl if_False less_irrefl)
  qed (use p month_index_iff [of "r + 1" p] in simp)
  have "0 \<le> p" "p \<le> 11" 
    using assms le_div_iff_mult [of 153 0 "5 * r + 2"] le_div_iff_mult [of 153 12 "5 * r + 2"] unfolding p_def by linarith+
  then have "p + 1 \<in> set [1, 2, 3, 4, 5, 6, 7, 8, 9, 10, 11, 12]" by simp arith
  moreover define p' where "p' = (if r + 1 < month_start (p + 1) then p else p + 1)"
  have "month_day r = (if p < 10 then p + 3 else p - 9, r - month_start p + 1)"
    "month_day (r + 1) = (if p' < 10 then p' + 3 else p' - 9, r + 1 - month_start p' + 1)"
    using n by (simp_all only: month_day_def month_start_def p_def p'_def Let_def)
  then have "month_step r" if "p = k - 1" "k \<in> set [1, 2, 3, 4, 5, 6, 7, 8, 9, 10, 11, 12]" for k
    using that p assms unfolding set_simps insert_iff empty_iff
    by (elim disjE) (simp_all add: p'_def month_step_def month_start_def month_length_def)
  ultimately show ?thesis by (metis add_diff_cancel_right')
qed

section \<open>Days as eras, years and days of the year\<close>

lemma civil_parts:
  assumes "0 \<le> y" "y < 400" "0 \<le> r" "r < march_len y"
    and z: "days + 719468 = 146097 * e + (365 * y + y div 4 - y div 100 + r)"
  shows "civil_from_days days = (case month_day r of (m, d) \<Rightarrow> (400 * e + (if m \<le> 2 then y + 1 else y), m, d))"
proof -
  define doe where "doe = 365 * y + y div 4 - y div 100 + r"
  note d = year_of_doe [OF assms(1-4) doe_def]
  have e: "(days + 719468) div 146097 = e" using z d(2,3) unfolding doe_def [symmetric] by simp
  have doe: "days + 719468 - e * 146097 = doe" using z by (simp add: doe_def)
  have r: "doe - (365 * y + y div 4 - y div 100) = r" by (simp add: doe_def)
  show ?thesis
    unfolding civil_from_days_def era_div
    by (rule let_step [OF refl], rule let_step [OF e], rule let_step [OF doe], rule let_step [OF d(1)],
        rule let_step [OF refl], rule let_step [OF r]) (simp add: month_day_def Let_def)
qed

text \<open>Every day lies in one year that starts in March, of one era of 400 years.\<close>

lemma civil_parts_exist:
  obtains e y r :: int where "0 \<le> y" "y < 400" "0 \<le> r" "r < march_len y"
    "z = 146097 * e + (365 * y + y div 4 - y div 100 + r)"
proof -
  define doe where "doe = z mod 146097"
  have doe: "0 \<le> doe" "doe < 146097" by (simp_all add: doe_def)
  define a where "a = min (doe div 36524) 3"
  define u where "u = doe - 36524 * a"
  have u: "0 \<le> a" "a \<le> 3" "0 \<le> u" "u < 36524 \<or> a = 3 \<and> u = 36524"
    using doe div_between [of 36524 doe] min_at_3 [of "doe div 36524"] unfolding u_def a_def [symmetric] by linarith+
  define b where "b = u div 1461"
  define v where "v = u - 1461 * b"
  have v: "0 \<le> b" "b \<le> 24" "0 \<le> v" "v < 1461" "b = 24 \<and> v = 1460 \<longrightarrow> a = 3"
    using u div_between [of 1461 u] unfolding v_def b_def [symmetric] by linarith+
  define c where "c = min (v div 365) 3"
  define r where "r = v - 365 * c"
  have r: "0 \<le> c" "c \<le> 3" "0 \<le> r" "r < 365 \<or> c = 3 \<and> r = 365 \<and> v = 1460"
    using v(3,4) div_between [of 365 v] min_at_3 [of "v div 365"] unfolding r_def c_def [symmetric] by linarith+
  define y where "y = 100 * a + 4 * b + c"
  have y: "0 \<le> y" "y < 400" "y div 4 = 25 * a + b" "y div 100 = a"
  proof -
    show "0 \<le> y" "y < 400" using u(1,2) v(1,2) r(1,2) by (simp_all add: y_def)
    show "y div 4 = 25 * a + b" using r(1,2) by (intro int_div_pos_eq [of _ _ _ c]) (simp_all add: y_def)
    show "y div 100 = a" using v(1,2) r(1,2) by (intro int_div_pos_eq [of _ _ _ "4 * b + c"]) (simp_all add: y_def)
  qed
  have "leap (y + 1)" if "r = 365"
  proof -
    have c: "c = 3" "v = 1460" using r(4) that by auto
    show ?thesis
    proof (cases "b = 24")
      case True
      then have "y + 1 = 400" using v(5) c by (simp add: y_def)
      then show ?thesis by (simp add: leap_def)
    next
      case False
      have y1: "y + 1 = 4 * (25 * a + b + 1)" "y + 1 = 4 * (b + 1) + a * 100" using c by (simp_all add: y_def)
      have "(4 * (b + 1)) mod 100 = 4 * (b + 1)"
        using v(1,2) False by (intro mod_pos_pos_trivial) simp_all
      then have "(y + 1) mod 100 = 4 * (b + 1)" unfolding y1(2) by (simp only: mod_mult_self1)
      moreover have "(y + 1) mod 4 = 0" unfolding y1(1) by (rule mod_mult_self1_is_0)
      moreover note v(1)
      ultimately have "(y + 1) mod 4 = 0" "(y + 1) mod 100 \<noteq> 0" by simp_all
      then show ?thesis using v(1) by (simp add: leap_def)
    qed
  qed
  then have "r < march_len y" using r(4) by (auto simp: march_len_def)
  moreover have "z = 146097 * (z div 146097) + (365 * y + y div 4 - y div 100 + r)"
  proof -
    have "doe = 365 * y + y div 4 - y div 100 + r" unfolding y(3,4) by (simp add: y_def r_def v_def u_def)
    then show ?thesis by (metis doe_def mult_div_mod_eq)
  qed
  ultimately show ?thesis using that y(1,2) r(3) by blast
qed

section \<open>The conversion follows the calendar\<close>

lemma int_div_Suc:
  fixes n k :: int
  assumes "0 < k"
  shows "(n + 1) div k = n div k + (if (n + 1) mod k = 0 then 1 else 0)"
proof -
  define q m where "q = (n + 1) div k" and "m = (n + 1) mod k"
  have q: "n + 1 = k * q + m" "0 \<le> m" "m < k" using assms by (simp_all add: q_def m_def)
  show ?thesis
  proof (cases "m = 0")
    case True
    then have "n div k = q - 1" using q assms by (intro int_div_pos_eq [of _ _ _ "k - 1"]) (simp_all add: algebra_simps)
    then show ?thesis using True by (simp add: q_def m_def)
  next
    case False
    then have "n div k = q" using q by (intro int_div_pos_eq [of _ _ _ "m - 1"]) simp_all
    then show ?thesis using False by (simp add: q_def m_def)
  qed
qed

lemma leap_era: "leap (400 * e + y) = leap y"
proof -
  have "(400 * e + y) mod k = y mod k" if "400 = k * j" for k j
  proof -
    have "400 * e + y = y + k * (j * e)" by (simp add: that)
    then show ?thesis by (simp only: mod_mult_self2)
  qed
  from this [of 4 100] this [of 100 4] this [of 400 1] show ?thesis by (simp add: leap_def)
qed

lemma march_len_sum:
  assumes "0 \<le> y" "y < 399"
  shows "365 * (y + 1) + (y + 1) div 4 - (y + 1) div 100 = 365 * y + y div 4 - y div 100 + march_len y"
proof -
  have "(y + 1) mod 400 = y + 1" using assms by (intro mod_pos_pos_trivial) simp_all
  then have l: "leap (y + 1) \<longleftrightarrow> (y + 1) mod 4 = 0 \<and> (y + 1) mod 100 \<noteq> 0" using assms by (simp add: leap_def)
  have "4 dvd y + 1" if "100 dvd y + 1" using dvd_trans [OF _ that, of 4] by simp
  then have "(y + 1) mod 100 = 0 \<Longrightarrow> (y + 1) mod 4 = 0" by (simp add: dvd_eq_mod_eq_0)
  moreover define p q where "p \<longleftrightarrow> (y + 1) mod 4 = 0" and "q \<longleftrightarrow> (y + 1) mod 100 = 0"
  ultimately have pq: "q \<longrightarrow> p" "march_len y = (if p \<and> \<not> q then 366 else 365)"
    unfolding march_len_def l by simp_all
  have "(y + 1) div 4 = y div 4 + (if p then 1 else 0)" "(y + 1) div 100 = y div 100 + (if q then 1 else 0)"
    unfolding p_def q_def by (rule int_div_Suc; simp)+
  then show ?thesis using pq by (simp split: if_splits)
qed

lemma civil_next: "civil_from_days (n + 1) = next_date (civil_from_days n)"
proof -
  obtain e y r where p: "0 \<le> y" "y < 400" "0 \<le> r" "r < march_len y"
      "n + 719468 = 146097 * e + (365 * y + y div 4 - y div 100 + r)"
    by (rule civil_parts_exist)
  obtain m d where md: "month_day r = (m, d)" by fastforce
  have c: "civil_from_days n = (400 * e + (if m \<le> 2 then y + 1 else y), m, d)"
    using civil_parts [OF p] md by simp
  note leap = leap_era [of e "y + 1"]
  show ?thesis
  proof (cases "r + 1 < march_len y")
    case True
    then have r: "r < 365" by (simp add: march_len_def split: if_splits)
    have n: "n + 1 + 719468 = 146097 * e + (365 * y + y div 4 - y div 100 + (r + 1))" using p(5) by simp
    have "month_step r" using month_steps p(3) r by blast
    moreover have "d < month_length (400 * e + (y + 1)) 2" if "m = 2" "d = r - 336"
      using that True leap by (simp add: month_length_def march_len_def split: if_splits)
    ultimately show ?thesis
      using civil_parts [OF p(1,2) _ True n] p(3) md unfolding c
      by (auto simp: month_step_def next_date_def month_length_def split: if_splits)
  next
    case False
    then have r: "r + 1 = march_len y" using p(4) by simp
    have n: "n + 1 + 719468 = 146097 * (if y = 399 then e + 1 else e) +
        (365 * (if y = 399 then 0 else y + 1) + (if y = 399 then 0 else y + 1) div 4 - (if y = 399 then 0 else y + 1) div 100 + 0)"
      using p(1,2,5) r march_len_sum [of y] by (auto simp: march_len_def leap_def)
    have "0 < march_len z" for z by (simp add: march_len_def)
    then have "civil_from_days (n + 1) = (400 * e + y + 1, 3, 1)"
      using civil_parts [OF _ _ _ _ n] p(1,2) by (auto simp: month_day_def)
    moreover have "m = 2" "d = month_length (400 * e + (y + 1)) 2"
    proof -
      have "r = (if leap (y + 1) then 365 else 364)" using r by (simp add: march_len_def split: if_splits)
      then show "m = 2" "d = month_length (400 * e + (y + 1)) 2"
        using md unfolding month_length_def leap by (auto simp: month_day_def split: if_splits)
    qed
    ultimately show ?thesis by (simp add: c next_date_def month_length_def)
  qed
qed

lemma civil_calendar: "civil_from_days (int n) = calendar n"
proof (induction n)
  case 0
  have "civil_from_days 0 = (1970, 1, 1)" by code_simp
  then show ?case by (simp add: calendar_def)
next
  case (Suc n)
  then show ?case using civil_next [of "int n"] by (simp add: calendar_def algebra_simps)
qed

lemma calendar_valid: "valid_date (calendar n)"
proof (induction n)
  case 0
  show ?case by (simp add: calendar_def valid_date_def month_length_def)
next
  case (Suc n)
  have "1 \<le> month_length y m" for y m by (simp add: month_length_def)
  then show ?case using Suc by (auto simp: calendar_def valid_date_def next_date_def split: prod.splits)
qed

lemma calendar_year_mono: "n \<le> k \<Longrightarrow> fst (calendar n) \<le> fst (calendar k)"
proof (induction k rule: dec_induct)
  case (step k)
  have "fst x \<le> fst (next_date x)" for x by (simp add: next_date_def split: prod.split)
  with step.IH show ?case unfolding calendar_def by (metis funpow.simps(2) o_apply order_trans)
qed simp

lemma last_date: "calendar 2932896 = (9999, 12, 31)"
proof -
  have "civil_from_days 2932896 = (9999, 12, 31)" by code_simp
  then show ?thesis using civil_calendar [of 2932896] by simp
qed

lemma pad0_length: "n < 10 ^ w \<Longrightarrow> 0 < w \<Longrightarrow> length (pad0 w n) = w"
proof (induction w arbitrary: n)
  case (Suc w)
  have "length (show_nat n) \<le> Suc w" if "n < 10 ^ Suc w" for n
    using that
  proof (induction w arbitrary: n)
    case 0
    then show ?case by (simp add: show_nat.simps [of n])
  next
    case (Suc w)
    then have "n div 10 < 10 ^ Suc w" by (simp add: less_mult_imp_div_less)
    then show ?case using Suc.IH by (simp add: show_nat.simps [of n])
  qed
  with Suc.prems show ?case by (simp add: pad0_def)
qed simp

text \<open>C29. A time stamp names the right instant. Up to the end of the year 9999 it is 24 characters long, and its
  date is the one reached from 1 January 1970 by going from day to day by the rules for month
  lengths and leap years; that date is valid and the rest of the seconds is the time of day.\<close>

theorem timestamp_calendar:
  assumes "s < 253402300800" "ms < 1000" "calendar (s div 86400) = (y, m, d)"
  shows "utc_rfc3339_millis (of_nat s) ms =
     pad0 4 (nat y) @ ''-'' @ pad0 2 (nat m) @ ''-'' @ pad0 2 (nat d) @ ''T'' @ pad0 2 (s mod 86400 div 3600) @ '':'' @
     pad0 2 (s mod 3600 div 60) @ '':'' @ pad0 2 (s mod 60) @ ''.'' @ pad0 3 ms @ ''Z'' \<and>
     length (utc_rfc3339_millis (of_nat s) ms) = 24 \<and> valid_date (y, m, d) \<and> 1970 \<le> y"
proof -
  have s: "sint (of_nat s :: u64) = int s"
    using assms(1) by (simp add: signed_of_nat signed_take_bit_int_eq_self)
  have "s div 86400 \<le> 2932896" using assms(1) by simp
  then have y: "1970 \<le> y" "y \<le> 9999"
    using calendar_year_mono [of 0 "s div 86400"] calendar_year_mono [of "s div 86400" 2932896] last_date assms(3)
    by (simp_all add: calendar_def)
  have v: "valid_date (y, m, d)" using calendar_valid [of "s div 86400"] assms(3) by simp
  then have md: "1 \<le> m" "m \<le> 12" "1 \<le> d" "d \<le> 31" by (auto simp: valid_date_def month_length_def split: if_splits)
  have days: "civil_from_days (int s div 86400) = (y, m, d)"
    using civil_calendar [of "s div 86400"] assms(3) by (simp add: zdiv_int)
  have t: "utc_rfc3339_millis (of_nat s) ms =
     pad0 4 (nat y) @ ''-'' @ pad0 2 (nat m) @ ''-'' @ pad0 2 (nat d) @ ''T'' @ pad0 2 (s mod 86400 div 3600) @ '':'' @
     pad0 2 (s mod 3600 div 60) @ '':'' @ pad0 2 (s mod 60) @ ''.'' @ pad0 3 ms @ ''Z''"
  proof -
    have n: "int s mod 86400 div 3600 = int (s mod 86400 div 3600)" "int s mod 86400 mod 3600 div 60 = int (s mod 3600 div 60)"
      "int s mod 86400 mod 60 = int (s mod 60)"
      by (simp_all add: zdiv_int zmod_int mod_mod_cancel)
    have "pad_int w (int k) = pad0 w k" for w k by (simp add: pad_int_def)
    moreover have "pad_int w k = pad0 w (nat k)" if "1 \<le> k" for w k using that by (simp add: pad_int_def)
    ultimately show ?thesis
      using y(1) md(1,3) by (simp only: utc_rfc3339_millis_def s days Let_def n split: prod.split) simp
  qed
  have "nat y < 10 ^ 4" "nat m < 10 ^ 2" "nat d < 10 ^ 2" "s mod 86400 div 3600 < 10 ^ 2" "s mod 3600 div 60 < 10 ^ 2"
    "s mod 60 < 10 ^ 2" "ms < 10 ^ 3"
    using y md assms(2) by (simp_all add: less_mult_imp_div_less)
  then have "length (utc_rfc3339_millis (of_nat s) ms) = 24" unfolding t by (simp add: pad0_length)
  with t v y(1) show ?thesis by blast
qed

theorem timestamp_calendar_witness:
  "utc_rfc3339_millis (of_nat 1700000000) 123 = ''2023-11-14T22:13:20.123Z'' \<and> valid_date (2023, 11, 14)"
proof -
  have "civil_from_days 19675 = (2023, 11, 14)" by code_simp
  then have "calendar (1700000000 div 86400) = (2023, 11, 14)" using civil_calendar [of 19675] by simp
  note t = timestamp_calendar [OF _ _ this, of 123]
  have "pad0 4 2023 = ''2023''" "pad0 2 11 = ''11''" "pad0 2 14 = ''14''" "pad0 2 22 = ''22''" "pad0 2 13 = ''13''"
    "pad0 2 20 = ''20''" "pad0 3 123 = ''123''" by code_simp+
  with t show ?thesis by simp
qed

end
