(* ===== verification/Log.thy ===== *)
theory Log
  imports Calendar
begin

text \<open>
  \<^verbatim>\<open>crates/abora-log\<close>: severities and their rank, the builders, the reloadable threshold, the two encodings of a
  record, the sink behind its lock, the panic hook and the global logger. Printing of JSON values is
  \<^verbatim>\<open>serde_json\<close>'s and a parameter. Formatting of a message is the only thing a caller can make
  panic while the lock is held; a message that does is \<^term>\<open>None\<close>.
\<close>

section \<open>Severities\<close>

datatype level = Off | Error | Warn | Info | Debug | Trace

definition level_display :: "level \<Rightarrow> string" where
  "level_display l = (case l of Off \<Rightarrow> ''off'' | Error \<Rightarrow> ''error'' | Warn \<Rightarrow> ''warn''
     | Info \<Rightarrow> ''info'' | Debug \<Rightarrow> ''debug'' | Trace \<Rightarrow> ''trace'')"

definition level_from_str :: "string \<Rightarrow> string + level" where
  "level_from_str s =
     (if s = ''off'' then Inr Off else if s = ''error'' then Inr Error
      else if s = ''warn'' then Inr Warn else if s = ''info'' then Inr Info
      else if s = ''debug'' then Inr Debug else if s = ''trace'' then Inr Trace
      else Inl (''unknown log level `'' @ s @
        ''` (expected one of: off, error, warn, info, debug, trace)''))"

definition as_rank :: "level \<Rightarrow> u8" where
  "as_rank l = (case l of Off \<Rightarrow> 0 | Error \<Rightarrow> 1 | Warn \<Rightarrow> 2 | Info \<Rightarrow> 3 | Debug \<Rightarrow> 4 | Trace \<Rightarrow> 5)"

definition from_rank :: "u8 \<Rightarrow> level" where
  "from_rank r = (if r = 0 then Off else if r = 1 then Error else if r = 2 then Warn
     else if r = 3 then Info else if r = 4 then Debug else Trace)"

text \<open>\<^verbatim>\<open>derive(PartialOrd, Ord)\<close>: declaration order, which is the order of the ranks.\<close>

instantiation level :: linorder
begin

definition less_eq_level :: "level \<Rightarrow> level \<Rightarrow> bool" where
  "less_eq_level a b \<longleftrightarrow> as_rank a \<le> as_rank b"

definition less_level :: "level \<Rightarrow> level \<Rightarrow> bool" where
  "less_level a b \<longleftrightarrow> as_rank a < as_rank b"

instance
proof
  fix a b :: level
  show "a \<le> b \<Longrightarrow> b \<le> a \<Longrightarrow> a = b"
    by (cases a; cases b) (simp_all add: less_eq_level_def as_rank_def word_le_nat_alt)
qed (auto simp: less_eq_level_def less_level_def)

end

datatype format = Json | Text

definition format_display :: "format \<Rightarrow> string" where
  "format_display f = (case f of Json \<Rightarrow> ''json'' | Text \<Rightarrow> ''text'')"

text \<open>\<^verbatim>\<open>Redacted<T>\<close> shows and serialises as the same text whatever it wraps.\<close>

datatype 'a redacted = Redacted 'a

definition redacted_display :: "'a redacted \<Rightarrow> string" where
  "redacted_display _ = ''<redacted>''"

definition redacted_serialize :: "'a redacted \<Rightarrow> json" where
  "redacted_serialize _ = JStr ''<redacted>''"

section \<open>The logger\<close>

text \<open>The sink: what has arrived, and what becomes of the coming calls of \<^verbatim>\<open>write_all\<close>: with \<^term>\<open>Some n\<close> one fails
  after \<^term>\<open>n\<close> bytes; calls beyond the list succeed.\<close>

record sink =
  sk_written :: string
  sk_faults :: "nat option list"

definition sink_write :: "string \<Rightarrow> sink \<Rightarrow> bool \<times> sink" where
  "sink_write bs sk = (case sk_faults sk of
     [] \<Rightarrow> (True, sk\<lparr>sk_written := sk_written sk @ bs\<rparr>)
   | None # fs \<Rightarrow> (True, \<lparr>sk_written = sk_written sk @ bs, sk_faults = fs\<rparr>)
   | Some n # fs \<Rightarrow> (False, \<lparr>sk_written = sk_written sk @ take n bs, sk_faults = fs\<rparr>))"

datatype lock = Unlocked | Locked | Poisoned

record logger =
  lg_level :: u8
  lg_format :: format
  lg_lock :: lock
  lg_sink :: sink

record logger_builder =
  lb_level :: level
  lb_format :: format
  lb_writer :: "sink option"

definition logger_builder_default :: logger_builder where
  "logger_builder_default = \<lparr>lb_level = Info, lb_format = Json, lb_writer = None\<rparr>"

definition builder_level :: "level \<Rightarrow> logger_builder \<Rightarrow> logger_builder" where
  "builder_level l b = b\<lparr>lb_level := l\<rparr>"

definition builder_format :: "format \<Rightarrow> logger_builder \<Rightarrow> logger_builder" where
  "builder_format f b = b\<lparr>lb_format := f\<rparr>"

definition builder_writer :: "sink \<Rightarrow> logger_builder \<Rightarrow> logger_builder" where
  "builder_writer w b = b\<lparr>lb_writer := Some w\<rparr>"

definition logger_build :: "sink \<Rightarrow> logger_builder \<Rightarrow> logger" where
  "logger_build stderr b = \<lparr>lg_level = as_rank (lb_level b), lg_format = lb_format b, lg_lock = Unlocked,
     lg_sink = (case lb_writer b of Some w \<Rightarrow> w | None \<Rightarrow> stderr)\<rparr>"

definition logger_new :: "sink \<Rightarrow> level \<Rightarrow> format \<Rightarrow> logger" where
  "logger_new stderr l f = logger_build stderr (builder_format f (builder_level l logger_builder_default))"

definition logger_level :: "logger \<Rightarrow> level" where
  "logger_level lg = from_rank (lg_level lg)"

definition set_level :: "level \<Rightarrow> logger \<Rightarrow> logger" where
  "set_level l lg = lg\<lparr>lg_level := as_rank l\<rparr>"

definition log_enabled :: "logger \<Rightarrow> level \<Rightarrow> bool" where
  "log_enabled lg l \<longleftrightarrow>
     lg_level lg \<noteq> as_rank Off \<and> l \<noteq> Off \<and> as_rank l \<le> lg_level lg"

section \<open>Records\<close>

text \<open>\<^verbatim>\<open>serde_json\<close>: a value as compact JSON (\<^verbatim>\<open>to_string\<close>, which may fail) and as shown by \<^verbatim>\<open>Display\<close>.\<close>

record json_printer =
  jp_to_string :: "json \<Rightarrow> string option"
  jp_display :: "json \<Rightarrow> string"

type_synonym log_fields = "(string \<times> json) list"

record record_builder =
  rb_level :: level
  rb_component :: "string option"
  rb_fields :: log_fields

definition record_new :: "level \<Rightarrow> record_builder" where
  "record_new l = \<lparr>rb_level = l, rb_component = None, rb_fields = []\<rparr>"

definition rb_with_component :: "string \<Rightarrow> record_builder \<Rightarrow> record_builder" where
  "rb_with_component c rb = rb\<lparr>rb_component := Some c\<rparr>"

text \<open>\<^verbatim>\<open>field\<close>: a value that cannot be converted (\<^term>\<open>None\<close>) is left out.\<close>

definition rb_field :: "string \<Rightarrow> json option \<Rightarrow> record_builder \<Rightarrow> record_builder" where
  "rb_field key value rb = (case value of
     Some v \<Rightarrow> rb\<lparr>rb_fields := btree_insert key v (rb_fields rb)\<rparr>
   | None \<Rightarrow> rb)"

definition log_object :: "string \<Rightarrow> level \<Rightarrow> string \<Rightarrow> log_fields \<Rightarrow> string \<Rightarrow> string \<Rightarrow> json option" where
  "log_object ts l component flds msg =
     foldl (\<lambda>obj (k, v). obj(k \<mapsto> v))
       [''timestamp'' \<mapsto> JStr ts, ''level'' \<mapsto> JStr (level_display l), ''component'' \<mapsto> JStr component,
        ''message'' \<mapsto> JStr msg] flds"

definition write_json ::
  "json_printer \<Rightarrow> string \<Rightarrow> level \<Rightarrow> string \<Rightarrow> log_fields \<Rightarrow> string \<Rightarrow> string" where
  "write_json jp ts l component flds msg =
     (case jp_to_string jp (JObj (log_object ts l component flds msg)) of Some s \<Rightarrow> s | None \<Rightarrow> ''{}'') @ [CHR 0x0A]"

text \<open>\<^verbatim>\<open>Display\<close> for \<^typ>\<open>level\<close> writes the bare name, so the width in \<^verbatim>\<open>{level:<5}\<close> has no effect.\<close>

definition write_text ::
  "json_printer \<Rightarrow> string \<Rightarrow> level \<Rightarrow> string \<Rightarrow> log_fields \<Rightarrow> string \<Rightarrow> string" where
  "write_text jp ts l component flds msg =
     ts @ '' '' @ level_display l @ '' ['' @ component @ ''] '' @ msg @
     concat (map (\<lambda>(k, v). '' '' @ k @ ''='' @ jp_display jp v) flds) @ [CHR 0x0A]"

definition render :: "format \<Rightarrow> json_printer \<Rightarrow> string \<Rightarrow> level \<Rightarrow> string \<Rightarrow> log_fields \<Rightarrow> string \<Rightarrow> string" where
  "render f = (case f of Json \<Rightarrow> write_json | Text \<Rightarrow> write_text)"

text \<open>How a call ends. A panic in it leaves the lock held until the stack is unwound, after the panic hook ran.\<close>

datatype ended = Returns | Panics | Blocks | Aborts

definition write_record ::
  "json_printer \<Rightarrow> int \<Rightarrow> level \<Rightarrow> string \<Rightarrow> log_fields \<Rightarrow> string option \<Rightarrow> logger \<Rightarrow> ended \<times> logger" where
  "write_record jp clock l component flds msg lg =
     (let ts = rfc3339_now clock
      in case lg_lock lg of
        Locked \<Rightarrow> (Blocks, lg)
      | Poisoned \<Rightarrow> (Panics, lg)
      | Unlocked \<Rightarrow> (case msg of
          None \<Rightarrow> (Panics, lg\<lparr>lg_lock := Locked\<rparr>)
        | Some m \<Rightarrow> (Returns, lg\<lparr>lg_sink := snd (sink_write (render (lg_format lg) jp ts l component flds m) (lg_sink lg))\<rparr>)))"

definition emit ::
  "json_printer \<Rightarrow> int \<Rightarrow> string option \<Rightarrow> record_builder \<Rightarrow> logger \<Rightarrow> ended \<times> logger" where
  "emit jp clock msg rb lg =
     (if \<not> log_enabled lg (rb_level rb) then (Returns, lg)
      else write_record jp clock (rb_level rb) (case rb_component rb of Some c \<Rightarrow> c | None \<Rightarrow> ''framework'')
        (rb_fields rb) msg lg)"

definition emit_string :: "json_printer \<Rightarrow> int \<Rightarrow> string \<Rightarrow> record_builder \<Rightarrow> logger \<Rightarrow> ended \<times> logger" where
  "emit_string jp clock msg rb lg = emit jp clock (Some msg) rb lg"

text \<open>The methods and the macros of the same names.\<close>

definition log_error :: "json_printer \<Rightarrow> int \<Rightarrow> string option \<Rightarrow> logger \<Rightarrow> ended \<times> logger" where
  "log_error jp clock msg lg = emit jp clock msg (record_new Error) lg"

definition log_warn :: "json_printer \<Rightarrow> int \<Rightarrow> string option \<Rightarrow> logger \<Rightarrow> ended \<times> logger" where
  "log_warn jp clock msg lg = emit jp clock msg (record_new Warn) lg"

definition log_info :: "json_printer \<Rightarrow> int \<Rightarrow> string option \<Rightarrow> logger \<Rightarrow> ended \<times> logger" where
  "log_info jp clock msg lg = emit jp clock msg (record_new Info) lg"

definition log_debug :: "json_printer \<Rightarrow> int \<Rightarrow> string option \<Rightarrow> logger \<Rightarrow> ended \<times> logger" where
  "log_debug jp clock msg lg = emit jp clock msg (record_new Debug) lg"

definition log_trace :: "json_printer \<Rightarrow> int \<Rightarrow> string option \<Rightarrow> logger \<Rightarrow> ended \<times> logger" where
  "log_trace jp clock msg lg = emit jp clock msg (record_new Trace) lg"

definition log_macro :: "level \<Rightarrow> json_printer \<Rightarrow> int \<Rightarrow> string option \<Rightarrow> logger \<Rightarrow> ended \<times> logger" where
  "log_macro l jp clock msg lg = emit jp clock msg (record_new l) lg"

section \<open>Panics and the global logger\<close>

datatype payload = PanicStr string | PanicString string | PanicOther

record panic_info =
  pi_payload :: payload
  pi_location :: "(string \<times> nat \<times> nat) option"
  pi_thread :: "string option"
  pi_backtrace :: "string option"

definition panic_hook :: "json_printer \<Rightarrow> int \<Rightarrow> panic_info \<Rightarrow> logger \<Rightarrow> ended \<times> logger" where
  "panic_hook jp clock info lg =
     (let payload = (case pi_payload info of
            PanicStr s \<Rightarrow> s | PanicString s \<Rightarrow> s | PanicOther \<Rightarrow> ''non-string panic payload'');
          location = map_option (\<lambda>(file_name, line, column). file_name @ '':'' @ show_nat line @ '':'' @ show_nat column)
            (pi_location info);
          thread = (case pi_thread info of Some n \<Rightarrow> n | None \<Rightarrow> ''<unnamed>'');
          rb = rb_field ''location'' (Some (case location of Some s \<Rightarrow> JStr s | None \<Rightarrow> JNull))
            (rb_field ''thread'' (Some (JStr thread)) (rb_with_component ''panic'' (record_new Error)));
          rb = (case pi_backtrace info of Some b \<Rightarrow> rb_field ''backtrace'' (Some (JStr b)) rb | None \<Rightarrow> rb)
      in emit_string jp clock (''panic: '' @ payload) rb lg)"

text \<open>A panic in a call that logs: first the hook runs, then the stack is unwound, which poisons a lock that is
  held; a panic inside the hook ends the process.\<close>

definition with_hook :: "json_printer \<Rightarrow> int \<Rightarrow> panic_info \<Rightarrow> ended \<times> logger \<Rightarrow> ended \<times> logger" where
  "with_hook jp clock info call = (case call of
     (Panics, lg) \<Rightarrow> (case panic_hook jp clock info lg of
        (Returns, lg') \<Rightarrow> (Panics, lg'\<lparr>lg_lock := (case lg_lock lg' of Locked \<Rightarrow> Poisoned | x \<Rightarrow> x)\<rparr>)
      | (Blocks, lg') \<Rightarrow> (Blocks, lg')
      | (_, lg') \<Rightarrow> (Aborts, lg'))
   | _ \<Rightarrow> call)"

text \<open>\<^verbatim>\<open>OnceLock\<close>: the first logger stays, a later one is handed back.\<close>

definition set_global :: "'l \<Rightarrow> 'l option \<Rightarrow> ('l + unit) \<times> 'l option" where
  "set_global l g = (case g of None \<Rightarrow> (Inr (), Some l) | Some _ \<Rightarrow> (Inl l, g))"

definition global :: "'l option \<Rightarrow> 'l option" where
  "global g = g"

section \<open>Severity facts\<close>

lemma from_rank_as_rank [simp]: "from_rank (as_rank l) = l"
  by (cases l) (simp_all add: as_rank_def from_rank_def)

lemma level_from_str_display: "level_from_str (level_display l) = Inr l"
  by (cases l) (simp_all add: level_display_def level_from_str_def)

lemma logger_level_set_level [simp]: "logger_level (set_level l lg) = l"
  by (simp add: logger_level_def set_level_def)

lemma log_enabled_iff: "log_enabled (set_level t lg) l \<longleftrightarrow> l \<noteq> Off \<and> l \<le> t"
  by (cases t; cases l) (simp_all add: log_enabled_def set_level_def as_rank_def less_eq_level_def word_le_nat_alt)

section \<open>What reaches the sink\<close>

datatype log_op = SetLevel level | Record int record_builder string

definition log_step :: "json_printer \<Rightarrow> log_op \<Rightarrow> logger \<Rightarrow> logger" where
  "log_step jp op lg = (case op of
     SetLevel l \<Rightarrow> set_level l lg
   | Record clock rb msg \<Rightarrow> snd (emit jp clock (Some msg) rb lg))"

definition log_run :: "json_printer \<Rightarrow> log_op list \<Rightarrow> logger \<Rightarrow> logger" where
  "log_run jp ops lg = fold (log_step jp) ops lg"

text \<open>The records that are due, rendered, from the threshold at the start.\<close>

fun due_records :: "json_printer \<Rightarrow> format \<Rightarrow> level \<Rightarrow> log_op list \<Rightarrow> string list" where
  "due_records jp f t [] = []"
| "due_records jp f t (SetLevel l # ops) = due_records jp f l ops"
| "due_records jp f t (Record clock rb msg # ops) =
     (if rb_level rb \<noteq> Off \<and> rb_level rb \<le> t
      then [render f jp (rfc3339_now clock) (rb_level rb)
        (case rb_component rb of Some c \<Rightarrow> c | None \<Rightarrow> ''framework'') (rb_fields rb) msg]
      else []) @ due_records jp f t ops"

fun delivered :: "nat option list \<Rightarrow> string list \<Rightarrow> string" where
  "delivered fs [] = []"
| "delivered [] (r # rs) = r @ delivered [] rs"
| "delivered (f # fs) (r # rs) = (case f of None \<Rightarrow> r | Some n \<Rightarrow> take n r) @ delivered fs rs"

lemma log_step_record:
  assumes "lg_lock lg = Unlocked" "lg_level lg = as_rank t"
  shows "log_step jp (Record clock rb msg) lg =
     (if rb_level rb \<noteq> Off \<and> rb_level rb \<le> t
      then lg\<lparr>lg_sink := snd (sink_write (render (lg_format lg) jp (rfc3339_now clock) (rb_level rb)
        (case rb_component rb of Some c \<Rightarrow> c | None \<Rightarrow> ''framework'') (rb_fields rb) msg) (lg_sink lg))\<rparr>
      else lg)"
proof -
  have "log_enabled lg (rb_level rb) \<longleftrightarrow> rb_level rb \<noteq> Off \<and> rb_level rb \<le> t"
    using log_enabled_iff [of t lg "rb_level rb"] assms(2) by (simp add: set_level_def log_enabled_def)
  then show ?thesis using assms(1) by (simp add: log_step_def emit_def write_record_def Let_def)
qed

lemma log_run_delivered:
  "lg_lock lg = Unlocked \<Longrightarrow> lg_level lg = as_rank t \<Longrightarrow>
   sk_written (lg_sink (log_run jp ops lg)) =
     sk_written (lg_sink lg) @ delivered (sk_faults (lg_sink lg)) (due_records jp (lg_format lg) t ops)"
proof (induction jp "lg_format lg" t ops arbitrary: lg rule: due_records.induct)
  case (2 jp t l ops)
  then show ?case using 2(1) [of "set_level l lg"] by (simp add: log_run_def log_step_def set_level_def)
next
  case (3 jp t clock rb msg ops)
  define lg' where "lg' = log_step jp (Record clock rb msg) lg"
  have s: "lg' = (if rb_level rb \<noteq> Off \<and> rb_level rb \<le> t
      then lg\<lparr>lg_sink := snd (sink_write (render (lg_format lg) jp (rfc3339_now clock) (rb_level rb)
        (case rb_component rb of Some c \<Rightarrow> c | None \<Rightarrow> ''framework'') (rb_fields rb) msg) (lg_sink lg))\<rparr>
      else lg)"
    unfolding lg'_def by (rule log_step_record [OF 3(2,3)])
  have "log_run jp (Record clock rb msg # ops) lg = log_run jp ops lg'" by (simp add: log_run_def lg'_def)
  moreover have "lg_format lg' = lg_format lg" "lg_lock lg' = Unlocked" "lg_level lg' = as_rank t"
    using 3(2,3) by (simp_all add: s)
  ultimately show ?case
    using 3(1) [of lg'] by (cases "sk_faults (lg_sink lg)") (auto simp: s sink_write_def split: option.splits)
qed (simp_all add: log_run_def)

lemma log_object_lookup:
  assumes "distinct (map fst flds)"
  shows "log_object ts l c flds msg = [''timestamp'' \<mapsto> JStr ts, ''level'' \<mapsto> JStr (level_display l),
     ''component'' \<mapsto> JStr c, ''message'' \<mapsto> JStr msg] ++ map_of flds"
proof -
  have "foldl (\<lambda>obj (k, v). obj(k \<mapsto> v)) b flds = b ++ map_of flds" for b :: "string \<Rightarrow> json option"
    using assms
  proof (induction flds arbitrary: b)
    case (Cons x flds)
    obtain k v where x: "x = (k, v)" by fastforce
    have "b(k \<mapsto> v) ++ map_of flds = b ++ (map_of flds)(k \<mapsto> v)"
    proof -
      have "k \<notin> dom (map_of flds)" using Cons.prems by (simp add: x dom_map_of_conv_image_fst)
      from map_add_upd_left [OF this] show ?thesis by simp
    qed
    with Cons show ?case by (simp add: x del: fun_upd_apply)
  qed simp
  then show ?thesis by (simp add: log_object_def)
qed

lemma redacted_hides: "rb_field k (Some (redacted_serialize (Redacted a))) rb = rb_field k (Some (redacted_serialize (Redacted b))) rb"
  by (simp add: redacted_serialize_def)

text \<open>A line break in a message of a text record goes out as it is: whoever chooses the end of a message can
  add a whole record of any level, component and time.\<close>

lemma text_record_forged:
  "write_text jp ts l c [] (msg @ [CHR 0x0A] @ butlast (write_text jp ts' l' c' [] msg')) =
   write_text jp ts l c [] msg @ write_text jp ts' l' c' [] msg'"
  by (simp add: write_text_def butlast_append)

text \<open>A message whose formatting panics takes the lock with it. With the panic hook on the same logger the hook then
  waits for that lock forever; a lock that is poisoned ends the process at the next record.\<close>

lemma panicking_message:
  assumes "log_enabled lg (rb_level rb)" "lg_lock lg = Unlocked"
  shows "fst (with_hook jp clock info (emit jp clock None rb lg)) = Blocks"
proof -
  have "log_enabled (lg\<lparr>lg_lock := Locked\<rparr>) Error"
    using assms(1) by (cases "rb_level rb") (auto simp: log_enabled_def as_rank_def word_le_nat_alt unat_eq_0)
  then show ?thesis
    using assms by (simp add: with_hook_def emit_def write_record_def panic_hook_def emit_string_def rb_field_def
        rb_with_component_def record_new_def Let_def split: option.split)
qed

lemma due_records_lines:
  assumes "\<And>v s. jp_to_string jp v = Some s \<Longrightarrow> CHR 0x0A \<notin> set s"
  shows "r \<in> set (due_records jp Json t ops) \<Longrightarrow> \<exists>s. r = s @ [CHR 0x0A] \<and> CHR 0x0A \<notin> set s"
proof (induction ops arbitrary: t)
  case (Cons op ops)
  then show ?case
    by (cases op) (auto simp: render_def write_json_def split: if_splits option.splits dest: assms)
qed simp

text \<open>C30. What the log holds. Whatever the order of records and of changes of the threshold, the sink has received,
  in order and each with one write, exactly the records whose level is not \<^const>\<open>Off\<close> and at or
  below the threshold in force at that moment; a write that fails truncates that record and no other.
  In the JSON format each record is one line. (The JSON library prints no line breaks.)\<close>

theorem log_complete:
  assumes "\<And>v s. jp_to_string jp v = Some s \<Longrightarrow> CHR 0x0A \<notin> set s"
    and "lg = logger_build stderr b" "start = (case lb_writer b of Some w \<Rightarrow> w | None \<Rightarrow> stderr)"
  shows "sk_written (lg_sink (log_run jp ops lg)) =
       sk_written start @ delivered (sk_faults start) (due_records jp (lb_format b) (lb_level b) ops) \<and>
     (\<forall>r \<in> set (due_records jp Json (lb_level b) ops). \<exists>s. r = s @ [CHR 0x0A] \<and> CHR 0x0A \<notin> set s)"
  using log_run_delivered [of lg "lb_level b" jp ops] due_records_lines [OF assms(1), where t = "lb_level b" and ops = ops] assms(2,3)
  by (simp add: logger_build_def)

definition demo_printer :: json_printer where
  "demo_printer = \<lparr>jp_to_string = (\<lambda>v. case v of JObj m \<Rightarrow> (case m ''message'' of
     Some (JStr s) \<Rightarrow> Some (filter (\<lambda>c. c \<noteq> CHR 0x0A) s) | _ \<Rightarrow> None) | _ \<Rightarrow> None), jp_display = (\<lambda>_. [])\<rparr>"

theorem log_complete_witness:
  "sk_written (lg_sink (log_run demo_printer
     [Record 0 (record_new Info) ''a'', Record 0 (record_new Debug) ''b'', SetLevel Debug, Record 0 (record_new Debug) ''c'',
      Record 0 (record_new Info) ''de'', SetLevel Off, Record 0 (record_new Error) ''f'']
     (logger_build \<lparr>sk_written = [], sk_faults = [None, Some 0]\<rparr> logger_builder_default))) =
   ''a'' @ [CHR 0x0A] @ ''de'' @ [CHR 0x0A]"
proof -
  have "jp_to_string demo_printer v = Some s \<Longrightarrow> CHR 0x0A \<notin> set s" for v s
    by (auto simp: demo_printer_def split: json.splits option.splits)
  note printer = this
  show ?thesis
    using log_complete [of demo_printer, OF printer refl refl, where b = logger_builder_default]
    by (simp add: logger_builder_default_def record_new_def render_def write_json_def demo_printer_def log_object_def
        less_eq_level_def as_rank_def word_le_nat_alt)
qed

end
