(* ===== verification/Net.thy ===== *)
theory Net
  imports Prelude
begin

text \<open>
  The part of \<^verbatim>\<open>std::net\<close> the daemon uses: parsing a \<^verbatim>\<open>SocketAddr\<close> and \<^verbatim>\<open>IpAddr::is_loopback\<close>.
  Each reader takes the remaining input and returns the value with what is left, \<^term>\<open>None\<close>
  without consuming anything when it does not match.
\<close>

type_synonym u16 = "16 word"

datatype ip_addr = V4 u8 u8 u8 u8 | V6 "u16 list"

record socket_addr =
  sa_ip :: ip_addr
  sa_port :: u16

definition is_loopback :: "ip_addr \<Rightarrow> bool" where
  "is_loopback ip = (case ip of
     V4 a _ _ _ \<Rightarrow> a = 127
   | V6 gs \<Rightarrow> gs = [0, 0, 0, 0, 0, 0, 0, 1])"

section \<open>Readers\<close>

definition digit_of_radix :: "nat \<Rightarrow> char \<Rightarrow> nat option" where
  "digit_of_radix radix c =
     (case from_hex_digit c of None \<Rightarrow> None | Some d \<Rightarrow> if d < radix then Some d else None)"

definition radix_val :: "nat \<Rightarrow> string \<Rightarrow> nat" where
  "radix_val radix ds = foldl (\<lambda>n c. n * radix + the (digit_of_radix radix c)) 0 ds"

definition read_number ::
  "nat \<Rightarrow> nat option \<Rightarrow> bool \<Rightarrow> nat \<Rightarrow> string \<Rightarrow> (nat \<times> string) option" where
  "read_number radix max_digits allow_zero_prefix limit s =
     (let ds = takeWhile (\<lambda>c. digit_of_radix radix c \<noteq> None) s;
          n = length ds
      in if n = 0 then None
         else if (case max_digits of Some m \<Rightarrow> m < n | None \<Rightarrow> False) then None
         else if \<not> allow_zero_prefix \<and> hd ds = CHR ''0'' \<and> 1 < n then None
         else if limit < radix_val radix ds then None
         else Some (radix_val radix ds, drop n s))"

definition read_char :: "char \<Rightarrow> string \<Rightarrow> string option" where
  "read_char c s = (case s of [] \<Rightarrow> None | x # t \<Rightarrow> if x = c then Some t else None)"

definition read_octet :: "string \<Rightarrow> (nat \<times> string) option" where
  "read_octet = read_number 10 (Some 3) False u8_max"

definition read_ipv4 :: "string \<Rightarrow> ((nat \<times> nat \<times> nat \<times> nat) \<times> string) option" where
  "read_ipv4 s =
     Option.bind (read_octet s) (\<lambda>(a, s).
     Option.bind (read_char (CHR ''.'') s) (\<lambda>s.
     Option.bind (read_octet s) (\<lambda>(b, s).
     Option.bind (read_char (CHR ''.'') s) (\<lambda>s.
     Option.bind (read_octet s) (\<lambda>(c, s).
     Option.bind (read_char (CHR ''.'') s) (\<lambda>s.
     Option.bind (read_octet s) (\<lambda>(d, s). Some ((a, b, c, d), s))))))))"

text \<open>\<^verbatim>\<open>read_separator\<close>: every group but the first is preceded by a colon.\<close>

definition read_sep :: "nat \<Rightarrow> (string \<Rightarrow> ('a \<times> string) option) \<Rightarrow> string \<Rightarrow> ('a \<times> string) option" where
  "read_sep i r s = (if i = 0 then r s else Option.bind (read_char (CHR '':'') s) r)"

text \<open>\<^verbatim>\<open>read_groups\<close> with \<^term>\<open>left\<close> slots from index \<^term>\<open>i\<close> on: the groups read, whether the
  last two came from an embedded IPv4 address, and the rest of the input.\<close>

fun read_groups :: "nat \<Rightarrow> nat \<Rightarrow> string \<Rightarrow> nat list \<times> bool \<times> string" where
  "read_groups i 0 s = ([], False, s)"
| "read_groups i (Suc left) s =
     (case (if 0 < left then read_sep i read_ipv4 s else None) of
        Some ((a, b, c, d), s') \<Rightarrow> ([a * 256 + b, c * 256 + d], True, s')
      | None \<Rightarrow>
          (case read_sep i (read_number 16 (Some 4) True u16_max) s of
             None \<Rightarrow> ([], False, s)
           | Some (g, s') \<Rightarrow>
               (let (gs, v4, s'') = read_groups (Suc i) left s' in (g # gs, v4, s''))))"

definition read_ipv6 :: "string \<Rightarrow> (nat list \<times> string) option" where
  "read_ipv6 s =
     (let (hd_gs, head_ipv4, s1) = read_groups 0 8 s
      in if length hd_gs = 8 then Some (hd_gs, s1)
         else if head_ipv4 then None
         else Option.bind (read_char (CHR '':'') s1) (\<lambda>s2.
              Option.bind (read_char (CHR '':'') s2) (\<lambda>s3.
                let (tl_gs, _, s4) = read_groups 0 (8 - (length hd_gs + 1)) s3
                in Some (hd_gs @ replicate (8 - length hd_gs - length tl_gs) 0 @ tl_gs, s4))))"

definition read_port :: "string \<Rightarrow> (nat \<times> string) option" where
  "read_port s = Option.bind (read_char (CHR '':'') s) (read_number 10 None True u16_max)"

definition read_socket_addr_v4 :: "string \<Rightarrow> (socket_addr \<times> string) option" where
  "read_socket_addr_v4 s =
     Option.bind (read_ipv4 s) (\<lambda>((a, b, c, d), s).
     Option.bind (read_port s) (\<lambda>(p, s).
       Some (\<lparr>sa_ip = V4 (of_nat a) (of_nat b) (of_nat c) (of_nat d), sa_port = of_nat p\<rparr>, s)))"

definition read_scope_id :: "string \<Rightarrow> string" where
  "read_scope_id s =
     (case Option.bind (read_char (CHR ''%'') s) (read_number 10 None True u32_max) of
        Some (_, s') \<Rightarrow> s' | None \<Rightarrow> s)"

definition read_socket_addr_v6 :: "string \<Rightarrow> (socket_addr \<times> string) option" where
  "read_socket_addr_v6 s =
     Option.bind (read_char (CHR ''['') s) (\<lambda>s.
     Option.bind (read_ipv6 s) (\<lambda>(gs, s).
     Option.bind (read_char (CHR '']'') (read_scope_id s)) (\<lambda>s.
     Option.bind (read_port s) (\<lambda>(p, s).
       Some (\<lparr>sa_ip = V6 (map of_nat gs), sa_port = of_nat p\<rparr>, s)))))"

text \<open>\<^verbatim>\<open>"...".parse::<SocketAddr>()\<close>: the whole input must be consumed.\<close>

definition parse_socket_addr :: "string \<Rightarrow> socket_addr option" where
  "parse_socket_addr s =
     (case (case read_socket_addr_v4 s of Some r \<Rightarrow> Some r | None \<Rightarrow> read_socket_addr_v6 s) of
        Some (a, []) \<Rightarrow> Some a
      | _ \<Rightarrow> None)"

lemmas net_defs = parse_socket_addr_def read_socket_addr_v4_def read_socket_addr_v6_def
  read_ipv4_def read_octet_def read_number_def read_char_def read_port_def read_ipv6_def
  read_scope_id_def read_sep_def digit_of_radix_def from_hex_digit_def is_ascii_digit_def
  radix_val_def u8_max_def u16_max_def u32_max_def

lemma parse_default_listen:
  "parse_socket_addr ''127.0.0.1:7360'' = Some \<lparr>sa_ip = V4 127 0 0 1, sa_port = 7360\<rparr>"
  by (simp add: net_defs)

lemma parse_wildcard:
  "parse_socket_addr ''0.0.0.0:80'' = Some \<lparr>sa_ip = V4 0 0 0 0, sa_port = 80\<rparr>"
  by (simp add: net_defs)

text \<open>One unfolding of \<^const>\<open>read_groups\<close> at a numeral, for evaluation.\<close>

lemma read_groups_numeral:
  "read_groups i (numeral k) s =
     (case (if 0 < (pred_numeral k :: nat) then read_sep i read_ipv4 s else None) of
        Some ((a, b, c, d), s') \<Rightarrow> ([a * 256 + b, c * 256 + d], True, s')
      | None \<Rightarrow>
          (case read_sep i (read_number 16 (Some 4) True u16_max) s of
             None \<Rightarrow> ([], False, s)
           | Some (g, s') \<Rightarrow>
               (let (gs, v4, s'') = read_groups (Suc i) (pred_numeral k) s' in (g # gs, v4, s''))))"
  by (simp only: numeral_eq_Suc read_groups.simps)

lemma read_groups_loopback_tail: "read_groups 0 7 ''1]:7360'' = ([1], False, '']:7360'')"
proof -
  have "read_groups (Suc 0) 6 '']:7360'' = ([], False, '']:7360'')"
    by (subst read_groups_numeral) (simp add: read_sep_def read_char_def)
  then show ?thesis
    by (subst read_groups_numeral) (simp add: net_defs)
qed

lemma read_groups_loopback_head: "read_groups 0 8 ''::1]:7360'' = ([], False, ''::1]:7360'')"
  by (subst read_groups_numeral) (simp add: net_defs)

lemma read_ipv6_loopback: "read_ipv6 ''::1]:7360'' = Some ([0, 0, 0, 0, 0, 0, 0, 1], '']:7360'')"
proof -
  have "replicate 7 (0 :: nat) = [0, 0, 0, 0, 0, 0, 0]" by (simp add: numeral_eq_Suc)
  then show ?thesis
    by (simp add: read_ipv6_def read_groups_loopback_head read_char_def read_groups_loopback_tail)
qed

lemma parse_v6_loopback:
  "parse_socket_addr ''[::1]:7360'' = Some \<lparr>sa_ip = V6 [0, 0, 0, 0, 0, 0, 0, 1], sa_port = 7360\<rparr>"
proof -
  have "read_socket_addr_v4 ''[::1]:7360'' = None" by (simp add: net_defs)
  moreover have "read_socket_addr_v6 ''[::1]:7360'' =
      Some (\<lparr>sa_ip = V6 [0, 0, 0, 0, 0, 0, 0, 1], sa_port = 7360\<rparr>, [])"
    by (simp add: read_socket_addr_v6_def read_ipv6_loopback read_char_def read_scope_id_def
        read_port_def read_number_def digit_of_radix_def from_hex_digit_def is_ascii_digit_def
        radix_val_def u16_max_def)
  ultimately show ?thesis by (simp add: parse_socket_addr_def)
qed

end
