(* ===== verification/Config.thy ===== *)
theory Config
  imports Update Log Net FileSys
begin

text \<open>
  \<^verbatim>\<open>crates/abora-config/src/lib.rs\<close>: the configuration structs with their defaults, the clock
  and duration parsers, and \<^verbatim>\<open>Config::validate\<close> with every message it collects.

  The unknown top-level tables are \<^verbatim>\<open>toml\<close> crate values: their type is the parameter
  \<^typ>\<open>'x\<close>, and the two accessors \<^verbatim>\<open>extension\<close> uses are arguments of its model. Integer
  arithmetic is that of a release build: \<^verbatim>\<open>u64\<close> multiplication wraps.
\<close>

section \<open>Structs\<close>

record system_config =
  sc_hostname :: "string option"
  sc_description :: "string option"

record updates_config =
  uc_channel :: channel
  uc_automatic :: bool
  uc_check_interval :: string
  uc_reboot_policy :: reboot_policy
  uc_state_file :: path
  uc_apply_result_file :: path

record maintenance_config =
  mc_enabled :: bool
  mc_windows :: "maintenance_window list"

record remote_config =
  rc_enabled :: bool
  rc_listen_addr :: string
  rc_advertise_hostname :: "string option"

record security_config =
  sec_require_authentication :: bool
  sec_token_file :: "path option"

record logging_config =
  lc_level :: level
  lc_format :: format

record api_config =
  ac_base_path :: string
  ac_max_payload_bytes :: u64
  ac_request_timeout_secs :: u64

record features_config =
  fc_flags :: "(string, bool) map"

record 'x config =
  cfg_system :: system_config
  cfg_updates :: updates_config
  cfg_maintenance :: maintenance_config
  cfg_remote :: remote_config
  cfg_security :: security_config
  cfg_logging :: logging_config
  cfg_api :: api_config
  cfg_features :: features_config
  cfg_extensions :: 'x

definition system_config_default :: system_config where
  "system_config_default = \<lparr>sc_hostname = None, sc_description = None\<rparr>"

definition DEFAULT_RESULT_FILE :: path where
  "DEFAULT_RESULT_FILE = ''/var/lib/abora-apply/result.json''"

definition updates_config_default :: updates_config where
  "updates_config_default =
     \<lparr>uc_channel = Stable, uc_automatic = False, uc_check_interval = ''6h'',
      uc_reboot_policy = Ask, uc_state_file = ''/var/lib/abora/updates.json'',
      uc_apply_result_file = DEFAULT_RESULT_FILE\<rparr>"

definition maintenance_config_default :: maintenance_config where
  "maintenance_config_default = \<lparr>mc_enabled = True, mc_windows = []\<rparr>"

definition remote_config_default :: remote_config where
  "remote_config_default =
     \<lparr>rc_enabled = False, rc_listen_addr = DEFAULT_LISTEN_ADDR, rc_advertise_hostname = None\<rparr>"

definition security_config_default :: security_config where
  "security_config_default = \<lparr>sec_require_authentication = True, sec_token_file = None\<rparr>"

definition logging_config_default :: logging_config where
  "logging_config_default = \<lparr>lc_level = Info, lc_format = Json\<rparr>"

definition api_config_default :: api_config where
  "api_config_default =
     \<lparr>ac_base_path = API_PATH_PREFIX, ac_max_payload_bytes = 1024 * 1024,
      ac_request_timeout_secs = 30\<rparr>"

definition features_config_default :: features_config where
  "features_config_default = \<lparr>fc_flags = Map.empty\<rparr>"

text \<open>\<^verbatim>\<open>Config::default\<close>; the argument is \<^verbatim>\<open>toml::Table::new()\<close>.\<close>

definition config_default :: "'x \<Rightarrow> 'x config" where
  "config_default no_tables =
     \<lparr>cfg_system = system_config_default, cfg_updates = updates_config_default,
      cfg_maintenance = maintenance_config_default, cfg_remote = remote_config_default,
      cfg_security = security_config_default, cfg_logging = logging_config_default,
      cfg_api = api_config_default, cfg_features = features_config_default,
      cfg_extensions = no_tables\<rparr>"

definition feature_flag :: "features_config \<Rightarrow> string \<Rightarrow> bool" where
  "feature_flag f name = (case fc_flags f name of Some b \<Rightarrow> b | None \<Rightarrow> False)"

definition set_flag :: "string \<Rightarrow> bool \<Rightarrow> features_config \<Rightarrow> features_config" where
  "set_flag name v f = f\<lparr>fc_flags := (fc_flags f)(name \<mapsto> v)\<rparr>"

section \<open>Extensions\<close>

text \<open>\<^verbatim>\<open>Config::extension\<close>: all dotted parts but the last must be tables. \<^term>\<open>get\<close> is the
  table lookup and \<^term>\<open>as_table\<close> recognises a nested table.\<close>

fun walk_tables ::
  "('x \<Rightarrow> string \<Rightarrow> 'v option) \<Rightarrow> ('v \<Rightarrow> 'x option) \<Rightarrow> 'x \<Rightarrow> string list \<Rightarrow> 'x option" where
  "walk_tables get as_table t [] = Some t"
| "walk_tables get as_table t (p # ps) =
     (case get t p of
        None \<Rightarrow> None
      | Some v \<Rightarrow> (case as_table v of None \<Rightarrow> None | Some u \<Rightarrow> walk_tables get as_table u ps))"

definition extension ::
  "('x \<Rightarrow> string \<Rightarrow> 'v option) \<Rightarrow> ('v \<Rightarrow> 'x option) \<Rightarrow> 'x config \<Rightarrow> string \<Rightarrow> 'v option" where
  "extension get as_table c name =
     (let parts = split_char (CHR ''.'') name
      in case walk_tables get as_table (cfg_extensions c) (butlast parts) of
           None \<Rightarrow> None
         | Some t \<Rightarrow> get t (last parts))"

text \<open>\<^verbatim>\<open>typed_extension\<close>: an extension that is not there is no error; \<^term>\<open>try_into\<close> converts one that is.\<close>

definition typed_extension ::
  "('v \<Rightarrow> 'e + 't) \<Rightarrow> ('x \<Rightarrow> string \<Rightarrow> 'v option) \<Rightarrow> ('v \<Rightarrow> 'x option) \<Rightarrow> 'x config \<Rightarrow> string \<Rightarrow> 'e + 't option" where
  "typed_extension try_into get as_table c name = (case extension get as_table c name of
     None \<Rightarrow> Inr None
   | Some v \<Rightarrow> map_sum id Some (try_into v))"

section \<open>Clock times and durations\<close>

definition parse_clock :: "string \<Rightarrow> string + nat" where
  "parse_clock s = (case split_once (CHR '':'') s of
     None \<Rightarrow> Inl ''expected HH:MM format''
   | Some (hour, minute) \<Rightarrow>
       if length hour \<noteq> 2 \<or> length minute \<noteq> 2 then Inl ''expected two-digit hours and minutes''
       else if \<not> list_all is_ascii_digit hour \<or> \<not> list_all is_ascii_digit minute
         then Inl ''expected digits''
       else case parse_uint u32_max hour of
         None \<Rightarrow> Inl ''invalid hour''
       | Some h \<Rightarrow> (case parse_uint u32_max minute of
           None \<Rightarrow> Inl ''invalid minute''
         | Some m \<Rightarrow>
             if 23 < h then Inl ''hour out of range''
             else if 59 < m then Inl ''minute out of range''
             else Inr (h * 60 + m)))"

definition duration_unit :: "string \<Rightarrow> string + u64" where
  "duration_unit unit =
     (if unit = ''s'' then Inr 1 else if unit = ''m'' then Inr 60
      else if unit = ''h'' then Inr (60 * 60) else if unit = ''d'' then Inr (60 * 60 * 24)
      else Inl (''unknown unit `'' @ unit @ ''` (expected s, m, h, d)''))"

definition parse_duration :: "string \<Rightarrow> string + u64" where
  "parse_duration raw =
     (let v = trim raw;
          num = takeWhile is_ascii_digit v;
          unit = dropWhile is_ascii_digit v
      in if unit = [] then Inl ''missing unit (s, m, h, d)''
         else case parse_u64 num of
           None \<Rightarrow> Inl ''invalid number''
         | Some number \<Rightarrow> (case duration_unit unit of
             Inl e \<Rightarrow> Inl e
           | Inr mult \<Rightarrow>
               if number = 0 then Inl ''duration must be greater than zero''
               else Inr (number * mult)))"

section \<open>Validation\<close>

definition is_absolute :: "path \<Rightarrow> bool" where
  "is_absolute p \<longleftrightarrow> prefix ''/'' p"

definition win_msg :: "nat \<Rightarrow> string \<Rightarrow> string" where
  "win_msg i rest = ''[maintenance] window #'' @ show_nat i @ rest"

text \<open>One turn of the loop of \<^verbatim>\<open>validate_windows\<close>; \<^verbatim>\<open>continue\<close> ends the turn.\<close>

definition validate_window :: "nat \<Rightarrow> maintenance_window \<Rightarrow> string list" where
  "validate_window i w =
     (if mw_days w = [] then [win_msg i '' must define at least one day''] else []) @
     (case parse_clock (mw_start w) of
        Inl e \<Rightarrow> [win_msg i ('' start `'' @ mw_start w @ ''` is not HH:MM: '' @ e)]
      | Inr start \<Rightarrow> (case parse_clock (mw_end w) of
          Inl e \<Rightarrow> [win_msg i ('' end `'' @ mw_end w @ ''` is not HH:MM: '' @ e)]
        | Inr end' \<Rightarrow>
            (if end' \<le> start
             then [win_msg i ('': end ('' @ mw_end w @ '') must be after start ('' @ mw_start w @ '')'')]
             else []) @
            (if mw_max_duration_minutes w = Some 0
             then [win_msg i '': max_duration_minutes must be greater than zero''] else [])))"

definition validate_windows :: "maintenance_window list \<Rightarrow> string list" where
  "validate_windows ws = concat (map (\<lambda>(i, w). validate_window i w) (enumerate 0 ws))"

definition validate_hostname :: "string option \<Rightarrow> string list" where
  "validate_hostname hostname = (case hostname of None \<Rightarrow> []
   | Some name \<Rightarrow>
       (let h = trim name
        in if h = [] then [''[system] hostname must not be empty'']
           else if has_ws h
             then [''[system] hostname `'' @ name @ ''` must not contain whitespace'']
           else []))"

definition validate_api :: "api_config \<Rightarrow> string list" where
  "validate_api a =
     (let base_path = trim (ac_base_path a)
      in if \<not> prefix ''/'' base_path \<or> length base_path < 2
         then [''[api] base_path `'' @ ac_base_path a @ ''` must start with `/` and be non-trivial'']
         else if ac_base_path a \<noteq> base_path
         then [''[api] base_path must not contain leading/trailing whitespace'']
         else []) @
     (if ac_max_payload_bytes a = 0
      then [''[api] max_payload_bytes must be greater than zero''] else []) @
     (if ac_request_timeout_secs a = 0
      then [''[api] request_timeout_secs must be greater than zero''] else [])"

definition validate_errors :: "'x config \<Rightarrow> string list" where
  "validate_errors c =
     (let u = cfg_updates c in
      validate_hostname (sc_hostname (cfg_system c)) @
      (if \<not> is_absolute (uc_apply_result_file u)
       then [''[updates] apply_result_file `'' @ uc_apply_result_file u @ ''` must be an absolute path'']
       else []) @
      (if \<not> is_absolute (uc_state_file u)
       then [''[updates] state_file `'' @ uc_state_file u @ ''` must be an absolute path''] else []) @
      (case parse_duration (uc_check_interval u) of
         Inl e \<Rightarrow> [''[updates] check_interval `'' @ uc_check_interval u @
            ''` is not a valid duration: '' @ e]
       | Inr _ \<Rightarrow> []) @
      validate_windows (mc_windows (cfg_maintenance c)) @
      (if parse_socket_addr (rc_listen_addr (cfg_remote c)) = None
       then [''[remote] listen_addr `'' @ rc_listen_addr (cfg_remote c) @
         ''` is not a valid socket address''] else []) @
      validate_api (cfg_api c))"

definition validate :: "'x config \<Rightarrow> string list + unit" where
  "validate c = (if validate_errors c = [] then Inr () else Inl (validate_errors c))"

datatype 'e config_error =
    ConfigIo path string
  | ConfigToml 'e
  | ConfigNotUtf8
  | ConfigInvalid string

text \<open>\<^verbatim>\<open>Config::from_str\<close>: the TOML deserialiser is a parameter.\<close>

definition config_from_str ::
  "(string \<Rightarrow> 'e + 'x config) \<Rightarrow> string \<Rightarrow> 'e config_error + 'x config" where
  "config_from_str toml_from_str raw = (case toml_from_str raw of
     Inl e \<Rightarrow> Inl (ConfigToml e)
   | Inr cfg \<Rightarrow> (case validate cfg of
       Inl errors \<Rightarrow> Inl (ConfigInvalid (join [CHR 0x0A] errors))
     | Inr _ \<Rightarrow> Inr cfg))"

text \<open>How the errors print, with a printer for the TOML library's errors.\<close>

definition config_error_display :: "('e \<Rightarrow> string) \<Rightarrow> 'e config_error \<Rightarrow> string" where
  "config_error_display show_toml e = (case e of
     ConfigIo p m \<Rightarrow> ''could not read configuration file `'' @ p @ ''`: '' @ m
   | ConfigToml t \<Rightarrow> ''could not parse TOML: '' @ show_toml t
   | ConfigNotUtf8 \<Rightarrow> ''configuration is not UTF-8''
   | ConfigInvalid m \<Rightarrow> ''configuration is invalid:'' @ [CHR 0x0A] @ m)"

text \<open>\<^verbatim>\<open>Config::load\<close>.\<close>

definition config_load ::
  "(string \<Rightarrow> 'e + 'x config) \<Rightarrow> io_env \<Rightarrow> path \<Rightarrow> disk \<Rightarrow> ('e config_error + 'x config) \<times> disk" where
  "config_load toml_from_str env path d = (case read_to_string env path d of
     (Inl e, d') \<Rightarrow> (Inl (ConfigIo path (read_error_display e)), d')
   | (Inr raw, d') \<Rightarrow> (config_from_str toml_from_str raw, d'))"

definition config_from_slice ::
  "(string \<Rightarrow> 'e + 'x config) \<Rightarrow> string \<Rightarrow> 'e config_error + 'x config" where
  "config_from_slice toml_from_str bytes =
     (if valid_utf8 bytes then config_from_str toml_from_str bytes else Inl ConfigNotUtf8)"

lemma config_from_str_valid: "config_from_str toml raw = Inr c \<Longrightarrow> validate c = Inr ()"
  by (auto simp: config_from_str_def split: sum.splits)

definition config_summary :: "'x config \<Rightarrow> string list" where
  "config_summary c =
     [''hostname override: '' @ (case sc_hostname (cfg_system c) of Some h \<Rightarrow> h | None \<Rightarrow> ''-''),
      ''update channel: '' @ channel_display (uc_channel (cfg_updates c)),
      ''automatic updates: '' @ show_bool (uc_automatic (cfg_updates c)),
      ''maintenance enabled: '' @ show_bool (mc_enabled (cfg_maintenance c)),
      ''remote management enabled: '' @ show_bool (rc_enabled (cfg_remote c)),
      ''auth required: '' @ show_bool (sec_require_authentication (cfg_security c)),
      ''listen: '' @ rc_listen_addr (cfg_remote c) @ '' (loopback-only for now)'',
      ''log level: '' @ level_display (lc_level (cfg_logging c)) @ '', format: '' @
        format_display (lc_format (cfg_logging c)),
      ''api base path: '' @ ac_base_path (cfg_api c)]"

section \<open>Two-digit fields\<close>

lemma digit_char_inverse: "is_ascii_digit c \<Longrightarrow> digit_char (digit_val c) = c"
  by (simp add: digit_char_def digit_val_def is_ascii_digit_def)

lemma digit_val_less: "is_ascii_digit c \<Longrightarrow> digit_val c < 10"
  unfolding digit_val_def is_ascii_digit_def by linarith

lemma char_of_48: "char_of (48 :: nat) = CHR ''0''"
  by (simp add: char_of_eq_iff)

lemma pad0_2:
  assumes "n < 100"
  shows "pad0 2 n = [digit_char (n div 10), digit_char (n mod 10)]"
proof (cases "n < 10")
  case True
  then show ?thesis
    by (simp add: pad0_def show_nat.simps [of n] digit_char_def char_of_48)
next
  case False
  then have "show_nat n = [digit_char (n div 10), digit_char (n mod 10)]"
    using assms by (simp add: show_nat.simps [of n] show_nat.simps [of "n div 10"])
  then show ?thesis by (simp add: pad0_def)
qed

lemma two_digits_iff:
  "length s = 2 \<and> list_all is_ascii_digit s \<longleftrightarrow> (\<exists>n < 100. s = pad0 2 n)"
proof
  assume h: "length s = 2 \<and> list_all is_ascii_digit s"
  then obtain a b where s: "s = [a, b]"
    by (cases s; cases "tl s") auto
  let ?n = "digit_val a * 10 + digit_val b"
  from h s have d: "is_ascii_digit a" "is_ascii_digit b" by auto
  then have "digit_val a < 10" "digit_val b < 10" by (simp_all add: digit_val_less)
  then have n: "?n < 100" "?n div 10 = digit_val a" "?n mod 10 = digit_val b"
    by simp_all
  have "s = pad0 2 ?n"
    using d by (simp only: pad0_2 [OF n(1)] n(2,3) s digit_char_inverse)
  with n show "\<exists>n < 100. s = pad0 2 n" by blast
next
  assume "\<exists>n < 100. s = pad0 2 n"
  then obtain n where "n < 100" "s = pad0 2 n" by blast
  then show "length s = 2 \<and> list_all is_ascii_digit s"
    by (simp add: pad0_2 digit_char_digit)
qed

lemma digits_val_pad0_2: "n < 100 \<Longrightarrow> digits_val (pad0 2 n) = n"
  by (simp add: pad0_2 digits_val_def digit_val_def byte_digit_char)

lemma parse_uint_pad0_2: "n < 100 \<Longrightarrow> parse_uint u32_max (pad0 2 n) = Some n"
  using two_digits_iff [of "pad0 2 n"]
  by (subst parse_uint_digits) (auto simp: digits_val_pad0_2 u32_max_def)

lemma colon_notin_pad0_2: "n < 100 \<Longrightarrow> CHR '':'' \<notin> set (pad0 2 n)"
  using two_digits_iff [of "pad0 2 n"] by (auto simp: list_all_iff)

lemma parse_clock_pad0:
  assumes "h < 24" "m < 60"
  shows "parse_clock (pad0 2 h @ CHR '':'' # pad0 2 m) = Inr (h * 60 + m)"
proof -
  have "split_once (CHR '':'') (pad0 2 h @ CHR '':'' # pad0 2 m) = Some (pad0 2 h, pad0 2 m)"
    using assms colon_notin_pad0_2 by (simp add: split_once_append)
  moreover have "length (pad0 2 n) = 2 \<and> list_all is_ascii_digit (pad0 2 n)" if "n < 100" for n
    using that two_digits_iff by blast
  ultimately show ?thesis
    using assms by (simp add: parse_clock_def parse_uint_pad0_2)
qed

lemma parse_clock_okD:
  assumes "parse_clock s = Inr n"
  shows "\<exists>h < 24. \<exists>m < 60. s = pad0 2 h @ CHR '':'' # pad0 2 m \<and> n = h * 60 + m"
proof -
  from assms obtain a b where sp: "split_once (CHR '':'') s = Some (a, b)"
    and ab: "length a = 2 \<and> list_all is_ascii_digit a" "length b = 2 \<and> list_all is_ascii_digit b"
    by (auto simp: parse_clock_def split: option.splits if_splits)
  from ab obtain h m where hm: "h < 100" "a = pad0 2 h" "m < 100" "b = pad0 2 m"
    using two_digits_iff by meson
  with assms sp ab have "h < 24" "m < 60" "n = h * 60 + m"
    by (auto simp: parse_clock_def parse_uint_pad0_2 split: if_splits)
  moreover have "s = pad0 2 h @ CHR '':'' # pad0 2 m"
    using sp hm by (simp add: split_once_Some)
  ultimately show ?thesis by blast
qed

lemma parse_clock_less: "parse_clock s = Inr n \<Longrightarrow> n < 1440"
  by (drule parse_clock_okD) auto

section \<open>Validated windows\<close>

definition window_ok :: "maintenance_window \<Rightarrow> bool" where
  "window_ok w \<longleftrightarrow> mw_days w \<noteq> [] \<and> mw_max_duration_minutes w \<noteq> Some 0 \<and>
     (\<exists>s e. parse_clock (mw_start w) = Inr s \<and> parse_clock (mw_end w) = Inr e \<and> s < e)"

lemma validate_window_Nil_iff: "validate_window i w = [] \<longleftrightarrow> window_ok w"
  by (auto simp: validate_window_def window_ok_def split: sum.splits if_splits)

lemma validate_windows_Nil_iff: "validate_windows ws = [] \<longleftrightarrow> (\<forall>w \<in> set ws. window_ok w)"
proof -
  have "concat (map (\<lambda>(i, w). validate_window i w) (enumerate k ws)) = [] \<longleftrightarrow>
      (\<forall>w \<in> set ws. window_ok w)" for k
    by (induction ws arbitrary: k) (simp_all only: enumerate_simps list.map prod.case concat.simps
        append_is_Nil_conv validate_window_Nil_iff list.set ball_simps simp_thms)
  then show ?thesis by (simp only: validate_windows_def)
qed

lemma validate_ok_iff_errors: "validate c = Inr () \<longleftrightarrow> validate_errors c = []"
  by (simp add: validate_def)

lemma validate_okD:
  assumes "validate c = Inr ()"
  shows "\<forall>w \<in> set (mc_windows (cfg_maintenance c)). window_ok w"
    and "is_absolute (uc_state_file (cfg_updates c))"
    and "is_absolute (uc_apply_result_file (cfg_updates c))"
    and "\<exists>d. parse_duration (uc_check_interval (cfg_updates c)) = Inr d"
    and "\<exists>a. parse_socket_addr (rc_listen_addr (cfg_remote c)) = Some a"
    and "ac_max_payload_bytes (cfg_api c) \<noteq> 0" "ac_request_timeout_secs (cfg_api c) \<noteq> 0"
    and "prefix ''/'' (ac_base_path (cfg_api c))" "2 \<le> length (ac_base_path (cfg_api c))"
  using assms
  by (auto simp: validate_ok_iff_errors validate_errors_def Let_def validate_windows_Nil_iff
      validate_api_def split: if_splits sum.splits)

lemma takeWhile_digits: "(\<forall>x \<in> set ds. is_ascii_digit x) \<Longrightarrow> \<not> is_ascii_digit u \<Longrightarrow>
    takeWhile is_ascii_digit (ds @ u # r) = ds \<and> dropWhile is_ascii_digit (ds @ u # r) = u # r"
  by (induction ds) auto

lemma plain_digit: "is_ascii_digit c \<Longrightarrow> plain_char c"
  by (simp add: plain_char_def is_ascii_digit_def)

lemma parse_duration_unit:
  assumes "duration_unit [u] = Inr k" "n \<le> u64_max" "0 < n"
  shows "parse_duration (show_nat n @ [u]) = Inr (of_nat n * k)"
proof -
  have u: "u \<in> {CHR ''s'', CHR ''m'', CHR ''h'', CHR ''d''}"
    using assms(1) by (auto simp: duration_unit_def split: if_splits)
  then have nd: "\<not> is_ascii_digit u" "plain_char u"
    by (auto simp: is_ascii_digit_def plain_char_def)
  have dg: "\<forall>x \<in> set (show_nat n). is_ascii_digit x"
    by (blast dest: is_digit_of_show_nat)
  have "trim (show_nat n @ [u]) = show_nat n @ [u]"
    using nd dg by (intro trim_plain) (auto simp: hd_append intro!: plain_digit)
  moreover have "(of_nat n :: u64) \<noteq> 0"
  proof -
    have "unat (of_nat n :: u64) = n"
      using assms(2) by (simp add: unat_of_nat u64_max_def)
    with assms(3) show ?thesis by auto
  qed
  ultimately show ?thesis
    using assms takeWhile_digits [OF dg nd(1), of "[]"] nd(1)
    by (simp add: parse_duration_def Let_def parse_u64_def parse_show_nat)
qed

section \<open>Properties\<close>

text \<open>A clock string is accepted exactly when it is one of the 1440 strings \<^verbatim>\<open>HH:MM\<close>, two
  digits each, hours below 24 and minutes below 60, and its value is the minute of the day.\<close>

theorem parse_clock_exact:
  "parse_clock s = Inr n \<longleftrightarrow>
     (\<exists>h m. h < 24 \<and> m < 60 \<and> s = pad0 2 h @ CHR '':'' # pad0 2 m \<and> n = h * 60 + m)"
  using parse_clock_okD parse_clock_pad0 by meson



text \<open>Beyond the limit the product wraps (the multiplication is unchecked): a positive day
  count is accepted as a duration of zero seconds, although a zero duration is an error.\<close>

theorem parse_duration_wraps_to_zero:
  "parse_duration (show_nat (2 ^ 57) @ ''d'') = Inr 0 \<and>
   parse_duration ''0d'' = Inl ''duration must be greater than zero''"
proof
  have "parse_duration (show_nat (2 ^ 57) @ ''d'') = Inr (of_nat (2 ^ 57) * 86400)"
    by (rule parse_duration_unit) (simp_all add: duration_unit_def u64_max_def)
  then show "parse_duration (show_nat (2 ^ 57) @ ''d'') = Inr 0"
    by simp
  have "trim ''0d'' = ''0d''" by (rule trim_plain) (simp_all add: plain_char_def)
  then show "parse_duration ''0d'' = Inl ''duration must be greater than zero''"
    by (simp add: parse_duration_def is_ascii_digit_def parse_u64_def parse_uint_def
        digits_val_def digit_val_def u64_max_def duration_unit_def)
qed

end
