(* ===== verification/Schedule.thy ===== *)
theory Schedule
  imports Config
begin

text \<open>
  \<^verbatim>\<open>crates/abora-config/src/schedule.rs\<close>: what the update policy permits at a local time, when
  the next check is due and when the scheduler may ask for an automatic apply. A \<^verbatim>\<open>Duration\<close>
  is its number of nanoseconds. What running \<^verbatim>\<open>date\<close> comes to is an argument of \<^verbatim>\<open>local_time\<close>.
\<close>

record local_time =
  lt_weekday :: weekday
  lt_minutes :: nat

record permissions =
  pm_in_maintenance_window :: "bool option"
  pm_apply_permitted :: bool
  pm_installs_permitted :: bool
  pm_reboot_permitted :: bool

definition weekday_of_digit :: "string \<Rightarrow> weekday option" where
  "weekday_of_digit day =
     (if day = ''1'' then Some Monday else if day = ''2'' then Some Tuesday
      else if day = ''3'' then Some Wednesday else if day = ''4'' then Some Thursday
      else if day = ''5'' then Some Friday else if day = ''6'' then Some Saturday
      else if day = ''7'' then Some Sunday else None)"

definition parse_date_output :: "string \<Rightarrow> local_time option" where
  "parse_date_output text =
     Option.bind (split_once (CHR '' '') (trim text)) (\<lambda>(day, clock).
     Option.bind (split_once (CHR '':'') clock) (\<lambda>(hour, minute).
     Option.bind (weekday_of_digit day) (\<lambda>wd.
     Option.bind (parse_uint u32_max hour) (\<lambda>h.
     Option.bind (parse_uint u32_max minute) (\<lambda>m.
       if h < 24 \<and> m < 60 then Some \<lparr>lt_weekday = wd, lt_minutes = h * 60 + m\<rparr> else None)))))"

text \<open>\<^verbatim>\<open>local_time\<close>: \<^term>\<open>None\<close> when \<^verbatim>\<open>date\<close> cannot be run, else its success and the bytes it printed.\<close>

definition local_time_of :: "(bool \<times> string) option \<Rightarrow> local_time option" where
  "local_time_of date = Option.bind date (\<lambda>(success, stdout).
     if \<not> success then None else parse_date_output (from_utf8_lossy stdout))"

definition window_contains :: "maintenance_window \<Rightarrow> local_time \<Rightarrow> bool" where
  "window_contains w now = (case parse_clock (mw_start w) of
     Inl _ \<Rightarrow> False
   | Inr start \<Rightarrow> (case parse_clock (mw_end w) of
       Inl _ \<Rightarrow> False
     | Inr end' \<Rightarrow> lt_weekday now \<in> set (mw_days w) \<and> start \<le> lt_minutes now \<and> lt_minutes now < end'))"

definition in_window :: "maintenance_window list \<Rightarrow> local_time \<Rightarrow> bool" where
  "in_window ws now \<longleftrightarrow> list_ex (\<lambda>w. window_contains w now) ws"

definition permissions_at :: "'x config \<Rightarrow> local_time option \<Rightarrow> permissions" where
  "permissions_at c now =
     (let in_maintenance_window =
            map_option (\<lambda>t. mc_enabled (cfg_maintenance c) \<and> in_window (mc_windows (cfg_maintenance c)) t) now;
          in_win = (in_maintenance_window = Some True)
      in \<lparr>pm_in_maintenance_window = map_option (in_window (mc_windows (cfg_maintenance c))) now,
          pm_apply_permitted = in_win,
          pm_installs_permitted = (uc_automatic (cfg_updates c) \<and> in_win),
          pm_reboot_permitted = (case uc_reboot_policy (cfg_updates c) of
             Always \<Rightarrow> True | Never \<Rightarrow> False | Ask \<Rightarrow> in_win)\<rparr>)"

definition check_interval :: "'x config \<Rightarrow> duration" where
  "check_interval c =
     from_secs (case parse_duration (uc_check_interval (cfg_updates c)) of
        Inr d \<Rightarrow> d | Inl _ \<Rightarrow> 6 * 60 * 60)"

definition should_auto_apply ::
  "permissions \<Rightarrow> bool \<Rightarrow> bool \<Rightarrow> duration option \<Rightarrow> duration \<Rightarrow> bool" where
  "should_auto_apply perms has_available apply_pending since_last_attempt interval \<longleftrightarrow>
     pm_installs_permitted perms \<and> has_available \<and> \<not> apply_pending \<and>
     (case since_last_attempt of None \<Rightarrow> True | Some t \<Rightarrow> interval \<le> t)"

definition RETRY_AFTER_FAILURE :: duration where
  "RETRY_AFTER_FAILURE = from_secs (15 * 60)"

definition check_is_due :: "duration \<Rightarrow> bool \<Rightarrow> duration \<Rightarrow> bool" where
  "check_is_due since_last_attempt last_succeeded interval \<longleftrightarrow>
     (if last_succeeded then interval else min interval RETRY_AFTER_FAILURE) \<le> since_last_attempt"

section \<open>Abstract policy\<close>

text \<open>The minutes of the week a list of windows keeps open, as a set: half-open intervals on
  the listed days.\<close>

definition open_minutes :: "maintenance_window list \<Rightarrow> (weekday \<times> nat) set" where
  "open_minutes ws = {(d, t). \<exists>w \<in> set ws. d \<in> set (mw_days w) \<and>
     (\<exists>s e. parse_clock (mw_start w) = Inr s \<and> parse_clock (mw_end w) = Inr e \<and> t \<in> {s..<e})}"

lemma window_contains_iff:
  "window_contains w now \<longleftrightarrow> (\<exists>s e. parse_clock (mw_start w) = Inr s \<and>
     parse_clock (mw_end w) = Inr e \<and> lt_weekday now \<in> set (mw_days w) \<and>
     s \<le> lt_minutes now \<and> lt_minutes now < e)"
  by (auto simp: window_contains_def split: sum.splits)

lemma in_window_open_minutes: "in_window ws now \<longleftrightarrow> (lt_weekday now, lt_minutes now) \<in> open_minutes ws"
  by (auto simp: in_window_def list_ex_iff open_minutes_def window_contains_iff)

lemma open_minutes_bound: "(d, t) \<in> open_minutes ws \<Longrightarrow> t < 1440"
  by (auto simp: open_minutes_def dest: parse_clock_less)

lemma permissions_at_simps:
  "pm_apply_permitted (permissions_at c now) \<longleftrightarrow>
     (\<exists>t. now = Some t \<and> mc_enabled (cfg_maintenance c) \<and> in_window (mc_windows (cfg_maintenance c)) t)"
  "pm_installs_permitted (permissions_at c now) \<longleftrightarrow>
     uc_automatic (cfg_updates c) \<and> pm_apply_permitted (permissions_at c now)"
  "pm_reboot_permitted (permissions_at c now) \<longleftrightarrow>
     uc_reboot_policy (cfg_updates c) = Always \<or>
     uc_reboot_policy (cfg_updates c) = Ask \<and> pm_apply_permitted (permissions_at c now)"
  by (auto simp: permissions_at_def Let_def split: reboot_policy.splits)

lemma permissions_at_None:
  "permissions_at c None = \<lparr>pm_in_maintenance_window = None, pm_apply_permitted = False,
     pm_installs_permitted = False,
     pm_reboot_permitted = (uc_reboot_policy (cfg_updates c) = Always)\<rparr>"
  by (simp add: permissions_at_def split: reboot_policy.split)

section \<open>Properties\<close>

text \<open>C25. For a configuration that passes validation, the policy permits a requested apply
  exactly when maintenance is enabled and the local time is known and inside the half-open
  minutes of some window; every window is a non-empty interval of a single day. An automatic
  install needs the \<^verbatim>\<open>automatic\<close> switch as well.\<close>

theorem permissions_policy:
  assumes "validate c = Inr ()"
  shows "(pm_apply_permitted (permissions_at c now) \<longleftrightarrow>
       mc_enabled (cfg_maintenance c) \<and> (\<exists>t. now = Some t \<and>
         (lt_weekday t, lt_minutes t) \<in> open_minutes (mc_windows (cfg_maintenance c))))
     \<and> (pm_installs_permitted (permissions_at c now) \<longleftrightarrow>
       uc_automatic (cfg_updates c) \<and> pm_apply_permitted (permissions_at c now))
     \<and> list_all (\<lambda>w. \<exists>s e. parse_clock (mw_start w) = Inr s \<and> parse_clock (mw_end w) = Inr e \<and>
          mw_days w \<noteq> [] \<and> s < e \<and> e < 1440) (mc_windows (cfg_maintenance c))"
  using validate_okD(1) [OF assms] parse_clock_less
  by (fastforce simp: permissions_at_simps in_window_open_minutes list_all_iff window_ok_def)

text \<open>A configuration with one Sunday window, used by the witnesses.\<close>

definition sunday_window :: maintenance_window where
  "sunday_window = \<lparr>mw_days = [Sunday], mw_start = ''02:00'', mw_end = ''04:00'',
     mw_max_duration_minutes = None\<rparr>"

definition sunday_config :: "unit config" where
  "sunday_config = (config_default ())\<lparr>cfg_maintenance :=
     \<lparr>mc_enabled = True, mc_windows = [sunday_window]\<rparr>\<rparr>"

lemma sunday_clock: "parse_clock ''02:00'' = Inr 120" "parse_clock ''04:00'' = Inr 240"
  by (simp_all add: parse_clock_def is_ascii_digit_def parse_uint_def digits_val_def digit_val_def
      u32_max_def)

lemma sunday_config_valid: "validate sunday_config = Inr ()"
proof -
  have "trim ''6h'' = ''6h''" "trim ''/api/v1'' = ''/api/v1''"
    by (rule trim_plain; simp add: plain_char_def)+
  then have "validate_errors sunday_config = []"
    by (simp add: validate_errors_def sunday_config_def sunday_window_def config_default_def
        updates_config_default_def DEFAULT_RESULT_FILE_def is_absolute_def parse_duration_def
        is_ascii_digit_def parse_u64_def parse_uint_def digits_val_def digit_val_def u64_max_def
        duration_unit_def validate_windows_Nil_iff window_ok_def sunday_clock remote_config_default_def
        DEFAULT_LISTEN_ADDR_def parse_default_listen validate_api_def api_config_default_def
        API_PATH_PREFIX_def system_config_default_def validate_hostname_def)
  then show ?thesis by (simp add: validate_def)
qed

definition sunday_3am :: local_time where
  "sunday_3am = \<lparr>lt_weekday = Sunday, lt_minutes = 180\<rparr>"

lemma sunday_3am_open: "(Sunday, 180) \<in> open_minutes [sunday_window]"
  by (simp add: open_minutes_def sunday_window_def sunday_clock)

theorem permissions_policy_witness:
  "pm_apply_permitted (permissions_at sunday_config (Some sunday_3am)) \<and>
   \<not> pm_installs_permitted (permissions_at sunday_config (Some sunday_3am)) \<and>
   \<not> pm_apply_permitted (permissions_at sunday_config None)"
  using permissions_policy [OF sunday_config_valid, of "Some sunday_3am"]
    permissions_policy [OF sunday_config_valid, of None] sunday_3am_open
  by (simp add: sunday_config_def sunday_3am_def config_default_def updates_config_default_def)

text \<open>With an unknown local time nothing is permitted, with one exception: the reboot policy
  \<^const>\<open>Always\<close> permits a reboot without looking at the clock.\<close>

theorem unknown_time_permissions:
  "\<not> pm_apply_permitted (permissions_at c None) \<and>
   \<not> pm_installs_permitted (permissions_at c None) \<and>
   (pm_reboot_permitted (permissions_at c None) \<longleftrightarrow> uc_reboot_policy (cfg_updates c) = Always)"
  by (simp add: permissions_at_None)

text \<open>The check schedule: after a success the next check is due exactly one interval later;
  after a failure it is due no later than after 15 minutes and never later than after one
  interval; and once due it stays due.\<close>

theorem check_is_due_schedule:
  "(check_is_due t True interval \<longleftrightarrow> interval \<le> t) \<and>
   (check_is_due t False interval \<longleftrightarrow> interval \<le> t \<or> 15 * 60 * 1000000000 \<le> t) \<and>
   (check_is_due t ok interval \<and> t \<le> t' \<longrightarrow> check_is_due t' ok interval)"
  by (auto simp: check_is_due_def RETRY_AFTER_FAILURE_def from_secs_def)

theorem check_is_due_schedule_witness:
  "check_is_due (16 * 60 * 1000000000) False (6 * 3600 * 1000000000) \<and>
   check_is_due (20 * 60 * 1000000000) False (6 * 3600 * 1000000000)"
  using check_is_due_schedule [of "16 * 60 * 1000000000" "6 * 3600 * 1000000000" False
      "20 * 60 * 1000000000"] by simp

end
