(* ===== verification/Sysinfo.thy ===== *)
theory Sysinfo
  imports Prelude
begin

text \<open>
  \<^verbatim>\<open>crates/abora-sysinfo\<close>: the platform-independent types (\<^verbatim>\<open>lib.rs\<close>) and the parsers of \<^verbatim>\<open>/proc\<close> and
  \<^verbatim>\<open>os-release\<close> (\<^verbatim>\<open>linux.rs\<close>). Reading a file is an argument; so is the conversion of the uptime
  text through a floating-point number into a duration. Sizes are 64-bit words; \<^verbatim>\<open>total * KIB\<close>
  wraps as in a release build.
\<close>

section \<open>Types\<close>

record os_info =
  os_id :: string
  os_name :: "string option"
  os_pretty_name :: "string option"
  os_version :: "string option"
  os_version_id :: "string option"
  os_id_like :: "string list"
  os_home_url :: "string option"

definition os_info_unknown :: os_info where
  "os_info_unknown = \<lparr>os_id = ''unknown'', os_name = None, os_pretty_name = None, os_version = None,
     os_version_id = None, os_id_like = [], os_home_url = None\<rparr>"

record kernel_info =
  ki_name :: string
  ki_release :: string
  ki_version :: string

datatype architecture =
  X86_64 | X86 | Aarch64 | Arm | Riscv64 | Riscv32 | Powerpc64 | S390x | OtherArch string

definition from_machine :: "string \<Rightarrow> architecture" where
  "from_machine machine =
     (let m = to_ascii_lowercase (trim machine)
      in if m \<in> set [''x86_64'', ''amd64''] then X86_64
         else if m \<in> set [''i386'', ''i486'', ''i586'', ''i686'', ''x86''] then X86
         else if m \<in> set [''aarch64'', ''arm64''] then Aarch64
         else if m = ''riscv64'' then Riscv64
         else if m = ''riscv32'' then Riscv32
         else if m \<in> set [''ppc64'', ''ppc64le'', ''powerpc64''] then Powerpc64
         else if m = ''s390x'' then S390x
         else if prefix ''arm'' m then Arm
         else OtherArch m)"

fun canonical :: "architecture \<Rightarrow> string" where
  "canonical X86_64 = ''x86_64''"
| "canonical X86 = ''i686''"
| "canonical Aarch64 = ''aarch64''"
| "canonical Arm = ''arm''"
| "canonical Riscv64 = ''riscv64''"
| "canonical Riscv32 = ''riscv32''"
| "canonical Powerpc64 = ''ppc64''"
| "canonical S390x = ''s390x''"
| "canonical (OtherArch s) = s"

record memory_info =
  mi_total_bytes :: u64
  mi_available_bytes :: u64
  mi_free_bytes :: u64
  mi_used_bytes :: u64
  mi_swap_total_bytes :: u64
  mi_swap_used_bytes :: u64

definition saturating_sub :: "u64 \<Rightarrow> u64 \<Rightarrow> u64" where
  "saturating_sub a b = (if b \<le> a then a - b else 0)"

definition from_fields :: "u64 \<Rightarrow> u64 \<Rightarrow> u64 \<Rightarrow> u64 \<Rightarrow> u64 \<Rightarrow> memory_info" where
  "from_fields tot available free swap_total swap_free =
     \<lparr>mi_total_bytes = tot, mi_available_bytes = available, mi_free_bytes = free,
      mi_used_bytes = saturating_sub tot available, mi_swap_total_bytes = swap_total,
      mi_swap_used_bytes = saturating_sub swap_total swap_free\<rparr>"

record cpu_info =
  ci_model :: "string option"
  ci_physical_cores :: "nat option"
  ci_logical_cores :: "nat option"

definition cpu_info_default :: cpu_info where
  "cpu_info_default = \<lparr>ci_model = None, ci_physical_cores = None, ci_logical_cores = None\<rparr>"

datatype sysinfo_error = NotSupported | SysIo path string | SysParse string string

definition sysinfo_error_display :: "sysinfo_error \<Rightarrow> string" where
  "sysinfo_error_display e = (case e of
     NotSupported \<Rightarrow> ''system information is not supported on this platform''
   | SysIo p m \<Rightarrow> ''could not read `'' @ p @ ''`: '' @ m
   | SysParse what detail \<Rightarrow> ''could not parse '' @ what @ '': '' @ detail)"

record system_info =
  si_hostname :: string
  si_os :: os_info
  si_kernel :: kernel_info
  si_architecture :: architecture
  si_machine :: string
  si_uptime :: duration
  si_memory :: memory_info
  si_cpu :: cpu_info

section \<open>Parsers\<close>

text \<open>A parsed \<^verbatim>\<open>f64\<close> as far as the code tells them apart; a finite one that is not negative comes
  with the duration it is converted to.\<close>

datatype f64 = NotFinite | NegativeSecs | Secs duration

definition parse_uptime :: "(string \<Rightarrow> f64 option) \<Rightarrow> string \<Rightarrow> sysinfo_error + duration" where
  "parse_uptime parse_f64 text = (case split_whitespace text of
     [] \<Rightarrow> Inl (SysParse ''/proc/uptime'' ''empty file'')
   | token # _ \<Rightarrow> (case parse_f64 token of
       None \<Rightarrow> Inl (SysParse ''/proc/uptime'' (''`'' @ token @ ''` is not a number''))
     | Some (Secs s) \<Rightarrow> Inr s
     | Some _ \<Rightarrow> Inl (SysParse ''/proc/uptime'' (''`'' @ token @ ''` is not a valid duration''))))"

text \<open>The field a line of \<^verbatim>\<open>/proc/meminfo\<close> contributes.\<close>

definition meminfo_field :: "string \<Rightarrow> (string \<times> u64) option" where
  "meminfo_field line = (case split_once (CHR '':'') line of
     None \<Rightarrow> None
   | Some (key, rest) \<Rightarrow> (case split_whitespace rest of
       [] \<Rightarrow> None
     | v # _ \<Rightarrow> map_option (Pair (trim key)) (parse_u64 v)))"

definition meminfo_fields :: "string \<Rightarrow> (string, u64) map" where
  "meminfo_fields text = map_of (rev (List.map_filter meminfo_field (lines text)))"

definition or_else :: "'a option \<Rightarrow> 'a \<Rightarrow> 'a" where
  "or_else x d = (case x of Some y \<Rightarrow> y | None \<Rightarrow> d)"

definition parse_meminfo :: "string \<Rightarrow> sysinfo_error + memory_info" where
  "parse_meminfo text =
     (let m = meminfo_fields text
      in case m ''MemTotal'' of
           None \<Rightarrow> Inl (SysParse ''/proc/meminfo'' ''MemTotal is missing'')
         | Some tot \<Rightarrow>
             let free = or_else (m ''MemFree'') 0;
                 available = or_else (m ''MemAvailable'') free;
                 swap_total = or_else (m ''SwapTotal'') 0;
                 swap_free = or_else (m ''SwapFree'') 0
             in Inr (from_fields (tot * 1024) (available * 1024) (free * 1024)
                      (swap_total * 1024) (swap_free * 1024)))"

fun unescape :: "string \<Rightarrow> string" where
  "unescape [] = []"
| "unescape [c] = [c]"
| "unescape (c # d # r) = (if c = CHR 0x5C then d # unescape r else c # unescape (d # r))"

definition unquote :: "string \<Rightarrow> string" where
  "unquote value =
     (if 2 \<le> length value \<and> hd value = CHR 0x22 \<and> last value = CHR 0x22
      then unescape (butlast (tl value))
      else if 2 \<le> length value \<and> hd value = CHR 0x27 \<and> last value = CHR 0x27
      then butlast (tl value)
      else value)"

definition os_release_field :: "string \<Rightarrow> (string \<times> string) option" where
  "os_release_field line =
     (let line = trim line
      in if line = [] \<or> hd line = CHR ''#'' then None
         else map_option (\<lambda>(k, v). (trim k, unquote (trim v))) (split_once (CHR ''='') line))"

definition parse_os_release :: "string \<Rightarrow> os_info" where
  "parse_os_release text =
     (let get = map_of (rev (List.map_filter os_release_field (lines text)))
      in \<lparr>os_id = or_else (get ''ID'') ''unknown'', os_name = get ''NAME'',
          os_pretty_name = get ''PRETTY_NAME'', os_version = get ''VERSION'',
          os_version_id = get ''VERSION_ID'',
          os_id_like = (case get ''ID_LIKE'' of Some v \<Rightarrow> split_whitespace v | None \<Rightarrow> []),
          os_home_url = get ''HOME_URL''\<rparr>)"

text \<open>One turn of the loop over \<^verbatim>\<open>/proc/cpuinfo\<close>; the state is the model, the count of processors and
  the number of cores.\<close>

definition cpuinfo_line ::
  "string \<Rightarrow> string option \<times> nat \<times> nat option \<Rightarrow> string option \<times> nat \<times> nat option" where
  "cpuinfo_line line = (\<lambda>(model, logical, physical). case split_once (CHR '':'') line of
     None \<Rightarrow> (model, logical, physical)
   | Some (key, value) \<Rightarrow>
       let key = trim key; value = trim value
       in if key = ''processor'' then (model, logical + 1, physical)
          else if key \<in> set [''model name'', ''Model'', ''Hardware'', ''cpu model'']
          then (if model = None \<and> value \<noteq> [] then Some value else model, logical, physical)
          else if key = ''cpu cores'' \<and> physical = None
          then (model, logical, parse_uint usize_max value)
          else (model, logical, physical))"

definition parse_cpuinfo :: "string \<Rightarrow> cpu_info" where
  "parse_cpuinfo text = (case fold cpuinfo_line (lines text) (None, 0, None) of
     (model, logical, physical) \<Rightarrow>
       \<lparr>ci_model = model, ci_physical_cores = physical,
        ci_logical_cores = (if 0 < logical then Some logical else None)\<rparr>)"

text \<open>\<^verbatim>\<open>collect\<close>: which files are needed and which may be missing.\<close>

definition sysinfo_collect ::
  "(string \<Rightarrow> f64 option) \<Rightarrow> string \<Rightarrow> (path \<Rightarrow> string + string) \<Rightarrow> sysinfo_error + system_info" where
  "sysinfo_collect parse_f64 arch rd =
     (let need = (\<lambda>p. map_err (SysIo p) (rd p))
      in case need ''/proc/sys/kernel/hostname'' of Inl e \<Rightarrow> Inl e
      | Inr h \<Rightarrow>
        let hostname = trim h
        in if hostname = [] then Inl (SysParse ''/proc/sys/kernel/hostname'' ''hostname is empty'')
        else
          let name = (case rd ''/proc/sys/kernel/ostype'' of Inr s \<Rightarrow> trim s | Inl _ \<Rightarrow> ''Linux'')
          in case need ''/proc/sys/kernel/osrelease'' of Inl e \<Rightarrow> Inl e
          | Inr release \<Rightarrow>
            let version = trim (case rd ''/proc/sys/kernel/version'' of Inr s \<Rightarrow> s | Inl _ \<Rightarrow> [])
            in case need ''/proc/uptime'' of Inl e \<Rightarrow> Inl e
            | Inr u \<Rightarrow> (case parse_uptime parse_f64 u of Inl e \<Rightarrow> Inl e
              | Inr uptime \<Rightarrow> (case need ''/proc/meminfo'' of Inl e \<Rightarrow> Inl e
                | Inr mi \<Rightarrow> (case parse_meminfo mi of Inl e \<Rightarrow> Inl e
                  | Inr memory \<Rightarrow> Inr
                     \<lparr>si_hostname = hostname,
                      si_os = (case rd ''/etc/os-release'' of Inr t \<Rightarrow> parse_os_release t | Inl _ \<Rightarrow> os_info_unknown),
                      si_kernel = \<lparr>ki_name = name, ki_release = trim release, ki_version = version\<rparr>,
                      si_architecture = from_machine arch, si_machine = arch, si_uptime = uptime,
                      si_memory = memory,
                      si_cpu = (case rd ''/proc/cpuinfo'' of Inr t \<Rightarrow> parse_cpuinfo t | Inl _ \<Rightarrow> cpu_info_default)\<rparr>))))"

text \<open>\<^verbatim>\<open>SystemInfo::collect\<close>, built for Linux or for something else, and \<^verbatim>\<open>Display\<close> of an architecture.\<close>

definition system_info_collect ::
  "bool \<Rightarrow> (string \<Rightarrow> f64 option) \<Rightarrow> string \<Rightarrow> (path \<Rightarrow> string + string) \<Rightarrow> sysinfo_error + system_info" where
  "system_info_collect linux parse_f64 arch rd =
     (if linux then sysinfo_collect parse_f64 arch rd else Inl NotSupported)"

definition architecture_display :: "architecture \<Rightarrow> string" where
  "architecture_display a = canonical a"

section \<open>Facts\<close>

text \<open>How a value is written between double quotes: the quote and the backslash are escaped.\<close>

fun escape :: "string \<Rightarrow> string" where
  "escape [] = []"
| "escape (c # s) = (if c = CHR 0x5C \<or> c = CHR 0x22 then [CHR 0x5C, c] else [c]) @ escape s"

lemma unescape_escape: "unescape (escape s) = s"
proof (induction s)
  case (Cons c s)
  then show ?case by (cases "escape s") auto
qed simp

lemma unquote_quoted: "unquote (CHR 0x22 # escape s @ [CHR 0x22]) = s"
  by (simp add: unquote_def butlast_append unescape_escape)

lemma canonical_from_machine:
  "a \<in> {X86_64, X86, Aarch64, Arm, Riscv64, Riscv32, Powerpc64, S390x} \<Longrightarrow> from_machine (canonical a) = a"
proof -
  have t: "trim (canonical a) = canonical a" if "a \<in> {X86_64, X86, Aarch64, Arm, Riscv64, Riscv32, Powerpc64, S390x}" for a
    by (rule trim_plain) (use that in \<open>auto simp: plain_char_def\<close>)
  have l: "to_ascii_lowercase (canonical a) = canonical a" if "a \<in> {X86_64, X86, Aarch64, Arm, Riscv64, Riscv32, Powerpc64, S390x}" for a
    using that by (auto simp: to_ascii_lowercase_def to_ascii_lower_def is_ascii_uppercase_def)
  show "a \<in> {X86_64, X86, Aarch64, Arm, Riscv64, Riscv32, Powerpc64, S390x} \<Longrightarrow> from_machine (canonical a) = a"
    using t [of a] l [of a] by (auto simp: from_machine_def)
qed

section \<open>Properties\<close>

text \<open>Values of \<^verbatim>\<open>os-release\<close> written between double quotes with quotes and backslashes escaped, or
  between single quotes, are read back exactly, whatever bytes they hold.\<close>

theorem os_release_quoting:
  "unquote (CHR 0x22 # escape s @ [CHR 0x22]) = s \<and> unquote (CHR 0x27 # s @ [CHR 0x27]) = s"
  by (simp add: unquote_quoted) (simp add: unquote_def butlast_append)

text \<open>Memory numbers that fit 64 bits in bytes are converted without loss, used memory never exceeds the
  total, and is total minus available whenever available does not exceed the total.\<close>

theorem parse_meminfo_exact:
  assumes fields: "meminfo_fields text ''MemTotal'' = Some tot" "meminfo_fields text ''MemAvailable'' = Some avail"
    and fit: "unat tot * 1024 \<le> u64_max" "unat avail * 1024 \<le> u64_max"
  shows "\<exists>m. parse_meminfo text = Inr m \<and> unat (mi_total_bytes m) = unat tot * 1024 \<and>
     unat (mi_available_bytes m) = unat avail * 1024 \<and>
     unat (mi_used_bytes m) = unat tot * 1024 - unat avail * 1024 \<and>
     unat (mi_swap_used_bytes m) \<le> unat (mi_swap_total_bytes m)"
proof -
  have mult: "unat (x * 1024) = unat x * 1024" if "unat x * 1024 \<le> u64_max" for x :: u64
    using that by (simp add: unat_word_ariths u64_max_def)
  have sub: "unat (saturating_sub a b) = unat a - unat b" for a b
    by (auto simp: saturating_sub_def unat_sub word_le_nat_alt)
  show ?thesis
    by (simp add: parse_meminfo_def fields or_else_def from_fields_def mult fit sub Let_def)
qed

theorem parse_meminfo_exact_witness:
  "\<exists>m. parse_meminfo (''MemTotal: 2 kB'' @ [CHR 0x0A] @ ''MemAvailable: 1 kB'') = Inr m \<and>
     unat (mi_used_bytes m) = 1024"
proof -
  let ?t = "''MemTotal: 2 kB'' @ [CHR 0x0A] @ ''MemAvailable: 1 kB''"
  have l: "lines ?t = [''MemTotal: 2 kB'', ''MemAvailable: 1 kB'']"
    by (simp add: lines_def strip_cr_def)
  have t: "trim ''MemTotal'' = ''MemTotal''" "trim ''MemAvailable'' = ''MemAvailable''"
    by (rule trim_plain; simp add: plain_char_def)+
  have "split_whitespace '' 2 kB'' = [''2'', ''kB'']" "split_whitespace '' 1 kB'' = [''1'', ''kB'']"
    by (simp_all add: split_whitespace_def ws_len_by_def ws1_def ws2_def ws3_def)
  then have "List.map_filter meminfo_field (lines ?t) = [(''MemTotal'', 2), (''MemAvailable'', 1)]"
    unfolding l
    by (simp add: List.map_filter_def meminfo_field_def t parse_u64_def parse_uint_def is_ascii_digit_def
        digits_val_def digit_val_def u64_max_def)
  then have "meminfo_fields ?t ''MemTotal'' = Some 2" "meminfo_fields ?t ''MemAvailable'' = Some 1"
    by (simp_all add: meminfo_fields_def)
  from parse_meminfo_exact [OF this] show ?thesis by (fastforce simp: u64_max_def)
qed

end
