(* ===== verification/Api.thy ===== *)
theory Api
  imports Update Sysinfo
begin

text \<open>
  \<^verbatim>\<open>crates/abora-api\<close>: the response and error types of the HTTP API, the status of every error code
  and the joining of a base path with a resource.
\<close>

record api_version_info =
  avi_name :: string
  avi_path :: string

definition api_version_current :: api_version_info where
  "api_version_current = \<lparr>avi_name = API_VERSION, avi_path = API_PATH_PREFIX\<rparr>"

record daemon_info =
  di_name :: string
  di_version :: version

definition daemon_info_current :: daemon_info where
  "daemon_info_current = \<lparr>di_name = DAEMON_NAME, di_version = version_current\<rparr>"

datatype health_status = HealthOk | Degraded | Maintenance

record component_health =
  ch_name :: string
  ch_status :: health_status
  ch_detail :: "string option"

record health_response =
  hr_status :: health_status
  hr_daemon :: daemon_info
  hr_api :: api_version_info
  hr_uptime_seconds :: nat
  hr_started_at :: string
  hr_components :: "component_health list"

record version_response =
  vr_framework_name :: string
  vr_framework_version :: version
  vr_daemon :: daemon_info
  vr_api :: api_version_info
  vr_git_commit :: "string option"

record system_response =
  sy_hostname :: string
  sy_description :: "string option"
  sy_hostname_override :: "string option"
  sy_architecture :: architecture
  sy_machine :: string
  sy_uptime_seconds :: nat
  sy_os :: os_info
  sy_kernel :: kernel_info
  sy_memory :: memory_info
  sy_cpu :: cpu_info
  sy_framework_version :: version

datatype service_state = Running | Stopped | FailedState | Activating | Deactivating | UnknownState

record service_status =
  ss_name :: string
  ss_state :: service_state
  ss_enabled :: "bool option"
  ss_description :: "string option"

record service_detail =
  svd_name :: string
  svd_load_state :: string
  svd_active_state :: string
  svd_sub_state :: string
  svd_enabled :: "bool option"
  svd_description :: "string option"
  svd_fragment_path :: "string option"
  svd_exec_start :: "string option"
  svd_main_pid :: "u64 option"
  svd_memory_bytes :: "u64 option"

record schedule_info =
  sch_check_interval_seconds :: nat
  sch_in_maintenance_window :: "bool option"
  sch_apply_permitted :: bool
  sch_installs_permitted :: bool
  sch_reboot_permitted :: bool

record apply_response =
  apr_dry_run :: bool
  apr_permitted :: bool
  apr_reason :: "string option"
  apr_id :: "string option"
  apr_packages :: "string list"

record updates_response =
  ur_status :: "update_status option"
  ur_last_check :: "string option"
  ur_reboot :: reboot_status
  ur_schedule :: "schedule_info option"
  ur_available :: "available_update list"
  ur_history :: "update_history_entry list"

datatype error_code =
    InvalidRequest | Unauthorized | Forbidden | CodeNotFound | CodeConflict | CodeNotImplemented
  | ServiceUnavailable | CodeInternal

fun http_status :: "error_code \<Rightarrow> nat" where
  "http_status InvalidRequest = 400"
| "http_status Unauthorized = 401"
| "http_status Forbidden = 403"
| "http_status CodeNotFound = 404"
| "http_status CodeConflict = 409"
| "http_status CodeNotImplemented = 501"
| "http_status ServiceUnavailable = 503"
| "http_status CodeInternal = 500"

record api_error_detail =
  ae_code :: error_code
  ae_message :: string
  ae_request_id :: "string option"

record api_error_body =
  aeb_error :: api_error_detail

definition error_body :: "error_code \<Rightarrow> string \<Rightarrow> api_error_body" where
  "error_body c m = \<lparr>aeb_error = \<lparr>ae_code = c, ae_message = m, ae_request_id = None\<rparr>\<rparr>"

definition with_request_id :: "string \<Rightarrow> api_error_body \<Rightarrow> api_error_body" where
  "with_request_id i b = b\<lparr>aeb_error := (aeb_error b)\<lparr>ae_request_id := Some i\<rparr>\<rparr>"

definition endpoint :: "string \<Rightarrow> string \<Rightarrow> string" where
  "endpoint base_path resource =
     trim_end_matches (CHR ''/'') base_path @ ''/'' @ trim_start_matches (CHR ''/'') resource"

lemma http_status_inj: "http_status a = http_status b \<longleftrightarrow> a = b"
  by (cases a; cases b) simp_all

lemma trim_end_matches_last: "trim_end_matches c s = [] \<or> last (trim_end_matches c s) \<noteq> c"
proof -
  have "dropWhile (\<lambda>x. x = c) r = [] \<or> hd (dropWhile (\<lambda>x. x = c) r) \<noteq> c" for r
    by (induction r) auto
  from this [of "rev s"] show ?thesis by (simp add: trim_end_matches_def last_rev)
qed

lemma trim_end_matches_id: "s = [] \<or> last s \<noteq> c \<Longrightarrow> trim_end_matches c s = s"
  by (cases s rule: rev_cases) (auto simp: trim_end_matches_def)

lemma trim_end_matches_snoc [simp]: "trim_end_matches c (s @ [c]) = trim_end_matches c s"
  by (simp add: trim_end_matches_def)

lemma endpoint_plain:
  assumes "resource \<noteq> []" "hd resource \<noteq> CHR ''/''" "base = [] \<or> last base \<noteq> CHR ''/''"
  shows "endpoint base resource = base @ ''/'' @ resource"
  using assms by (cases resource) (auto simp: endpoint_def trim_end_matches_id trim_start_matches_def)

text \<open>However many slashes end the base path and start the resource, exactly one joins them.\<close>

lemma endpoint_slashes:
  "endpoint (base @ replicate m (CHR ''/'')) (replicate n (CHR ''/'') @ resource) = endpoint base resource"
proof -
  have 1: "trim_end_matches (CHR ''/'') (base @ replicate m (CHR ''/'')) = trim_end_matches (CHR ''/'') base"
  proof (induction m)
    case (Suc m)
    have "base @ replicate (Suc m) (CHR ''/'') = (base @ replicate m (CHR ''/'')) @ [CHR ''/'']"
      by (simp add: replicate_append_same)
    with Suc show ?case by (simp only: trim_end_matches_snoc)
  qed simp
  have 2: "trim_start_matches (CHR ''/'') (replicate n (CHR ''/'') @ resource) = trim_start_matches (CHR ''/'') resource"
    by (induction n) (simp_all add: trim_start_matches_def)
  show ?thesis by (simp add: endpoint_def 1 2)
qed

end
