(* ===== verification/State.thy ===== *)
theory State
  imports HostProvider Apply Schedule Api
begin

text \<open>
  The update half of \<^verbatim>\<open>services/aborad/src/state.rs\<close>: the list found by the last check, the hand-over of
  an apply request to the root helper through a file and the intake of its result. Every operation
  takes and returns the state and the disk; the locks of the code are each held for one read or
  one write. JSON, clock, hasher, local time and apt are arguments.
\<close>

section \<open>State\<close>

datatype apply_refusal = RefConflict string | RefInternal string

record updates_state =
  ust_provider :: host_provider
  ust_available :: "available_update list"
  ust_schedule :: "schedule_info option"
  ust_request_file :: path
  ust_result_file :: path

definition updates_state_new :: "host_provider \<Rightarrow> path \<Rightarrow> path \<Rightarrow> updates_state" where
  "updates_state_new p request_file result_file = \<lparr>ust_provider = p, ust_available = [],
     ust_schedule = None, ust_request_file = request_file, ust_result_file = result_file\<rparr>"

definition updates_host :: "update_store \<Rightarrow> path \<Rightarrow> path \<Rightarrow> updates_state" where
  "updates_host s request_file result_file = updates_state_new (host_new s) request_file result_file"

abbreviation ust_store :: "updates_state \<Rightarrow> update_store" where
  "ust_store u \<equiv> hp_store (ust_provider u)"

text \<open>\<^verbatim>\<open>apply-\<close> and the hash as 16 hex digits.\<close>

definition hex16 :: "u64 \<Rightarrow> string" where
  "hex16 h = map (\<lambda>i. hex_digit (unat h div 16 ^ (15 - i) mod 16)) [0..<16]"

definition new_request_id :: "u64 \<Rightarrow> string" where
  "new_request_id h = ''apply-'' @ hex16 h"

section \<open>Operations\<close>

definition refresh ::
  "serialiser \<Rightarrow> io_env \<Rightarrow> runner \<Rightarrow> string \<Rightarrow> channel \<Rightarrow> updates_state \<times> disk \<Rightarrow>
   (string + nat) \<times> updates_state \<times> disk" where
  "refresh ser env run now ch = (\<lambda>(u, d).
     (case host_check ser env run now ch (ust_provider u, d) of
        (Inl e, p, d') \<Rightarrow> (Inl (update_error_display e), u\<lparr>ust_provider := p\<rparr>, d')
      | (Inr found, p, d') \<Rightarrow>
          (Inr (length (aus_updates found)),
           u\<lparr>ust_provider := p, ust_available := aus_updates found\<rparr>, d')))"

definition set_schedule :: "schedule_info \<Rightarrow> updates_state \<Rightarrow> updates_state" where
  "set_schedule info u = u\<lparr>ust_schedule := Some info\<rparr>"

definition updates_health :: "updates_state \<Rightarrow> component_health" where
  "updates_health u =
     (let (status, detail) = (case host_status (ust_provider u) of
            Inr (StatusError message) \<Rightarrow> (Degraded, Some message)
          | Inl e \<Rightarrow> (HealthOk, Some (update_error_display e))
          | Inr _ \<Rightarrow> (HealthOk, None))
      in \<lparr>ch_name = ''updates'', ch_status = status, ch_detail = detail\<rparr>)"

definition apply_pending :: "io_env \<Rightarrow> updates_state \<Rightarrow> disk \<Rightarrow> bool \<times> disk" where
  "apply_pending env u d = lstat_ok env (ust_request_file u) d"

definition updates_response_of ::
  "serialiser \<Rightarrow> io_env \<Rightarrow> reboot_marker \<Rightarrow> string \<Rightarrow> updates_state \<times> disk \<Rightarrow>
   updates_response \<times> updates_state \<times> disk" where
  "updates_response_of ser env marker now = (\<lambda>(u, d).
     (case apply_pending env u d of (pending, d) \<Rightarrow>
       let status = (if pending then Some (Installing ''host packages'' None)
                     else result_ok (host_status (ust_provider u)));
           last_check = store_last_check (ust_store u)
       in (case host_reboot_required ser env marker now (ust_provider u, d) of (rb, p, d) \<Rightarrow>
         let u = u\<lparr>ust_provider := p\<rparr>
         in (\<lparr>ur_status = status, ur_last_check = last_check,
              ur_reboot = (case rb of Inr r \<Rightarrow> r | Inl _ \<Rightarrow> store_reboot (ust_store u)),
              ur_schedule = ust_schedule u, ur_available = ust_available u,
              ur_history = store_history (ust_store u)\<rparr>, u, d))))"

definition apply_inputs :: "io_env \<Rightarrow> updates_state \<Rightarrow> disk \<Rightarrow> (bool \<times> bool) \<times> disk" where
  "apply_inputs env u d = (case apply_pending env u d of
     (pending, d') \<Rightarrow> ((ust_available u \<noteq> [], pending), d'))"

definition packages_of :: "updates_state \<Rightarrow> string list" where
  "packages_of u = remdups_adj (sort (map au_component (ust_available u)))"

definition ALREADY_APPLYING :: string where
  "ALREADY_APPLYING = ''an update is already being applied''"
definition NOTHING_AVAILABLE :: string where
  "NOTHING_AVAILABLE = ''no updates are available; the last check found nothing''"
definition CLOSED_WINDOW :: string where
  "CLOSED_WINDOW = ''updates may only be applied inside a maintenance window ([maintenance] enabled, and the '' @
     ''local time inside a window)''"

definition apply_block :: "bool \<Rightarrow> string list \<Rightarrow> bool \<Rightarrow> string option" where
  "apply_block pending packages permitted =
     (if pending then Some ALREADY_APPLYING
      else if packages = [] then Some NOTHING_AVAILABLE
      else if \<not> permitted then Some CLOSED_WINDOW
      else None)"

text \<open>What one call of \<^verbatim>\<open>request_apply\<close> takes from outside: the hash for the id, the clock, the local
  time.\<close>

record apply_world =
  aw_hash :: u64
  aw_now :: string
  aw_local_time :: "local_time option"

definition request_apply ::
  "(apply_request \<Rightarrow> string) \<Rightarrow> io_env \<Rightarrow> apply_world \<Rightarrow> 'x config \<Rightarrow> string \<Rightarrow> bool \<Rightarrow>
   updates_state \<Rightarrow> disk \<Rightarrow> (apply_refusal + apply_response) \<times> disk" where
  "request_apply to_vec env w cfg caller dry_run u d =
     (let packages = packages_of u;
          permitted = pm_apply_permitted (permissions_at cfg (aw_local_time w))
      in case apply_pending env u d of (pending, d) \<Rightarrow>
        let block = apply_block pending packages permitted
        in if dry_run then
             (Inr \<lparr>apr_dry_run = True, apr_permitted = (block = None), apr_reason = block,
                   apr_id = None, apr_packages = packages\<rparr>, d)
           else (case block of
             Some reason \<Rightarrow> (Inl (RefConflict reason), d)
           | None \<Rightarrow>
               let i = new_request_id (aw_hash w);
                   request = \<lparr>ar_id = i, ar_requested_at = aw_now w, ar_requested_by = caller,
                              ar_packages = packages\<rparr>
               in (case write_atomic env (ust_request_file u) (to_vec request) 384 d of
                     (Inl e, d') \<Rightarrow> (Inl (RefInternal (''could not write the apply request: '' @ e)), d')
                   | (Inr _, d') \<Rightarrow>
                       (Inr \<lparr>apr_dry_run = False, apr_permitted = True, apr_reason = None,
                             apr_id = Some i, apr_packages = packages\<rparr>, d'))))"

text \<open>The two parts of \<^verbatim>\<open>request_apply\<close> between which another thread can run: what it decides, and the write.\<close>

definition request_decide ::
  "io_env \<Rightarrow> apply_world \<Rightarrow> 'x config \<Rightarrow> string \<Rightarrow> updates_state \<Rightarrow> disk \<Rightarrow> (string + apply_request) \<times> disk" where
  "request_decide env w cfg caller u d =
     (let packages = packages_of u;
          permitted = pm_apply_permitted (permissions_at cfg (aw_local_time w))
      in case apply_pending env u d of (pending, d') \<Rightarrow>
        (case apply_block pending packages permitted of
           Some reason \<Rightarrow> Inl reason
         | None \<Rightarrow> Inr \<lparr>ar_id = new_request_id (aw_hash w), ar_requested_at = aw_now w, ar_requested_by = caller,
             ar_packages = packages\<rparr>, d'))"

definition request_commit ::
  "(apply_request \<Rightarrow> string) \<Rightarrow> io_env \<Rightarrow> updates_state \<Rightarrow> apply_request \<Rightarrow> disk \<Rightarrow> (apply_refusal + apply_response) \<times> disk" where
  "request_commit to_vec env u q d = (case write_atomic env (ust_request_file u) (to_vec q) 384 d of
     (Inl e, d') \<Rightarrow> (Inl (RefInternal (''could not write the apply request: '' @ e)), d')
   | (Inr _, d') \<Rightarrow> (Inr \<lparr>apr_dry_run = False, apr_permitted = True, apr_reason = None,
        apr_id = Some (ar_id q), apr_packages = ar_packages q\<rparr>, d'))"

definition ingest_key :: "apply_result \<Rightarrow> string" where
  "ingest_key r = ''apply '' @ res_id r"

definition already_ingested :: "apply_result \<Rightarrow> update_history_entry list \<Rightarrow> bool" where
  "already_ingested r history \<longleftrightarrow>
     list_ex (\<lambda>h. case he_note h of Some n \<Rightarrow> prefix (ingest_key r) n | None \<Rightarrow> False) history"

definition ingest_note :: "apply_result \<Rightarrow> string" where
  "ingest_note r = ingest_key r @ '': '' @ show_nat (length (res_packages r)) @ '' package(s)'' @
     (case res_note r of Some extra \<Rightarrow> ''; '' @ extra | None \<Rightarrow> []) @
     (if res_reboot_started r then ''; reboot started'' else [])"

definition ingest_entry :: "channel \<Rightarrow> apply_result \<Rightarrow> update_history_entry" where
  "ingest_entry ch r = \<lparr>he_applied_at = res_finished_at r, he_from_version = version_new 0 0 0,
     he_to_version = version_new 0 0 0, he_channel = ch, he_component = ''host packages'',
     he_succeeded = res_succeeded r, he_note = Some (ingest_note r)\<rparr>"

definition ingest_apply_result ::
  "serialiser \<Rightarrow> (string \<Rightarrow> apply_result option) \<Rightarrow> (disk \<Rightarrow> disk) \<Rightarrow> io_env \<Rightarrow> channel \<Rightarrow>
   updates_state \<times> disk \<Rightarrow> bool \<times> updates_state \<times> disk" where
  "ingest_apply_result ser from_slice between env ch = (\<lambda>(u, d).
     (case read_regular_file env between (ust_result_file u) None d of
        (Inl _, d) \<Rightarrow> (False, u, d)
      | (Inr bytes, d) \<Rightarrow> (case from_slice bytes of
          None \<Rightarrow> (False, u, d)
        | Some r \<Rightarrow>
            if \<not> valid_request_id (res_id r) \<and> res_id r \<noteq> ''invalid'' then (False, u, d)
            else if already_ingested r (store_history (ust_store u)) then (False, u, d)
            else (case record_update ser env (ingest_entry ch r) (ust_store u) d of (w, s, d) \<Rightarrow>
              let recorded = (case w of Inr _ \<Rightarrow> True | Inl _ \<Rightarrow> False);
                  p = (ust_provider u)\<lparr>hp_store := s\<rparr>;
                  available = (if recorded \<and> res_succeeded r
                    then filter (\<lambda>a. au_component a \<notin> set (res_packages r)) (ust_available u)
                    else ust_available u)
              in (recorded, u\<lparr>ust_provider := p, ust_available := available\<rparr>, d)))))"

section \<open>Facts\<close>

lemma length_hex16 [simp]: "length (hex16 h) = 16"
  by (simp add: hex16_def)

lemma hex16_alnum: "c \<in> set (hex16 h) \<Longrightarrow> is_ascii_alphanumeric c"
  by (auto simp: hex16_def intro: hex_digit_alnum)

lemma new_request_id_valid: "valid_request_id (new_request_id h)"
proof -
  have "list_all request_id_char (hex16 h)"
    by (auto simp: list_all_iff request_id_char_def intro: hex16_alnum)
  moreover have "list_all request_id_char ''apply-''"
    by (simp add: request_id_char_def str_defs)
  ultimately show ?thesis by (simp add: valid_request_id_def new_request_id_def)
qed

lemma hex16_inj: "hex16 a = hex16 b \<longleftrightarrow> a = b"
proof
  assume e: "hex16 a = hex16 b"
  have inj: "hex_digit x = hex_digit y \<Longrightarrow> x < 16 \<Longrightarrow> y < 16 \<Longrightarrow> x = y" for x y
    by (metis from_hex_digit_hex_digit option.inject)
  have dig: "unat a div 16 ^ k mod 16 = unat b div 16 ^ k mod 16" if "k < 16" for k
  proof -
    have "hex16 a ! (15 - k) = hex16 b ! (15 - k)" using e by simp
    then have "hex_digit (unat a div 16 ^ k mod 16) = hex_digit (unat b div 16 ^ k mod 16)"
      using that nth_upt [of 0 "15 - k" 16] by (simp add: hex16_def)
    then show ?thesis by (rule inj) simp_all
  qed
  have "unat a mod 16 ^ k = unat b mod 16 ^ k" if "k \<le> 16" for k
    using that
  proof (induction k)
    case (Suc k)
    then show ?case using dig [of k]
      by (simp only: power_Suc2 mod_mult2_eq)
  qed simp
  from this [of 16] have "unat a = unat b"
    using unsigned_less [of a, where ?'a = nat] unsigned_less [of b, where ?'a = nat] by simp
  then show "a = b" by (rule word_unat_eq_iff [THEN iffD2])
qed simp

lemma packages_of_props: "sorted (packages_of u)" "distinct (packages_of u)"
  "set (packages_of u) = au_component ` set (ust_available u)"
  by (simp_all add: packages_of_def remdups_adj_sorted_distinct)

text \<open>Everything in the list has a valid package name; the invariant of the state.\<close>

definition available_valid :: "updates_state \<Rightarrow> bool" where
  "available_valid u \<longleftrightarrow> (\<forall>a \<in> set (ust_available u). valid_package_name (au_component a))"

lemma available_valid_new: "available_valid (updates_state_new p f g)"
  by (simp add: available_valid_def updates_state_new_def)

lemma available_valid_refresh:
  "available_valid u \<Longrightarrow> refresh ser env run now ch (u, d) = (r, u', d') \<Longrightarrow> available_valid u'"
  using host_check_valid [of ser env run now ch]
  by (fastforce simp: refresh_def available_valid_def split: prod.splits sum.splits)

lemma available_valid_ingest:
  "available_valid u \<Longrightarrow> ingest_apply_result ser fs' btw env ch (u, d) = (r, u', d') \<Longrightarrow> available_valid u'"
  by (auto simp: ingest_apply_result_def available_valid_def Let_def
      split: prod.splits sum.splits option.splits if_splits)

lemma ingest_note_key: "prefix (ingest_key r) (ingest_note r)"
  by (simp add: ingest_note_def)

lemma ingest_entry_key: "already_ingested r (h @ ingest_entry ch r # t)"
  by (simp add: already_ingested_def ingest_entry_def ingest_note_key)

lemma request_apply_parts:
  "request_apply to_vec env w cfg caller False u d = (case request_decide env w cfg caller u d of
     (Inl reason, d') \<Rightarrow> (Inl (RefConflict reason), d')
   | (Inr q, d') \<Rightarrow> request_commit to_vec env u q d')"
  by (auto simp: request_apply_def request_decide_def request_commit_def Let_def split: prod.split option.split sum.split)

lemma request_apply_cases:
  assumes "request_apply to_vec env w cfg caller dry u d = (r, d')"
  obtains (dry) "dry" "d' = snd (apply_pending env u d)"
      "r = Inr \<lparr>apr_dry_run = True,
        apr_permitted = (apply_block (fst (apply_pending env u d)) (packages_of u)
          (pm_apply_permitted (permissions_at cfg (aw_local_time w))) = None),
        apr_reason = apply_block (fst (apply_pending env u d)) (packages_of u)
          (pm_apply_permitted (permissions_at cfg (aw_local_time w))),
        apr_id = None, apr_packages = packages_of u\<rparr>"
  | (blocked) reason where "\<not> dry" "r = Inl (RefConflict reason)" "d' = snd (apply_pending env u d)"
      "apply_block (fst (apply_pending env u d)) (packages_of u)
          (pm_apply_permitted (permissions_at cfg (aw_local_time w))) = Some reason"
  | (failed) e where "\<not> dry" "r = Inl (RefInternal (''could not write the apply request: '' @ e))"
      "apply_block (fst (apply_pending env u d)) (packages_of u)
          (pm_apply_permitted (permissions_at cfg (aw_local_time w))) = None"
      "write_atomic env (ust_request_file u) (to_vec \<lparr>ar_id = new_request_id (aw_hash w),
         ar_requested_at = aw_now w, ar_requested_by = caller, ar_packages = packages_of u\<rparr>) 384
         (snd (apply_pending env u d)) = (Inl e, d')"
  | (written) "\<not> dry" "r = Inr \<lparr>apr_dry_run = False, apr_permitted = True, apr_reason = None,
         apr_id = Some (new_request_id (aw_hash w)), apr_packages = packages_of u\<rparr>"
      "apply_block (fst (apply_pending env u d)) (packages_of u)
          (pm_apply_permitted (permissions_at cfg (aw_local_time w))) = None"
      "write_atomic env (ust_request_file u) (to_vec \<lparr>ar_id = new_request_id (aw_hash w),
         ar_requested_at = aw_now w, ar_requested_by = caller, ar_packages = packages_of u\<rparr>) 384
         (snd (apply_pending env u d)) = (Inr (), d')"
  using assms
  by (auto simp: request_apply_def Let_def split: prod.splits option.splits sum.splits if_splits)

section \<open>Properties\<close>

inductive ust_reach :: "updates_state \<times> disk \<Rightarrow> updates_state \<times> disk \<Rightarrow> bool" where
  reach_refl: "ust_reach s s"
| reach_refresh: "ust_reach s (u, d) \<Longrightarrow> refresh ser env run now ch (u, d) = (r, u', d') \<Longrightarrow> ust_reach s (u', d')"
| reach_schedule: "ust_reach s (u, d) \<Longrightarrow> ust_reach s (set_schedule info u, d)"
| reach_ingest: "ust_reach s (u, d) \<Longrightarrow> ingest_apply_result ser fs' btw env ch (u, d) = (b, u', d') \<Longrightarrow>
    ust_reach s (u', d')"
| reach_world: "ust_reach s (u, d) \<Longrightarrow> ust_reach s (u, d')"

inductive_cases ust_reach_E: "ust_reach s (u, d)"

lemma ust_reach_valid: "ust_reach s t \<Longrightarrow> available_valid (fst s) \<Longrightarrow> available_valid (fst t)"
proof (induction rule: ust_reach.induct)
  case (reach_refresh s u d ser env run now ch r u' d')
  then show ?case using available_valid_refresh by auto
next
  case (reach_schedule s u d info)
  then show ?case by (simp add: available_valid_def set_schedule_def)
next
  case (reach_ingest s u d ser fs' btw env ch b u' d')
  then show ?case using available_valid_ingest by auto
qed simp_all

text \<open>C16. Every state an \<^verbatim>\<open>UpdatesState\<close> can reach, from the empty one through checks (with any output of
  apt), schedule changes and intake of results (with any file content), lists only updates whose
  component is a valid package name.\<close>

theorem reachable_names_valid:
  assumes "ust_reach (updates_host s rf resf, d0) (u, d)"
  shows "sorted (packages_of u) \<and> distinct (packages_of u) \<and>
     (\<forall>p \<in> set (packages_of u). valid_package_name p \<and> p \<in> au_component ` set (ust_available u))"
proof -
  have "available_valid u"
    using ust_reach_valid [OF assms] by (simp add: updates_host_def available_valid_new)
  then show ?thesis by (auto simp: packages_of_props available_valid_def)
qed

theorem reachable_names_valid_witness:
  "\<exists>u d. ust_reach (updates_host in_memory ''q'' ''r'', disk_of Map.empty) (u, d) \<and> packages_of u = [''a'']"
proof -
  let ?s = "(updates_host in_memory ''q'' ''r'', disk_of Map.empty)"
  obtain r u d where "refresh (\<lambda>_. []) (\<lambda>_. None) one_upgrade ''t'' Stable ?s = (r, u, d)" "packages_of u = [''a'']"
    by (simp add: refresh_def host_check_def one_upgrade_def parse_one_upgrade updates_host_def
        updates_state_new_def host_new_def set_last_def record_check_def store_change_def in_memory_def
        store_trim_def store_data_default_def packages_of_def update_of_def)
  then have u: "ust_reach ?s (u, d)" "packages_of u = [''a'']"
    by (auto intro: reach_refresh reach_refl)
  from reachable_names_valid [OF u(1)] u show ?thesis by blast
qed


text \<open>C10. What is handed to the helper. When a request is accepted, the request file holds, complete, a
  request that passes the helper's validation and whose packages are those just reported, provided
  there are at most 2000 of them; when it is not accepted the file is as before.\<close>

theorem request_apply_handover:
  assumes "available_valid u" and "\<not> is_symlink (dk_fs d) (tmp_path (ust_request_file u))"
    and "length (packages_of u) \<le> 2000"
    and "request_apply to_vec env w cfg caller False u d = (r, d')"
  shows "case r of
      Inr a \<Rightarrow> (\<exists>q. content (dk_fs d') (ust_request_file u) = Some (to_vec q) \<and>
        validate_request q = Inr () \<and> ar_packages q = apr_packages a \<and> apr_id a = Some (ar_id q) \<and>
        ar_requested_by q = caller)
    | Inl _ \<Rightarrow> dk_fs d' (ust_request_file u) = dk_fs d (ust_request_file u)"
proof -
  let ?d = "snd (apply_pending env u d)"
  have fs: "dk_fs ?d = dk_fs d" by (simp add: apply_pending_def)
  have nl: "no_link (ust_request_file u) ?d" using assms(2) by (simp add: no_link_def fs)
  from assms(4) show ?thesis
  proof (cases rule: request_apply_cases)
    case (blocked reason)
    then show ?thesis by (simp add: fs)
  next
    case (failed e)
    then show ?thesis using wa.wr_err [OF nl failed(4)] by (simp add: fs)
  next
    case written
    let ?q = "\<lparr>ar_id = new_request_id (aw_hash w), ar_requested_at = aw_now w,
        ar_requested_by = caller, ar_packages = packages_of u\<rparr>"
    have "packages_of u \<noteq> []" using written(3) by (auto simp: apply_block_def split: if_splits)
    then have "validate_request ?q = Inr ()"
      using assms(1,3) by (auto simp: validate_request_ok new_request_id_valid MAX_PACKAGES_def
          list_all_iff packages_of_props available_valid_def)
    moreover have "content (dk_fs d') (ust_request_file u) = Some (to_vec ?q)"
      by (rule wa.wr_ok [OF nl written(4)])
    ultimately show ?thesis using written(2) by (auto intro!: exI [of _ ?q])
  qed simp
qed

lemma request_apply_content:
  assumes "request_apply to_vec env w cfg caller False u d = (Inr a, d')"
    and "\<not> is_symlink (dk_fs d) (tmp_path (ust_request_file u))"
  shows "\<exists>q. content (dk_fs d') (ust_request_file u) = Some (to_vec q)"
proof -
  have nl: "no_link (ust_request_file u) (snd (apply_pending env u d))"
    using assms(2) by (simp add: no_link_def apply_pending_def)
  from assms(1) show ?thesis
    by (cases rule: request_apply_cases) (auto dest: wa.wr_ok [OF nl])
qed

section \<open>Concrete states\<close>

definition one_available :: updates_state where
  "one_available = (updates_host in_memory ''q'' ''r'')\<lparr>ust_available :=
     [update_of Stable \<lparr>pu_name = ''a'', pu_from = None, pu_to = ''1'', pu_source = ''s''\<rparr>]\<rparr>"

definition sunday_world :: apply_world where
  "sunday_world = \<lparr>aw_hash = 7, aw_now = ''t'', aw_local_time = Some sunday_3am\<rparr>"

lemma one_available_facts:
  "available_valid one_available" "packages_of one_available = [''a'']" "ust_available one_available \<noteq> []"
  "ust_request_file one_available = ''q''"
  by (simp_all add: one_available_def available_valid_def update_of_def packages_of_def valid_package_name_def
      package_char_def str_defs updates_host_def updates_state_new_def)

lemma sunday_apply_permitted: "pm_apply_permitted (permissions_at sunday_config (aw_local_time sunday_world))"
  using sunday_3am_open
  by (simp add: permissions_at_simps in_window_open_minutes sunday_world_def sunday_config_def sunday_3am_def)

text \<open>A request that nothing stands against is accepted when no call fails.\<close>

lemma request_apply_accepted:
  assumes "dk_fs d (ust_request_file u) = None"
    and "replaceable (ust_request_file u) d"
    and "packages_of u \<noteq> []" "pm_apply_permitted (permissions_at cfg (aw_local_time w))"
  shows "\<exists>a d'. request_apply to_vec (\<lambda>_. None) w cfg caller False u d = (Inr a, d') \<and> apr_packages a = packages_of u"
proof -
  obtain d' where "write_atomic (\<lambda>_. None) (ust_request_file u) (to_vec \<lparr>ar_id = new_request_id (aw_hash w),
       ar_requested_at = aw_now w, ar_requested_by = caller, ar_packages = packages_of u\<rparr>) 384
       (d\<lparr>dk_calls := Suc (dk_calls d)\<rparr>) = (Inr (), d')"
    using replace_file_quiet [of "ust_request_file u" "d\<lparr>dk_calls := Suc (dk_calls d)\<rparr>"] assms(2)
    by (auto simp: write_atomic_replace replaceable_def no_link_def)
  then show ?thesis
    using assms by (simp add: request_apply_def apply_pending_def lstat_ok_def apply_block_def Let_def)
qed

lemma request_apply_q:
  "\<exists>a d'. request_apply to_vec (\<lambda>_. None) sunday_world sunday_config ''ops'' False one_available (disk_of Map.empty)
     = (Inr a, d') \<and> apr_packages a = [''a'']"
  using request_apply_accepted [OF _ _ _ sunday_apply_permitted, of "disk_of Map.empty" one_available to_vec "''ops''"]
  by (simp add: one_available_facts disk_of_def replaceable_def no_link_def is_symlink_def)


theorem request_apply_handover_witness:
  "\<exists>a d' q. request_apply (\<lambda>q. ar_id q) (\<lambda>_. None) sunday_world sunday_config ''ops'' False one_available (disk_of Map.empty)
     = (Inr a, d') \<and> content (dk_fs d') ''q'' = Some (ar_id q) \<and> validate_request q = Inr () \<and> ar_packages q = [''a'']"
proof -
  obtain a d' where a: "request_apply (\<lambda>q. ar_id q) (\<lambda>_. None) sunday_world sunday_config ''ops'' False
      one_available (disk_of Map.empty) = (Inr a, d')" "apr_packages a = [''a'']"
    using request_apply_q by blast
  have "\<not> is_symlink (dk_fs (disk_of Map.empty)) (tmp_path (ust_request_file one_available))"
    "length (packages_of one_available) \<le> 2000"
    by (simp_all add: is_symlink_def disk_of_def one_available_facts)
  from request_apply_handover [OF one_available_facts(1) this a(1)] a one_available_facts(4)
  show ?thesis by auto
qed

section \<open>Taking in results\<close>

lemma ingest_known:
  assumes "fst (read_regular_file env btw (ust_result_file u) None d) = Inr bs"
    and "from_slice bs = Some r" "already_ingested r (store_history (ust_store u))"
  shows "\<exists>d'. ingest_apply_result ser from_slice btw env ch (u, d) = (False, u, d')"
proof -
  obtain d' where "read_regular_file env btw (ust_result_file u) None d = (Inr bs, d')"
    using assms(1) by (metis prod.collapse)
  then show ?thesis using assms(2,3) by (simp add: ingest_apply_result_def)
qed


text \<open>The check for results already recorded compares prefixes and every refused request with an invalid id
  is reported under the same id: once one is in the history, no other is ever recorded. The same
  holds for an id that another recorded id begins with.\<close>

theorem ingest_prefix_loses:
  assumes "he_note h = Some (''apply '' @ i @ rest)" "h \<in> set (store_history (ust_store u))"
    and "from_slice bs = Some r" "res_id r = i"
    and "fst (read_regular_file env id (ust_result_file u) None d) = Inr bs"
  shows "fst (ingest_apply_result ser from_slice id env ch (u, d)) = False"
proof -
  have "already_ingested r (store_history (ust_store u))"
    using assms(1,2,4) unfolding already_ingested_def list_ex_iff
    by (auto simp: ingest_key_def intro!: bexI [of _ h])
  then show ?thesis
    using ingest_known [where from_slice = from_slice and bs = bs and ser = ser and ch = ch, OF assms(5)]
      assms(3) by fastforce
qed

definition demo_result :: apply_result where
  "demo_result = \<lparr>res_id = ''invalid'', res_started_at = ''t'', res_finished_at = ''t'', res_succeeded = False,
     res_packages = [], res_note = Some ''x'', res_reboot_started = False\<rparr>"

definition result_disk :: disk where
  "result_disk = disk_of [''r'' \<mapsto> Regular \<lparr>rf_bytes = ''{}'', rf_mode = 420, rf_mtime = 0\<rparr>]"

lemma read_result_disk: "fst (read_regular_file (\<lambda>_. None) id ''r'' None result_disk) = Inr ''{}''"
  by (simp add: read_regular_file_def result_disk_def disk_of_def check_metadata_def MAX_FILE_BYTES_def
      read_file_def read_node_def follow_id is_symlink_def)

lemma one_available_result: "ust_result_file one_available = ''r''" "ust_store one_available = in_memory"
  by (simp_all add: one_available_def updates_host_def updates_state_new_def host_new_def)


definition refused_once :: updates_state where
  "refused_once = updates_host \<lparr>us_path = None, us_data = store_data_default
     \<lparr>sd_history := [ingest_entry Stable demo_result]\<rparr>\<rparr> ''q'' ''r''"

theorem ingest_prefix_loses_witness:
  "fst (ingest_apply_result (\<lambda>_. []) (\<lambda>_. Some (demo_result\<lparr>res_note := Some ''another refusal''\<rparr>)) id (\<lambda>_. None)
     Stable (refused_once, result_disk)) = False"
proof -
  have n: "he_note (ingest_entry Stable demo_result) = Some (''apply '' @ ''invalid'' @ drop 13 (ingest_note demo_result))"
    by (simp add: ingest_entry_def ingest_note_def ingest_key_def demo_result_def)
  have h: "ingest_entry Stable demo_result \<in> set (store_history (ust_store refused_once))"
    by (simp add: refused_once_def updates_host_def updates_state_new_def host_new_def store_history_def)
  have r: "ust_result_file refused_once = ''r''"
    by (simp add: refused_once_def updates_host_def updates_state_new_def)
  show ?thesis
    by (rule ingest_prefix_loses [OF n h refl _ read_result_disk [folded r]]) (simp add: demo_result_def)
qed

end
