(* ===== verification/Tokens.thy ===== *)
theory Tokens
  imports FileSys
begin

text \<open>
  \<^verbatim>\<open>services/aborad/src/tokens.rs\<close>: the bearer-token store. The hash function and the TOML parser
  are arguments. A parser that panics (Rust's slices panic inside a multi-byte character) returns
  \<^term>\<open>None\<close>.
\<close>

section \<open>Data\<close>

datatype token_store_error = TokenIo path string | BadEntry path string

definition token_store_error_display :: "token_store_error \<Rightarrow> string" where
  "token_store_error_display e = (case e of
     TokenIo p m \<Rightarrow> ''could not read token file `'' @ p @ ''`: '' @ m
   | BadEntry p m \<Rightarrow> ''token file `'' @ p @ ''`: '' @ m)"

record stored_token =
  tk_name :: "string option"
  tk_permissions :: "string list"

definition grants :: "stored_token \<Rightarrow> string \<Rightarrow> bool" where
  "grants t permission_id \<longleftrightarrow>
     list_ex (\<lambda>p. p = permission_id \<or> (p = ''read_all'' \<and> prefix ''read:'' permission_id)) (tk_permissions t)"

type_synonym hash = "u8 list"

record token_entry =
  en_token :: stored_token
  en_hash :: hash

type_synonym token_store = "token_entry list"

record raw_token =
  rt_name :: "string option"
  rt_permissions :: "string list"
  rt_secret_hash :: string

section \<open>Hashes\<close>

text \<open>In UTF-8 a slice may begin or end only where a character starts.\<close>

definition boundary :: "string \<Rightarrow> bool" where
  "boundary rest \<longleftrightarrow> (case rest of [] \<Rightarrow> True | c # _ \<Rightarrow> \<not> cont_byte c)"

text \<open>\<^verbatim>\<open>u8::from_str_radix(pair, 16)\<close> on two bytes: a leading plus sign is accepted.\<close>

definition radix16_pair :: "char \<Rightarrow> char \<Rightarrow> nat option" where
  "radix16_pair a b =
     (if a = CHR ''+'' then from_hex_digit b
      else Option.bind (from_hex_digit a) (\<lambda>x. map_option (\<lambda>y. x * 16 + y) (from_hex_digit b)))"

fun decode_pairs :: "string \<Rightarrow> (string + hash) option" where
  "decode_pairs (a # b # rest) =
     (if \<not> boundary [a] \<or> \<not> boundary rest then None
      else case radix16_pair a b of
        None \<Rightarrow> Some (Inl (''secret_hash contains non-hex characters: `'' @ [a, b] @ ''`''))
      | Some v \<Rightarrow> (case decode_pairs rest of
          Some (Inr vs) \<Rightarrow> Some (Inr (of_nat v # vs))
        | r \<Rightarrow> r))"
| "decode_pairs _ = Some (Inr [])"

definition decode_sha256_hex :: "string \<Rightarrow> (string + hash) option" where
  "decode_sha256_hex prefixed = (case split_once (CHR '':'') prefixed of
     None \<Rightarrow> Some (Inl (''secret_hash must look like `sha256:<64 hex>`, got `'' @ prefixed @ ''`''))
   | Some (scheme, hex) \<Rightarrow>
       if scheme \<noteq> ''sha256''
       then Some (Inl (''unsupported secret_hash scheme `'' @ scheme @ ''` (expected sha256)''))
       else if length hex \<noteq> 64
       then Some (Inl (''secret_hash must be exactly 64 hex characters, got '' @ show_nat (length hex)))
       else decode_pairs hex)"

definition ct_eq :: "hash \<Rightarrow> hash \<Rightarrow> bool" where
  "ct_eq a b \<longleftrightarrow> fold (\<lambda>(x, y) diff. or diff (xor x y)) (zip a b) (0 :: u8) = 0"

section \<open>The store\<close>

fun entries_of :: "raw_token list \<Rightarrow> (string + token_store) option" where
  "entries_of [] = Some (Inr [])"
| "entries_of (t # ts) = (case decode_sha256_hex (rt_secret_hash t) of
     None \<Rightarrow> None
   | Some (Inl e) \<Rightarrow> Some (Inl e)
   | Some (Inr h) \<Rightarrow> (case entries_of ts of
       Some (Inr es) \<Rightarrow> Some (Inr (\<lparr>en_token = \<lparr>tk_name = rt_name t, tk_permissions = rt_permissions t\<rparr>,
          en_hash = h\<rparr> # es))
     | r \<Rightarrow> r))"

definition token_from_str :: "(string \<Rightarrow> string + raw_token list) \<Rightarrow> string \<Rightarrow> (string + token_store) option" where
  "token_from_str toml text = (case toml text of
     Inl e \<Rightarrow> Some (Inl (''invalid TOML: '' @ e))
   | Inr raw \<Rightarrow> entries_of raw)"

definition token_load ::
  "(string \<Rightarrow> string + raw_token list) \<Rightarrow> io_env \<Rightarrow> path \<Rightarrow> disk \<Rightarrow>
   (token_store_error + token_store) option \<times> disk" where
  "token_load toml env path d = (case read_to_string env path d of
     (Inl e, d') \<Rightarrow> (Some (Inl (TokenIo path (read_error_display e))), d')
   | (Inr raw, d') \<Rightarrow> (map_option (map_err (BadEntry path)) (token_from_str toml raw), d'))"

definition token_find :: "(string \<Rightarrow> hash) \<Rightarrow> token_store \<Rightarrow> string \<Rightarrow> stored_token option" where
  "token_find sha256 store bearer =
     map_option en_token (find (\<lambda>e. ct_eq (en_hash e) (sha256 bearer)) store)"

text \<open>The encoder of the test module, which the \<^verbatim>\<open>abora\<close> tool repeats.\<close>

definition hex_encode :: "hash \<Rightarrow> string" where
  "hex_encode bytes = concat (map (\<lambda>b. [hex_digit (unat b div 16), hex_digit (unat b mod 16)]) bytes)"

section \<open>Facts\<close>

lemma or_eq_0: "or a b = 0 \<longleftrightarrow> a = 0 \<and> b = (0 :: 'a :: len word)"
  by (auto simp: bit_eq_iff bit_simps)

lemma xor_eq_0: "xor a b = 0 \<longleftrightarrow> a = (b :: 'a :: len word)"
  by (auto simp: bit_eq_iff bit_simps)

lemma fold_diff_0:
  "fold (\<lambda>(x, y) diff. or diff (xor x y)) ps (d :: u8) = 0 \<longleftrightarrow> d = 0 \<and> (\<forall>(x, y) \<in> set ps. x = y)"
  by (induction ps arbitrary: d) (auto simp: or_eq_0 xor_eq_0)

lemma ct_eq_iff: "length a = length b \<Longrightarrow> ct_eq a b \<longleftrightarrow> a = b"
  by (auto simp: ct_eq_def fold_diff_0 list_eq_iff_zip_eq)

lemma decode_pairs_length: "decode_pairs s = Some (Inr h) \<Longrightarrow> length h = length s div 2"
  by (induction s arbitrary: h rule: decode_pairs.induct) (auto split: if_splits option.splits sum.splits)

lemma decode_length: "decode_sha256_hex s = Some (Inr h) \<Longrightarrow> length h = 32"
  by (auto simp: decode_sha256_hex_def dest!: decode_pairs_length split: option.splits if_splits)

lemma entries_of_length: "entries_of ts = Some (Inr es) \<Longrightarrow> e \<in> set es \<Longrightarrow> length (en_hash e) = 32"
proof (induction ts arbitrary: es)
  case (Cons t ts)
  obtain h es' where h: "decode_sha256_hex (rt_secret_hash t) = Some (Inr h)" "entries_of ts = Some (Inr es')"
      "e \<in> set es' \<or> en_hash e = h"
    using Cons.prems by (fastforce split: option.splits sum.splits)
  with Cons.IH [OF h(2)] decode_length [OF h(1)] show ?case by blast
qed simp

lemma unat_u8_less: "unat (b :: u8) < 256"
  using unsigned_less [of b, where ?'a = nat] by simp

lemma hex_digit_not_cont: "d < 16 \<Longrightarrow> \<not> cont_byte (hex_digit d)"
  by (simp add: cont_byte_def byte_hex_digit)

lemma hex_digit_not_plus: "d < 16 \<Longrightarrow> hex_digit d \<noteq> CHR ''+''"
  using byte_hex_digit [of d] by (auto split: if_splits)

lemma radix16_hex: "radix16_pair (hex_digit (unat (b :: u8) div 16)) (hex_digit (unat b mod 16)) = Some (unat b)"
proof -
  have "unat b div 16 < 16" using unat_u8_less [of b] by simp
  then show ?thesis
    by (simp add: radix16_pair_def hex_digit_not_plus from_hex_digit_hex_digit)
qed

lemma boundary_hex: "boundary (hex_encode bs)"
proof (cases bs)
  case (Cons b bs')
  have "unat b div 16 < 16" using unat_u8_less [of b] by simp
  then show ?thesis by (simp add: Cons boundary_def hex_encode_def hex_digit_not_cont)
qed (simp add: boundary_def hex_encode_def)

lemma decode_hex_encode: "decode_pairs (hex_encode bs) = Some (Inr bs)"
proof (induction bs)
  case (Cons b bs)
  have "unat b div 16 < 16" using unat_u8_less [of b] by simp
  then have "boundary [hex_digit (unat b div 16)]" by (simp add: boundary_def hex_digit_not_cont)
  moreover have "hex_encode (b # bs) = hex_digit (unat b div 16) # hex_digit (unat b mod 16) # hex_encode bs"
    by (simp add: hex_encode_def)
  ultimately show ?case using Cons by (simp add: boundary_hex radix16_hex)
qed (simp add: hex_encode_def)

lemma length_hex_encode: "length (hex_encode bs) = 2 * length bs"
  by (induction bs) (simp_all add: hex_encode_def)

lemma decode_sha256_encode:
  assumes "length bs = 32"
  shows "decode_sha256_hex (''sha256:'' @ hex_encode bs) = Some (Inr bs)"
proof -
  have "split_once (CHR '':'') (''sha256'' @ CHR '':'' # hex_encode bs) = Some (''sha256'', hex_encode bs)"
    by (rule split_once_append) simp
  then have "split_once (CHR '':'') (''sha256:'' @ hex_encode bs) = Some (''sha256'', hex_encode bs)" by simp
  then show ?thesis
    using assms unfolding decode_sha256_hex_def by (simp only: option.case prod.case)
      (simp add: length_hex_encode decode_hex_encode)
qed

lemma token_find_first:
  assumes "\<And>e. e \<in> set store \<Longrightarrow> length (en_hash e) = 32" "length (sha256 bearer) = 32"
  shows "token_find sha256 store bearer = map_option en_token (find (\<lambda>e. en_hash e = sha256 bearer) store)"
proof -
  have "find (\<lambda>e. ct_eq (en_hash e) (sha256 bearer)) store = find (\<lambda>e. en_hash e = sha256 bearer) store"
    using assms by (intro find_cong) (auto simp: ct_eq_iff)
  then show ?thesis by (simp add: token_find_def)
qed

section \<open>Properties\<close>

text \<open>The wildcard: \<^verbatim>\<open>read_all\<close> covers exactly the permissions that start with \<^verbatim>\<open>read:\<close>; any other
  permission, \<^verbatim>\<open>manage:updates\<close> among them, is granted only when the token names it.\<close>

theorem grants_exact:
  "grants t p \<longleftrightarrow> p \<in> set (tk_permissions t) \<or> (''read_all'' \<in> set (tk_permissions t) \<and> (\<exists>r. p = ''read:'' @ r))"
  by (auto simp: grants_def list_ex_iff prefix_def)

text \<open>C28. Token files and secrets. When a store was loaded from a file whose entry at some position was written
  as \<^verbatim>\<open>sha256:\<close> and the hex of the hash of a secret, and no earlier entry has the same hash, then the
  secret finds exactly that entry; a secret finds a token only if its hash is in the store. The
  hash has 32 bytes, as SHA-256 has.\<close>

theorem token_roundtrip:
  assumes hash: "\<And>s. length (sha256 s) = 32"
    and load: "token_from_str toml text = Some (Inr store)" and toml: "toml text = Inr raw"
    and entry: "i < length raw" "rt_secret_hash (raw ! i) = ''sha256:'' @ hex_encode (sha256 secret)"
    and first: "\<And>j. j < i \<Longrightarrow> en_hash (store ! j) \<noteq> sha256 secret"
  shows "token_find sha256 store secret = Some \<lparr>tk_name = rt_name (raw ! i), tk_permissions = rt_permissions (raw ! i)\<rparr> \<and>
    (\<forall>b t. token_find sha256 store b = Some t \<longrightarrow> sha256 b \<in> en_hash ` set store)"
proof -
  have es: "entries_of raw = Some (Inr store)" using load toml by (simp add: token_from_str_def)
  have each: "length store = length raw \<and> (\<forall>i < length raw. \<exists>h.
      decode_sha256_hex (rt_secret_hash (raw ! i)) = Some (Inr h) \<and>
      store ! i = \<lparr>en_token = \<lparr>tk_name = rt_name (raw ! i), tk_permissions = rt_permissions (raw ! i)\<rparr>, en_hash = h\<rparr>)"
    using es
  proof (induction raw arbitrary: store)
    case (Cons t ts)
    then show ?case by (auto simp: less_Suc_eq_0_disj split: option.splits sum.splits)
  qed simp
  have len: "length (en_hash e) = 32" if "e \<in> set store" for e using entries_of_length [OF es that] .
  have find: "token_find sha256 store b = map_option en_token (find (\<lambda>e. en_hash e = sha256 b) store)" for b
    using token_find_first [OF len hash] .
  have i: "store ! i = \<lparr>en_token = \<lparr>tk_name = rt_name (raw ! i), tk_permissions = rt_permissions (raw ! i)\<rparr>,
      en_hash = sha256 secret\<rparr>"
    using each entry decode_sha256_encode [OF hash [of secret]] by fastforce
  have "find (\<lambda>e. en_hash e = sha256 secret) store = Some (store ! i)"
    using each entry(1) i first by (auto simp: find_Some_iff intro!: exI [of _ i])
  then have 1: "token_find sha256 store secret = Some \<lparr>tk_name = rt_name (raw ! i), tk_permissions = rt_permissions (raw ! i)\<rparr>"
    using find i by simp
  moreover have "sha256 b \<in> en_hash ` set store" if t: "token_find sha256 store b = Some t" for b t
  proof -
    obtain e where "List.find (\<lambda>e. en_hash e = sha256 b) store = Some e" using t find [of b] by auto
    then have "e \<in> set store" "sha256 b = en_hash e" by (auto simp: find_Some_iff)
    then show ?thesis by blast
  qed
  ultimately show ?thesis by blast
qed

definition toy_hash :: "string \<Rightarrow> hash" where
  "toy_hash s = replicate 31 0 @ [of_nat (length s)]"

theorem token_roundtrip_witness:
  "\<exists>store. token_from_str (\<lambda>_. Inr [\<lparr>rt_name = Some ''ops'', rt_permissions = [''manage:updates''],
       rt_secret_hash = ''sha256:'' @ hex_encode (toy_hash ''s3cret'')\<rparr>]) [] = Some (Inr store) \<and>
     token_find toy_hash store ''s3cret'' = Some \<lparr>tk_name = Some ''ops'', tk_permissions = [''manage:updates'']\<rparr>"
proof -
  let ?raw = "[\<lparr>rt_name = Some ''ops'', rt_permissions = [''manage:updates''],
       rt_secret_hash = ''sha256:'' @ hex_encode (toy_hash ''s3cret'')\<rparr>]"
  have h: "length (toy_hash s) = 32" for s by (simp add: toy_hash_def)
  obtain store where st: "token_from_str (\<lambda>_. Inr ?raw) [] = Some (Inr store)"
    using decode_sha256_encode [OF h [of "''s3cret''"]] by (auto simp: token_from_str_def simp del: append.simps)
  from token_roundtrip [where raw = ?raw and i = 0 and secret = "''s3cret''", OF h st] st show ?thesis by auto
qed

text \<open>The decoder is laxer than its message says: a plus sign before one hex digit passes as a byte. A text
  of 64 bytes with a multi-byte character across two positions makes it panic.\<close>

lemma decode_lax:
  "radix16_pair (CHR ''+'') (CHR ''f'') = Some 15 \<and>
   decode_sha256_hex (''sha256:0'' @ [CHR 0xC3, CHR 0xA9] @ replicate 61 (CHR ''0'')) = None"
proof -
  have "split_once (CHR '':'') (''sha256'' @ CHR '':'' # (''0'' @ [CHR 0xC3, CHR 0xA9] @ replicate 61 (CHR ''0'')))
    = Some (''sha256'', ''0'' @ [CHR 0xC3, CHR 0xA9] @ replicate 61 (CHR ''0''))"
    by (rule split_once_append) simp
  then show ?thesis
    by (simp add: radix16_pair_def from_hex_digit_def is_ascii_digit_def decode_sha256_hex_def
        boundary_def cont_byte_def)
qed
end
