(* ===== verification/Auth.thy ===== *)
theory Auth
  imports Tokens Api Net
begin

text \<open>
  \<^verbatim>\<open>services/aborad/src/auth.rs\<close>: permissions, the admission decision and the error a denial becomes.
\<close>

datatype permission =
  ReadHealth | ReadVersion | ReadSystem | ReadServices | ReadUpdates | ManageUpdates

fun permission_id :: "permission \<Rightarrow> string" where
  "permission_id ReadHealth = ''read:health''"
| "permission_id ReadVersion = ''read:version''"
| "permission_id ReadSystem = ''read:system''"
| "permission_id ReadServices = ''read:services''"
| "permission_id ReadUpdates = ''read:updates''"
| "permission_id ManageUpdates = ''manage:updates''"

definition is_mutating :: "permission \<Rightarrow> bool" where
  "is_mutating p \<longleftrightarrow> p = ManageUpdates"

datatype decision =
  Allowed | RemoteNotAllowed | AuthenticationRequired | InsufficientPermission | TokensRequired

definition authorize ::
  "(string \<Rightarrow> hash) \<Rightarrow> ip_addr \<Rightarrow> permission \<Rightarrow> string option \<Rightarrow> token_store option \<Rightarrow> decision" where
  "authorize sha256 peer permission bearer store =
     (if \<not> is_loopback peer then RemoteNotAllowed
      else case store of
        None \<Rightarrow> if is_mutating permission then TokensRequired else Allowed
      | Some st \<Rightarrow> (case bearer of
          None \<Rightarrow> AuthenticationRequired
        | Some b \<Rightarrow> (case token_find sha256 st b of
            None \<Rightarrow> AuthenticationRequired
          | Some token \<Rightarrow> if grants token (permission_id permission) then Allowed
              else InsufficientPermission)))"

definition into_denial :: "decision \<Rightarrow> permission \<Rightarrow> api_error_body option" where
  "into_denial d permission =
     (let op' = ''operation `'' @ permission_id permission @ ''` ''
      in case d of
        Allowed \<Rightarrow> None
      | RemoteNotAllowed \<Rightarrow> Some (error_body Forbidden
          (op' @ ''is not allowed for remote clients; remote management is not enabled''))
      | AuthenticationRequired \<Rightarrow> Some (error_body Unauthorized (op' @ ''requires a valid bearer token''))
      | TokensRequired \<Rightarrow> Some (error_body Forbidden
          (op' @ ''changes the system and requires token authentication; configure [security] token_file and use a token that grants it''))
      | InsufficientPermission \<Rightarrow> Some (error_body Forbidden
          (''token is authenticated but not authorized for `'' @ permission_id permission @ ''`'')))"

lemma permission_id_inj: "permission_id p = permission_id q \<longleftrightarrow> p = q"
  by (cases p; cases q) simp_all

lemma permission_id_read: "prefix ''read:'' (permission_id p) \<longleftrightarrow> \<not> is_mutating p"
  by (cases p) (simp_all add: is_mutating_def)

lemma grants_permission:
  "grants t (permission_id p) \<longleftrightarrow> permission_id p \<in> set (tk_permissions t) \<or>
     (''read_all'' \<in> set (tk_permissions t) \<and> \<not> is_mutating p)"
  by (auto simp: grants_def list_ex_iff permission_id_read)

lemma into_denial_None [simp]: "into_denial d p = None \<longleftrightarrow> d = Allowed"
  by (cases d) (simp_all add: into_denial_def Let_def)

lemma into_denial_status:
  "into_denial d p = Some b \<Longrightarrow>
     http_status (ae_code (aeb_error b)) = (if d = AuthenticationRequired then 401 else 403)"
  by (cases d) (auto simp: into_denial_def Let_def error_body_def)

lemma authorize_allowed:
  "authorize sha256 peer p bearer store = Allowed \<longleftrightarrow>
     is_loopback peer \<and>
     (case store of None \<Rightarrow> \<not> is_mutating p
      | Some st \<Rightarrow> (\<exists>b t. bearer = Some b \<and> token_find sha256 st b = Some t \<and>
          (permission_id p \<in> set (tk_permissions t) \<or>
             (''read_all'' \<in> set (tk_permissions t) \<and> \<not> is_mutating p))))"
  by (auto simp: authorize_def grants_permission split: option.split)

section \<open>Properties\<close>

text \<open>C2. The admission decision, complete. Access is allowed exactly from loopback and then, without a token
  store, for reading only; with one, for a bearer secret the store knows whose token names the
  permission, or holds \<^verbatim>\<open>read_all\<close> and the permission does not mutate. Every refusal answers 401 when
  the token is missing or unknown, and 403 otherwise.\<close>

theorem authorize_exact:
  "(authorize sha256 peer p bearer store = Allowed \<longleftrightarrow>
     is_loopback peer \<and>
     (case store of None \<Rightarrow> p \<noteq> ManageUpdates
      | Some st \<Rightarrow> (\<exists>b t. bearer = Some b \<and> token_find sha256 st b = Some t \<and>
          (permission_id p \<in> set (tk_permissions t) \<or>
             (''read_all'' \<in> set (tk_permissions t) \<and> p \<noteq> ManageUpdates))))) \<and>
   (case into_denial (authorize sha256 peer p bearer store) p of
      None \<Rightarrow> authorize sha256 peer p bearer store = Allowed
    | Some body \<Rightarrow> http_status (ae_code (aeb_error body)) =
        (if is_loopback peer \<and> store \<noteq> None \<and> Option.bind bearer (token_find sha256 (the store)) = None
         then 401 else 403))"
proof -
  let ?d = "authorize sha256 peer p bearer store"
  have a: "?d = AuthenticationRequired \<longleftrightarrow>
      is_loopback peer \<and> store \<noteq> None \<and> Option.bind bearer (token_find sha256 (the store)) = None"
    by (auto simp: authorize_def split: option.splits)
  have "case into_denial ?d p of None \<Rightarrow> ?d = Allowed
    | Some body \<Rightarrow> http_status (ae_code (aeb_error body)) =
        (if is_loopback peer \<and> store \<noteq> None \<and> Option.bind bearer (token_find sha256 (the store)) = None
         then 401 else 403)"
  proof (cases "into_denial ?d p")
    case None
    show ?thesis unfolding None option.case by (rule iffD1 [OF into_denial_None None])
  next
    case (Some body)
    show ?thesis unfolding Some option.case into_denial_status [OF Some] a ..
  qed
  then show ?thesis by (simp only: authorize_allowed is_mutating_def simp_thms)
qed

end
