(* ===== verification/Services.thy ===== *)
theory Services
  imports Api "HOL-Library.Multiset"
begin

text \<open>
  \<^verbatim>\<open>crates/abora-services\<close>: the query with its filters and pages, the validation of unit names
  (\<^verbatim>\<open>lib.rs\<close>) and the parsers of what \<^verbatim>\<open>systemctl\<close> prints (\<^verbatim>\<open>linux.rs\<close>). Running \<^verbatim>\<open>systemctl\<close> is an
  argument that returns success, standard output and standard error.
\<close>

datatype services_error =
  SvNotSupported | Systemd string | SvNotFound string | SvParse string

definition services_error_display :: "services_error \<Rightarrow> string" where
  "services_error_display e = (case e of
     SvNotSupported \<Rightarrow> ''service registry is not supported on this platform''
   | Systemd m \<Rightarrow> ''could not query the system service manager: '' @ m
   | SvNotFound m \<Rightarrow> ''no such unit: '' @ m
   | SvParse m \<Rightarrow> ''unexpected output from the system service manager: '' @ m)"

section \<open>Unit names and queries\<close>

definition unit_name_banned :: "char \<Rightarrow> bool" where
  "unit_name_banned c \<longleftrightarrow> c \<in> set [CHR ''/'', CHR 0x5C, CHR '' '', CHR 0x09, CHR 0x0A, CHR 0x0D]"

definition validate_unit_name :: "string \<Rightarrow> bool" where
  "validate_unit_name name \<longleftrightarrow>
     name \<noteq> [] \<and> hd name \<noteq> CHR ''-'' \<and> \<not> list_ex unit_name_banned name \<and> suffix ''.service'' name"

record service_query =
  sq_state :: "service_state option"
  sq_enabled :: "bool option"
  sq_text :: "string option"
  sq_limit :: "nat option"
  sq_offset :: nat

definition query_default :: service_query where
  "query_default = \<lparr>sq_state = None, sq_enabled = None, sq_text = None, sq_limit = None, sq_offset = 0\<rparr>"

definition query_matches :: "service_query \<Rightarrow> service_status \<Rightarrow> bool" where
  "query_matches q s \<longleftrightarrow>
     (case sq_state q of Some st \<Rightarrow> ss_state s = st | None \<Rightarrow> True) \<and>
     (case sq_enabled q of Some e \<Rightarrow> ss_enabled s = Some e | None \<Rightarrow> True) \<and>
     (case sq_text q of None \<Rightarrow> True
      | Some text \<Rightarrow> let needle = to_ascii_lowercase text
          in str_contains (to_ascii_lowercase (ss_name s)) needle \<or>
             (case ss_description s of None \<Rightarrow> False
              | Some d \<Rightarrow> str_contains (to_ascii_lowercase d) needle))"

definition total_matching :: "service_query \<Rightarrow> service_status list \<Rightarrow> nat" where
  "total_matching q ss = length (filter (query_matches q) ss)"

text \<open>\<^verbatim>\<open>start + limit\<close> wraps at 64 bits in a release build, and a slice whose start lies behind its end
  panics (\<^term>\<open>None\<close>).\<close>

definition query_apply :: "service_query \<Rightarrow> service_status list \<Rightarrow> service_status list option" where
  "query_apply q ss =
     (let matched = filter (query_matches q) ss
      in if matched = [] then Some []
         else
           let start = min (sq_offset q) (length matched);
               end' = (case sq_limit q of
                  Some limit \<Rightarrow> if 0 < limit then min ((start + limit) mod (usize_max + 1)) (length matched)
                    else length matched
                | None \<Rightarrow> length matched)
           in if start \<le> end' then Some (take (end' - start) (drop start matched)) else None)"

section \<open>What systemctl prints\<close>

definition map_active_state :: "string \<Rightarrow> service_state" where
  "map_active_state active =
     (if active = ''active'' then Running else if active = ''inactive'' then Stopped
      else if active = ''failed'' then FailedState else if active = ''activating'' then Activating
      else if active = ''deactivating'' then Deactivating else UnknownState)"

definition file_state_enabled :: "string \<Rightarrow> bool option" where
  "file_state_enabled state =
     (if state = ''enabled'' \<or> state = ''enabled-runtime'' then Some True
      else if state = ''disabled'' \<or> state = ''masked'' \<or> state = ''masked-runtime'' then Some False
      else None)"

record raw_unit =
  ru_name :: string
  ru_state :: service_state
  ru_description :: "string option"

definition parse_unit_row :: "string \<Rightarrow> raw_unit option" where
  "parse_unit_row line =
     (let line = trim line
      in if line = [] \<or> prefix ''UNIT '' line then None
         else (case split_whitespace line of
           name # load # active # sub # rest \<Rightarrow>
             if \<not> suffix ''.service'' name \<or> load = [] \<or> active = [] then None
             else Some \<lparr>ru_name = name, ru_state = map_active_state active,
                    ru_description = (if rest = [] then None else Some (join '' '' rest))\<rparr>
         | _ \<Rightarrow> None))"

definition parse_list_units :: "string \<Rightarrow> raw_unit list" where
  "parse_list_units text = List.map_filter parse_unit_row (lines text)"

definition parse_unit_file_row :: "string \<Rightarrow> (string \<times> bool option) option" where
  "parse_unit_file_row line =
     (let line = trim line
      in if line = [] \<or> prefix ''UNIT FILE'' line then None
         else (case split_whitespace line of
           name # state # _ \<Rightarrow>
             if name = [] \<or> \<not> suffix ''.service'' name \<or> state = [] then None
             else Some (name, file_state_enabled state)
         | _ \<Rightarrow> None))"

definition parse_list_unit_files :: "string \<Rightarrow> (string, bool option) map" where
  "parse_list_unit_files text = map_of (rev (List.map_filter parse_unit_file_row (lines text)))"

text \<open>The first value of a property wins.\<close>

definition parse_show :: "string \<Rightarrow> (string, string) map" where
  "parse_show text = map_of (List.map_filter (split_once (CHR ''='')) (lines text))"

definition extract_argv :: "string \<Rightarrow> string option" where
  "extract_argv value = Option.bind (str_find ''argv[]='' value) (\<lambda>at.
     let rest = drop (at + 7) value;
         end' = (case str_find '' ;'' rest of Some n \<Rightarrow> n
           | None \<Rightarrow> (case str_find ''}'' rest of Some n \<Rightarrow> n | None \<Rightarrow> length rest));
         raw = trim (take end' rest)
     in if raw = [] then None else Some raw)"

section \<open>Collecting and inspecting\<close>

text \<open>\<^verbatim>\<open>systemctl\<close> with the given arguments: an error (it could not be executed), or success, output,
  error output.\<close>

type_synonym systemctl = "string list \<Rightarrow> string + (bool \<times> string \<times> string)"

definition GLOBAL_FLAGS :: "string list" where
  "GLOBAL_FLAGS = [''--no-legend'', ''--no-pager'', ''--no-ask-password'', ''--plain'']"

definition run_systemctl_raw :: "systemctl \<Rightarrow> string list \<Rightarrow> services_error + (bool \<times> string \<times> string)" where
  "run_systemctl_raw sys args =
     map_sum (\<lambda>e. Systemd (''could not execute `systemctl`: '' @ e))
       (\<lambda>(ok, stdout, stderr). (ok, from_utf8_lossy stdout, from_utf8_lossy stderr)) (sys (GLOBAL_FLAGS @ args))"

definition nonzero_status :: "string list \<Rightarrow> string \<Rightarrow> services_error" where
  "nonzero_status args stderr =
     Systemd (''`systemctl '' @ join '' '' args @ ''` exited with non-zero status: '' @ trim stderr)"

definition run_systemctl :: "systemctl \<Rightarrow> string list \<Rightarrow> services_error + string" where
  "run_systemctl sys args = (case run_systemctl_raw sys args of
     Inl e \<Rightarrow> Inl e
   | Inr (ok, stdout, stderr) \<Rightarrow> if ok then Inr stdout else Inl (nonzero_status args stderr))"

definition services_collect :: "systemctl \<Rightarrow> services_error + service_status list" where
  "services_collect sys =
     (case run_systemctl sys [''list-units'', ''--all'', ''--type=service''] of Inl e \<Rightarrow> Inl e
      | Inr units_output \<Rightarrow>
        (case run_systemctl sys [''list-unit-files'', ''--type=service''] of Inl e \<Rightarrow> Inl e
         | Inr files_output \<Rightarrow>
             let files = parse_list_unit_files files_output
             in Inr (sort_key ss_name (map (\<lambda>u.
                  \<lparr>ss_name = ru_name u, ss_state = ru_state u,
                   ss_enabled = (case files (ru_name u) of Some e \<Rightarrow> e | None \<Rightarrow> None),
                   ss_description = ru_description u\<rparr>) (parse_list_units units_output)))))"

definition PROPERTIES :: "string list" where
  "PROPERTIES = [''LoadState'', ''ActiveState'', ''SubState'', ''UnitFileState'', ''Description'',
     ''FragmentPath'', ''ExecStart'', ''MainPID'', ''MemoryCurrent'']"

definition show_args :: "string \<Rightarrow> string list" where
  "show_args name = [''show'', name] @ map (\<lambda>p. ''--property='' @ p) PROPERTIES"

definition detail_of_props :: "string \<Rightarrow> (string, string) map \<Rightarrow> services_error + service_detail" where
  "detail_of_props name props =
     (let load_state = or_else (props ''LoadState'') [];
          opt = (\<lambda>key. case props key of
             Some v \<Rightarrow> if v \<noteq> [] \<and> v \<noteq> ''[not set]'' then Some v else None | None \<Rightarrow> None)
      in if load_state = ''not-found'' then Inl (SvNotFound name)
         else Inr \<lparr>svd_name = name, svd_load_state = load_state,
           svd_active_state = or_else (props ''ActiveState'') [],
           svd_sub_state = or_else (props ''SubState'') [],
           svd_enabled = Option.bind (props ''UnitFileState'') file_state_enabled,
           svd_description = opt ''Description'', svd_fragment_path = opt ''FragmentPath'',
           svd_exec_start = Option.bind (props ''ExecStart'') extract_argv,
           svd_main_pid = (case Option.bind (props ''MainPID'') (\<lambda>v. parse_u64 (trim v)) of
              Some pid \<Rightarrow> if pid \<noteq> 0 then Some pid else None | None \<Rightarrow> None),
           svd_memory_bytes = Option.bind (props ''MemoryCurrent'') (\<lambda>v. parse_u64 (trim v))\<rparr>)"

definition manager_detail :: "systemctl \<Rightarrow> string \<Rightarrow> services_error + service_detail" where
  "manager_detail sys name = (case run_systemctl_raw sys (show_args name) of
     Inl e \<Rightarrow> Inl e
   | Inr (ok, output, stderr) \<Rightarrow>
       if \<not> ok \<and> (str_contains stderr ''No such unit'' \<or> str_contains stderr ''not-found'')
       then Inl (SvNotFound name)
       else if \<not> ok then Inl (nonzero_status (show_args name) stderr)
       else detail_of_props name (parse_show output))"

definition services_detail :: "systemctl \<Rightarrow> string \<Rightarrow> services_error + service_detail" where
  "services_detail sys name =
     (let name = trim name
      in if \<not> validate_unit_name name
         then Inl (Systemd (''`'' @ name @ ''` is not a valid unit name''))
         else manager_detail sys name)"

text \<open>\<^verbatim>\<open>collect\<close> and \<^verbatim>\<open>detail\<close> of the crate, built for Linux or for something else.\<close>

definition collect_on :: "bool \<Rightarrow> systemctl \<Rightarrow> services_error + service_status list" where
  "collect_on linux sys = (if linux then services_collect sys else Inl SvNotSupported)"

definition detail_on :: "bool \<Rightarrow> systemctl \<Rightarrow> string \<Rightarrow> services_error + service_detail" where
  "detail_on linux sys name =
     (let name = trim name
      in if \<not> validate_unit_name name
         then Inl (Systemd (''`'' @ name @ ''` is not a valid unit name''))
         else if linux then manager_detail sys name else Inl SvNotSupported)"

lemma detail_on_linux: "detail_on True = services_detail"
  by (simp add: fun_eq_iff detail_on_def services_detail_def Let_def)

section \<open>Facts\<close>

lemma query_matches_page [simp]:
  "query_matches (q\<lparr>sq_limit := l, sq_offset := k\<rparr>) = query_matches q"
  by (simp add: query_matches_def fun_eq_iff)

lemma query_apply_page:
  assumes "0 < n" "length ss + n \<le> usize_max"
  shows "query_apply (q\<lparr>sq_limit := Some n, sq_offset := k\<rparr>) ss =
    Some (take n (drop k (filter (query_matches q) ss)))"
proof -
  let ?m = "filter (query_matches q) ss"
  have le: "length ?m \<le> length ss" by simp
  then have nw: "(min k (length ?m) + n) mod (usize_max + 1) = min k (length ?m) + n"
    using assms by (intro mod_less) linarith
  show ?thesis
  proof (cases "k < length ?m")
    case True
    then have "take (min (k + n) (length ?m) - k) (drop k ?m) = take n (drop k ?m)"
      by (cases "k + n \<le> length ?m") auto
    moreover have "?m \<noteq> []" using True by force
    ultimately show ?thesis using nw assms(1) True by (simp add: query_apply_def Let_def)
  next
    case False
    then show ?thesis using nw assms(1) by (auto simp: query_apply_def Let_def)
  qed
qed

lemma concat_pages: "concat (map (\<lambda>k. take n (drop (k * n) xs)) [0..<m]) = take (m * n) xs"
proof (induction m)
  case (Suc m)
  have "take (Suc m * n) xs = take (m * n) xs @ take n (drop (m * n) xs)"
    by (metis add.commute mult_Suc take_add)
  with Suc show ?case by simp
qed simp

lemma parse_unit_row_name: "parse_unit_row l = Some u \<Longrightarrow> suffix ''.service'' (ru_name u)"
  by (auto simp: parse_unit_row_def Let_def split: if_splits list.splits)

lemma services_collect_names:
  assumes "services_collect sys = Inr ss"
  shows "sorted (map ss_name ss)" "\<And>s. s \<in> set ss \<Longrightarrow> suffix ''.service'' (ss_name s)"
proof -
  obtain units files where "ss = sort_key ss_name (map (\<lambda>u.
      \<lparr>ss_name = ru_name u, ss_state = ru_state u,
       ss_enabled = (case parse_list_unit_files files (ru_name u) of Some e \<Rightarrow> e | None \<Rightarrow> None),
       ss_description = ru_description u\<rparr>) (parse_list_units units))"
    using assms by (auto simp: services_collect_def Let_def split: sum.splits)
  then show "sorted (map ss_name ss)" "\<And>s. s \<in> set ss \<Longrightarrow> suffix ''.service'' (ss_name s)"
    by (auto simp: parse_list_units_def List.map_filter_def dest: parse_unit_row_name)
qed

section \<open>Properties\<close>

text \<open>C33. Pages of a query. For any filter and page size (lists far below the 64-bit limit), the pages at
  offsets 0, n, 2n, ... put together are exactly the services that match, in their order: none is
  lost, repeated or moved by paging, and no page is longer than the limit.\<close>

theorem pages_partition:
  assumes "0 < n" "length ss + n \<le> usize_max" "total_matching q ss \<le> m * n"
  shows "\<exists>pages. map (\<lambda>k. query_apply (q\<lparr>sq_limit := Some n, sq_offset := k * n\<rparr>) ss) [0..<m] = map Some pages \<and>
     concat pages = filter (query_matches q) ss \<and> (\<forall>p \<in> set pages. length p \<le> n)"
proof -
  let ?m = "filter (query_matches q) ss"
  let ?pages = "map (\<lambda>k. take n (drop (k * n) ?m)) [0..<m]"
  have "map (\<lambda>k. query_apply (q\<lparr>sq_limit := Some n, sq_offset := k * n\<rparr>) ss) [0..<m] = map Some ?pages"
    using query_apply_page [OF assms(1,2)] by simp
  moreover have "concat ?pages = ?m"
    using assms(3) by (simp add: concat_pages total_matching_def)
  ultimately show ?thesis by (intro exI [of _ ?pages]) auto
qed

definition unit_a :: service_status where
  "unit_a = \<lparr>ss_name = ''a.service'', ss_state = Running, ss_enabled = None, ss_description = None\<rparr>"

definition unit_b :: service_status where
  "unit_b = \<lparr>ss_name = ''b.service'', ss_state = Stopped, ss_enabled = None, ss_description = None\<rparr>"

theorem pages_partition_witness:
  "\<exists>pages. concat pages = [unit_a, unit_b] \<and> length pages = 2"
proof -
  have "filter (query_matches query_default) [unit_a, unit_b] = [unit_a, unit_b]"
    by (simp add: query_matches_def query_default_def)
  then show ?thesis
    using pages_partition [of 1 "[unit_a, unit_b]" query_default 2]
    by (auto simp: total_matching_def u64_max_def dest!: map_eq_imp_length_eq)
qed

text \<open>The sum of offset and limit is not checked: a limit near the largest \<^verbatim>\<open>usize\<close> wraps around and the
  slice panics. (The HTTP handler caps the limit at 1000 first.)\<close>

theorem query_apply_overflow:
  "query_apply (query_default\<lparr>sq_limit := Some usize_max, sq_offset := 1\<rparr>) [unit_a, unit_b] = None"
  by (simp add: query_apply_def query_matches_def query_default_def u64_max_def)

text \<open>Unit names never reach \<^verbatim>\<open>systemctl\<close> unchecked: two managers that answer alike to the fixed
  arguments for valid unit names cannot be told apart by any request for a unit, and in those
  arguments only the unit name varies: it holds no blank, slash or backslash, is not an
  option and ends in \<^verbatim>\<open>.service\<close>.\<close>

theorem services_detail_guarded:
  assumes "\<And>m. validate_unit_name m \<Longrightarrow> sys (GLOBAL_FLAGS @ show_args m) = sys' (GLOBAL_FLAGS @ show_args m)"
  shows "services_detail sys n = services_detail sys' n \<and>
     (\<forall>d. services_detail sys n = Inr d \<longrightarrow> svd_name d = trim n \<and> hd (svd_name d) \<noteq> CHR ''-'' \<and>
        (\<forall>c \<in> {CHR ''/'', CHR '' '', CHR 0x5C, CHR 0x09, CHR 0x0A, CHR 0x0D}. c \<notin> set (svd_name d)) \<and> suffix ''.service'' (svd_name d))"
proof -
  have "services_detail sys n = services_detail sys' n"
    using assms [of "trim n"]
    by (simp add: services_detail_def manager_detail_def run_systemctl_raw_def Let_def)
  moreover have "svd_name d = trim n \<and> validate_unit_name (trim n)" if "services_detail sys n = Inr d" for d
    using that by (auto simp: services_detail_def manager_detail_def detail_of_props_def Let_def
        split: if_splits sum.splits prod.splits)
  ultimately show ?thesis
    by (fastforce simp: validate_unit_name_def unit_name_banned_def list_ex_iff)
qed

theorem services_detail_guarded_witness:
  "services_detail (\<lambda>_. Inl ''x'') ''-x.service'' = services_detail (\<lambda>a. if a = [''reboot''] then Inl ''y'' else Inl ''x'') ''-x.service''"
proof -
  have "GLOBAL_FLAGS @ show_args m \<noteq> [''reboot'']" for m by (simp add: GLOBAL_FLAGS_def)
  then show ?thesis
    using services_detail_guarded [of "\<lambda>_. Inl ''x''" "\<lambda>a. if a = [''reboot''] then Inl ''y'' else Inl ''x''" "''-x.service''"]
    by simp
qed

text \<open>The list of services is sorted by name and has one entry for every well-formed row of
  \<^verbatim>\<open>list-units\<close>, each a \<^verbatim>\<open>.service\<close> unit with the state of its row.\<close>

theorem services_collect_complete:
  assumes "sys (GLOBAL_FLAGS @ [''list-units'', ''--all'', ''--type=service'']) = Inr (True, units, err1)"
    and "sys (GLOBAL_FLAGS @ [''list-unit-files'', ''--type=service'']) = Inr (True, files, err2)"
  shows "\<exists>ss. services_collect sys = Inr ss \<and> sorted (map ss_name ss) \<and>
     mset (map (\<lambda>s. (ss_name s, ss_state s, ss_description s)) ss) =
     mset (map (\<lambda>u. (ru_name u, ru_state u, ru_description u)) (parse_list_units (from_utf8_lossy units))) \<and>
     (\<forall>s \<in> set ss. suffix ''.service'' (ss_name s))"
proof -
  let ?row = "\<lambda>u. \<lparr>ss_name = ru_name u, ss_state = ru_state u,
       ss_enabled = (case parse_list_unit_files (from_utf8_lossy files) (ru_name u) of Some e \<Rightarrow> e | None \<Rightarrow> None),
       ss_description = ru_description u\<rparr>"
  let ?ss = "sort_key ss_name (map ?row (parse_list_units (from_utf8_lossy units)))"
  have c: "services_collect sys = Inr ?ss"
    using assms by (simp add: services_collect_def run_systemctl_def run_systemctl_raw_def Let_def)
  moreover have "mset (map (\<lambda>s. (ss_name s, ss_state s, ss_description s)) ?ss) =
     mset (map (\<lambda>u. (ru_name u, ru_state u, ru_description u)) (parse_list_units (from_utf8_lossy units)))"
    by (simp add: image_mset.compositionality comp_def)
  ultimately show ?thesis using services_collect_names [OF c] by blast
qed

theorem services_collect_complete_witness:
  "\<exists>ss. services_collect (\<lambda>_. Inr (True, [], [])) = Inr ss \<and> sorted (map ss_name ss)"
  using services_collect_complete [of "\<lambda>_. Inr (True, [], [])" "[]" "[]" "[]" "[]"] by blast

end
