(* ===== verification/Handlers.thy ===== *)
theory Handlers
  imports State Auth Services
begin

text \<open>
  \<^verbatim>\<open>services/aborad/src/handlers.rs\<close> and \<^verbatim>\<open>errors.rs\<close>: the HTTP handlers over the state of the daemon. A
  query string arrives as its decoded pairs with distinct keys in the order the hash map happens
  to iterate; log lines are not modelled. Everything a handler takes from outside the process is a
  field of \<^verbatim>\<open>server_env\<close>.
\<close>

section \<open>State and surroundings\<close>

record 'x app_state =
  as_config :: "'x config"
  as_tokens :: "token_store option"
  as_level :: level
  as_uptime_seconds :: nat
  as_started_at :: string
  as_updates :: updates_state

text \<open>\<^verbatim>\<open>AppState::with_updates\<close>; the level is the logger's.\<close>

definition with_updates ::
  "'x config \<Rightarrow> level \<Rightarrow> token_store option \<Rightarrow> updates_state \<Rightarrow> string \<Rightarrow> 'x app_state" where
  "with_updates c l tokens u now = \<lparr>as_config = c, as_tokens = tokens, as_level = l,
     as_uptime_seconds = 0, as_started_at = now, as_updates = u\<rparr>"

record server_env =
  sv_sha256 :: "string \<Rightarrow> hash"
  sv_ser :: serialiser
  sv_io :: io_env
  sv_to_vec :: "apply_request \<Rightarrow> string"
  sv_marker :: reboot_marker
  sv_now :: string
  sv_apply :: apply_world
  sv_systemctl :: systemctl
  sv_f64 :: "string \<Rightarrow> f64 option"
  sv_arch :: string
  sv_files :: "path \<Rightarrow> string + string"
  sv_commit :: "string option"

type_synonym params = "(string \<times> string) list"

text \<open>\<^verbatim>\<open>ApiError::internal\<close>.\<close>

definition internal_error :: "string \<Rightarrow> api_error_body" where
  "internal_error msg = error_body CodeInternal (msg @ '' (framework '' @ version_display version_current @ '')'')"

definition bad_request :: "string \<Rightarrow> api_error_body" where
  "bad_request msg = error_body InvalidRequest msg"

section \<open>Reading\<close>

definition components_health :: "'x app_state \<Rightarrow> component_health list" where
  "components_health st = [updates_health (as_updates st)]"

definition health :: "'x app_state \<Rightarrow> health_response" where
  "health st =
     (let components = components_health st
      in \<lparr>hr_status = (if list_ex (\<lambda>c. ch_status c = Degraded) components then Degraded else HealthOk),
          hr_daemon = \<lparr>di_name = DAEMON_NAME, di_version = version_current\<rparr>,
          hr_api = api_version_current, hr_uptime_seconds = as_uptime_seconds st,
          hr_started_at = as_started_at st, hr_components = components\<rparr>)"

definition version_info :: "server_env \<Rightarrow> version_response" where
  "version_info sv = \<lparr>vr_framework_name = FRAMEWORK_NAME, vr_framework_version = version_current,
     vr_daemon = \<lparr>di_name = DAEMON_NAME, di_version = version_current\<rparr>,
     vr_api = api_version_current, vr_git_commit = sv_commit sv\<rparr>"

definition system :: "server_env \<Rightarrow> 'x app_state \<Rightarrow> api_error_body + system_response" where
  "system sv st = (case sysinfo_collect (sv_f64 sv) (sv_arch sv) (sv_files sv) of
     Inl e \<Rightarrow> Inl (internal_error (''could not collect system information: '' @ sysinfo_error_display e))
   | Inr info \<Rightarrow>
       let override = sc_hostname (cfg_system (as_config st))
       in Inr \<lparr>sy_hostname = (case override of Some h \<Rightarrow> h | None \<Rightarrow> si_hostname info),
           sy_description = sc_description (cfg_system (as_config st)), sy_hostname_override = override,
           sy_architecture = si_architecture info, sy_machine = si_machine info,
           sy_uptime_seconds = as_secs (si_uptime info), sy_os = si_os info, sy_kernel = si_kernel info,
           sy_memory = si_memory info, sy_cpu = si_cpu info, sy_framework_version = version_current\<rparr>)"

section \<open>Services\<close>

definition MAX_SERVICE_PAGE :: nat where "MAX_SERVICE_PAGE = 1000"

definition state_of_param :: "string \<Rightarrow> service_state option" where
  "state_of_param v =
     (if v = ''running'' then Some Running else if v = ''stopped'' then Some Stopped
      else if v = ''failed'' then Some FailedState else if v = ''activating'' then Some Activating
      else if v = ''deactivating'' then Some Deactivating else if v = ''unknown'' then Some UnknownState
      else None)"

text \<open>One turn of the loop over the parameters sets at most one field of the query.\<close>

datatype query_field =
  SetState service_state | SetEnabled bool | SetText string | SetLimit nat | SetOffset nat | SetNothing

fun set_field :: "query_field \<Rightarrow> service_query \<Rightarrow> service_query" where
  "set_field (SetState s) q = q\<lparr>sq_state := Some s\<rparr>"
| "set_field (SetEnabled b) q = q\<lparr>sq_enabled := Some b\<rparr>"
| "set_field (SetText t) q = q\<lparr>sq_text := Some t\<rparr>"
| "set_field (SetLimit n) q = q\<lparr>sq_limit := Some n\<rparr>"
| "set_field (SetOffset n) q = q\<lparr>sq_offset := n\<rparr>"
| "set_field SetNothing q = q"

definition service_param :: "string \<Rightarrow> string \<Rightarrow> string + query_field" where
  "service_param key v =
     (if key = ''state'' then (case state_of_param v of
        Some s \<Rightarrow> Inr (SetState s)
      | None \<Rightarrow> Inl (''`state` must be one of running, stopped, failed, activating, deactivating, unknown (got `'' @ v @ ''`)''))
      else if key = ''enabled'' then
        (if v = ''true'' then Inr (SetEnabled True)
         else if v = ''false'' then Inr (SetEnabled False)
         else Inl (''`enabled` must be true or false (got `'' @ v @ ''`)''))
      else if key = ''q'' then Inr (if v = [] then SetNothing else SetText v)
      else if key = ''limit'' then (case parse_uint usize_max v of
        Some n \<Rightarrow> if 1 \<le> n \<and> n \<le> MAX_SERVICE_PAGE then Inr (SetLimit n)
          else Inl (''`limit` must be a number from 1 to '' @ show_nat MAX_SERVICE_PAGE)
      | None \<Rightarrow> Inl (''`limit` must be a number from 1 to '' @ show_nat MAX_SERVICE_PAGE))
      else if key = ''offset'' then (case parse_uint usize_max v of
        Some n \<Rightarrow> Inr (SetOffset n)
      | None \<Rightarrow> Inl ''`offset` must be a non-negative number'')
      else Inl (''unknown query parameter `'' @ key @ ''`''))"

fun service_params :: "params \<Rightarrow> service_query \<Rightarrow> string + service_query" where
  "service_params [] q = Inr q"
| "service_params ((k, v) # ps) q = (case service_param k v of
     Inl e \<Rightarrow> Inl e | Inr x \<Rightarrow> service_params ps (set_field x q))"

definition parse_service_query :: "params \<Rightarrow> api_error_body + service_query" where
  "parse_service_query ps = map_err bad_request (service_params ps query_default)"

definition services_unavailable :: "services_error \<Rightarrow> api_error_body" where
  "services_unavailable e = error_body ServiceUnavailable
     (''could not query the service registry: '' @ services_error_display e)"

text \<open>The list comes with the number of matches for \<^verbatim>\<open>X-Total-Count\<close>; \<^term>\<open>None\<close> is a panic.\<close>

definition services :: "server_env \<Rightarrow> params \<Rightarrow> (api_error_body + (nat \<times> service_status list)) option" where
  "services sv ps = (case parse_service_query ps of
     Inl e \<Rightarrow> Some (Inl e)
   | Inr query \<Rightarrow> (case services_collect (sv_systemctl sv) of
       Inl e \<Rightarrow> Some (Inl (services_unavailable e))
     | Inr units \<Rightarrow> map_option (\<lambda>page. Inr (total_matching query units, page)) (query_apply query units)))"

definition service_detail_handler :: "server_env \<Rightarrow> string \<Rightarrow> api_error_body + service_detail" where
  "service_detail_handler sv name =
     (if \<not> validate_unit_name name
      then Inl (bad_request ''the service name must be a unit name ending in `.service`'')
      else case services_detail (sv_systemctl sv) name of
        Inr d \<Rightarrow> Inr d
      | Inl (SvNotFound n) \<Rightarrow> Inl (error_body CodeNotFound (''no such service: '' @ n))
      | Inl e \<Rightarrow> Inl (services_unavailable e))"

section \<open>Updates\<close>

definition updates :: "server_env \<Rightarrow> 'x app_state \<Rightarrow> disk \<Rightarrow> updates_response \<times> 'x app_state \<times> disk" where
  "updates sv st d =
     (case updates_response_of (sv_ser sv) (sv_io sv) (sv_marker sv) (sv_now sv) (as_updates st, d) of
        (r, u, d') \<Rightarrow> (r, st\<lparr>as_updates := u\<rparr>, d'))"

fun dry_run_params :: "params \<Rightarrow> bool \<Rightarrow> string + bool" where
  "dry_run_params [] dry = Inr dry"
| "dry_run_params ((k, v) # ps) dry =
     (if k = ''dry_run'' then
        (if v = ''true'' then dry_run_params ps True
         else if v = ''false'' then dry_run_params ps False
         else Inl (''`dry_run` must be true or false (got `'' @ v @ ''`)''))
      else Inl (''unknown query parameter `'' @ k @ ''`''))"

definition apply_updates ::
  "server_env \<Rightarrow> string option \<Rightarrow> params \<Rightarrow> 'x app_state \<Rightarrow> disk \<Rightarrow>
   (api_error_body + (nat \<times> apply_response)) \<times> disk" where
  "apply_updates sv caller ps st d = (case dry_run_params ps False of
     Inl e \<Rightarrow> (Inl (bad_request e), d)
   | Inr dry_run \<Rightarrow>
       let caller = (case caller of Some c \<Rightarrow> c | None \<Rightarrow> ''unknown'')
       in (case request_apply (sv_to_vec sv) (sv_io sv) (sv_apply sv) (as_config st) caller dry_run
                 (as_updates st) d of
             (Inr response, d') \<Rightarrow> (Inr (if dry_run then 200 else 202, response), d')
           | (Inl (RefConflict reason), d') \<Rightarrow> (Inl (error_body CodeConflict reason), d')
           | (Inl (RefInternal _), d') \<Rightarrow>
               (Inl (error_body CodeInternal ''could not hand the request to the update helper''), d')))"

section \<open>Facts\<close>

fun field_index :: "query_field \<Rightarrow> nat" where
  "field_index (SetState _) = 0" | "field_index (SetEnabled _) = 1" | "field_index (SetText _) = 2"
| "field_index (SetLimit _) = 3" | "field_index (SetOffset _) = 4" | "field_index SetNothing = 5"

definition key_index :: "string \<Rightarrow> nat" where
  "key_index k = (if k = ''state'' then 0 else if k = ''enabled'' then 1 else if k = ''q'' then 2
     else if k = ''limit'' then 3 else 4)"

lemma service_param_field:
  "service_param k v = Inr x \<Longrightarrow>
     k \<in> {''state'', ''enabled'', ''q'', ''limit'', ''offset''} \<and>
     (field_index x = key_index k \<or> x = SetNothing) \<and> (\<forall>n. x = SetLimit n \<longrightarrow> 1 \<le> n \<and> n \<le> 1000)"
proof -
  assume p: "service_param k v = Inr x"
  consider "k = ''state''" | "k = ''enabled''" | "k = ''q''" | "k = ''limit''" | "k = ''offset''"
    using p unfolding service_param_def by fastforce
  then show ?thesis
  proof cases
    case 1
    then obtain s where "x = SetState s" using p by (auto simp: service_param_def split: option.splits)
    with 1 show ?thesis by (simp add: key_index_def)
  next
    case 2
    then obtain b where "x = SetEnabled b" using p by (auto simp: service_param_def split: if_splits)
    with 2 show ?thesis by (simp add: key_index_def)
  next
    case 3
    then have "x = SetText v \<or> x = SetNothing" using p by (auto simp: service_param_def split: if_splits)
    with 3 show ?thesis by (auto simp: key_index_def)
  next
    case 4
    then obtain n where "x = SetLimit n" "1 \<le> n" "n \<le> 1000"
      using p by (auto simp: service_param_def MAX_SERVICE_PAGE_def split: option.splits if_splits)
    with 4 show ?thesis by (simp add: key_index_def)
  next
    case 5
    then obtain n where "x = SetOffset n" using p by (auto simp: service_param_def split: option.splits)
    with 5 show ?thesis by (simp add: key_index_def)
  qed
qed

lemma set_field_commute:
  assumes "service_param k v = Inr x" "service_param k' v' = Inr y" "k \<noteq> k'"
  shows "set_field x (set_field y q) = set_field y (set_field x q)"
proof -
  have "key_index k \<noteq> key_index k'"
    using service_param_field [OF assms(1)] service_param_field [OF assms(2)] assms(3)
    by (elim conjE insertE emptyE) (simp_all add: key_index_def)
  then have "field_index x \<noteq> field_index y \<or> x = SetNothing \<or> y = SetNothing"
    using service_param_field [OF assms(1)] service_param_field [OF assms(2)] by metis
  then show ?thesis by (cases x; cases y) simp_all
qed

lemma service_params_limit:
  "service_params ps q = Inr q' \<Longrightarrow> (\<forall>n. sq_limit q = Some n \<longrightarrow> 1 \<le> n \<and> n \<le> 1000) \<Longrightarrow>
   (\<forall>n. sq_limit q' = Some n \<longrightarrow> 1 \<le> n \<and> n \<le> 1000)"
proof (induction ps arbitrary: q)
  case (Cons p ps)
  obtain k v where p: "p = (k, v)" by fastforce
  then obtain x where x: "service_param k v = Inr x" "service_params ps (set_field x q) = Inr q'"
    using Cons.prems(1) by (auto split: sum.splits)
  have "\<forall>n. sq_limit (set_field x q) = Some n \<longrightarrow> 1 \<le> n \<and> n \<le> 1000"
    using service_param_field [OF x(1)] Cons.prems(2) by (cases x) auto
  then show ?case by (rule Cons.IH [OF x(2)])
qed simp

lemma parse_service_query_limit:
  assumes "parse_service_query ps = Inr q" "sq_limit q = Some n"
  shows "1 \<le> n \<and> n \<le> 1000"
proof -
  have p: "service_params ps query_default = Inr q"
    using assms(1) by (simp add: parse_service_query_def map_err_def split: sum.splits)
  have "\<forall>n. sq_limit query_default = Some n \<longrightarrow> 1 \<le> n \<and> n \<le> 1000" by (simp add: query_default_def)
  from service_params_limit [OF p this] assms(2) show ?thesis by blast
qed

text \<open>Parameters with different keys may be taken in any order.\<close>

lemma service_params_move:
  assumes "k \<notin> fst ` set ps"
  shows "result_ok (service_params (ps @ (k, v) # qs) q) = result_ok (service_params ((k, v) # ps @ qs) q)"
  using assms
proof (induction ps arbitrary: q)
  case (Cons p ps)
  obtain k' v' where p: "p = (k', v')" by fastforce
  with Cons.prems have ne: "k' \<noteq> k" by auto
  have IH: "result_ok (service_params (ps @ (k, v) # qs) q') = result_ok (service_params ((k, v) # ps @ qs) q')" for q'
    using Cons by auto
  show ?case
  proof (cases "service_param k v"; cases "service_param k' v'")
    fix x y assume x: "service_param k v = Inr x" and y: "service_param k' v' = Inr y"
    show ?thesis using IH by (simp add: p x y set_field_commute [OF x y ne [symmetric]])
  qed (use IH in \<open>simp_all add: p\<close>)
qed simp

lemma service_params_perm:
  "mset ps = mset qs \<Longrightarrow> distinct (map fst ps) \<Longrightarrow>
   result_ok (service_params ps q) = result_ok (service_params qs q)"
proof (induction ps arbitrary: qs q)
  case (Cons p ps)
  obtain k v where p: "p = (k, v)" by fastforce
  obtain as bs where qs: "qs = as @ p # bs"
    using Cons.prems(1) by (metis list.set_intros(1) mset_eq_setD split_list)
  have m: "mset ps = mset (as @ bs)" using Cons.prems(1) qs by simp
  have "set (as @ bs) = set ps" using m by (metis mset_eq_setD)
  then have k: "k \<notin> fst ` set as" using Cons.prems(2) p by auto
  have "result_ok (service_params qs q) = result_ok (service_params ((k, v) # as @ bs) q)"
    using service_params_move [OF k] by (simp only: qs p)
  also have "\<dots> = result_ok (service_params ((k, v) # ps) q)"
    using Cons.IH [OF m] Cons.prems(2) by (auto split: sum.split)
  finally show ?case by (simp only: p)
qed simp

lemma query_apply_no_panic:
  assumes "\<And>n. sq_limit q = Some n \<Longrightarrow> 1 \<le> n \<and> n \<le> 1000" "length ss + 1000 \<le> usize_max"
  shows "\<exists>page. query_apply q ss = Some page \<and>
     page = (case sq_limit q of Some n \<Rightarrow> take n | None \<Rightarrow> (\<lambda>x. x)) (drop (sq_offset q) (filter (query_matches q) ss))"
proof (cases "sq_limit q")
  case (Some n)
  have q: "q\<lparr>sq_limit := Some n, sq_offset := sq_offset q\<rparr> = q" using Some by simp
  have "0 < n" "length ss + n \<le> usize_max" using assms(1) [OF Some] assms(2) by simp_all
  from query_apply_page [OF this, where q = q and k = "sq_offset q"] show ?thesis
    unfolding q by (simp add: Some)
next
  case None
  then show ?thesis by (auto simp: query_apply_def Let_def min_def)
qed

section \<open>Properties\<close>

text \<open>The query string of the service list. Its parameters mean the same in whatever order the hash map
  yields them; and however large the numbers in it are, the handler never panics on an answer of
  fewer than 2^64 - 1000 units: it returns the matching units from the offset on, at most
  as many as the limit, with the count of all matches.\<close>

theorem service_list_total:
  assumes "length units + 1000 \<le> usize_max" and "services_collect (sv_systemctl sv) = Inr units"
    and "mset ps = mset ps'" "distinct (map fst ps)"
  shows "(\<forall>q. parse_service_query ps = Inr q \<longleftrightarrow> parse_service_query ps' = Inr q) \<and>
    (case parse_service_query ps of
       Inl e \<Rightarrow> services sv ps = Some (Inl e) \<and> http_status (ae_code (aeb_error e)) = 400
     | Inr q \<Rightarrow> services sv ps = Some (Inr (length (filter (query_matches q) units),
         (case sq_limit q of Some n \<Rightarrow> take n | None \<Rightarrow> (\<lambda>x. x))
           (drop (sq_offset q) (filter (query_matches q) units)))))"
proof -
  have ok: "result_ok (service_params ps query_default) = result_ok (service_params ps' query_default)"
    by (rule service_params_perm [OF assms(3,4)])
  have same: "parse_service_query ps = Inr q \<longleftrightarrow> parse_service_query ps' = Inr q" for q
    using ok by (auto simp: parse_service_query_def map_err_def result_ok_def split: sum.splits)
  have refused: "services sv ps = Some (Inl e) \<and> http_status (ae_code (aeb_error e)) = 400"
    if "parse_service_query ps = Inl e" for e
  proof -
    have "ae_code (aeb_error e) = InvalidRequest"
      using that by (auto simp: parse_service_query_def map_err_def bad_request_def error_body_def split: sum.splits)
    with that show ?thesis by (simp add: services_def)
  qed
  have served: "services sv ps = Some (Inr (length (filter (query_matches q) units),
         (case sq_limit q of Some n \<Rightarrow> take n | None \<Rightarrow> (\<lambda>x. x))
           (drop (sq_offset q) (filter (query_matches q) units))))"
    if p: "parse_service_query ps = Inr q" for q
  proof -
    have "query_apply q units = Some ((case sq_limit q of Some n \<Rightarrow> take n | None \<Rightarrow> (\<lambda>x. x))
           (drop (sq_offset q) (filter (query_matches q) units)))"
      using query_apply_no_panic [of q units, OF parse_service_query_limit [OF p] assms(1)] by simp
    then show ?thesis by (simp add: services_def p assms(2) total_matching_def)
  qed
  show ?thesis
  proof (intro conjI allI)
    show "case parse_service_query ps of
       Inl e \<Rightarrow> services sv ps = Some (Inl e) \<and> http_status (ae_code (aeb_error e)) = 400
     | Inr q \<Rightarrow> services sv ps = Some (Inr (length (filter (query_matches q) units),
         (case sq_limit q of Some n \<Rightarrow> take n | None \<Rightarrow> (\<lambda>x. x))
           (drop (sq_offset q) (filter (query_matches q) units))))"
      using refused served by (simp only: sum.case split: sum.split) blast
  qed (rule same)
qed

text \<open>Concrete surroundings for the witnesses.\<close>

definition no_units :: systemctl where
  "no_units _ = Inr (True, [], [])"

definition demo_env :: server_env where
  "demo_env = \<lparr>sv_sha256 = (\<lambda>s. map (of_nat \<circ> of_char) s), sv_ser = (\<lambda>_. []), sv_io = (\<lambda>_. None),
     sv_to_vec = ar_id, sv_marker = \<lparr>rm_exists = False, rm_pkgs = None\<rparr>, sv_now = ''t'',
     sv_apply = sunday_world, sv_systemctl = no_units, sv_f64 = (\<lambda>_. None), sv_arch = ''x86_64'',
     sv_files = (\<lambda>_. Inl ''x''), sv_commit = None\<rparr>"

lemma demo_env_simps [simp]:
  "sv_sha256 demo_env = (\<lambda>s. map (of_nat \<circ> of_char) s)" "sv_io demo_env = (\<lambda>_. None)"
  "sv_to_vec demo_env = ar_id" "sv_apply demo_env = sunday_world" "sv_systemctl demo_env = no_units"
  by (simp_all add: demo_env_def)

lemma collect_no_units: "services_collect no_units = Inr []"
  by (simp add: services_collect_def run_systemctl_def run_systemctl_raw_def no_units_def Let_def
      parse_list_units_def lines_def List.map_filter_def from_utf8_lossy.simps [of "[]"])

theorem service_list_total_witness:
  "services demo_env [(''limit'', ''5''), (''offset'', ''7'')] = Some (Inr (0, []))"
proof -
  let ?ps = "[(''limit'', ''5''), (''offset'', ''7'')]"
  let ?ps' = "[(''offset'', ''7''), (''limit'', ''5'')]"
  have l: "length ([] :: service_status list) + 1000 \<le> usize_max" by (simp add: u64_max_def)
  have c: "services_collect (sv_systemctl demo_env) = Inr []"
    by (simp add: collect_no_units)
  have m: "mset ?ps = mset ?ps'" by (simp add: add_mset_commute)
  have d: "distinct (map fst ?ps)" by simp
  have "parse_service_query ?ps = Inr (query_default\<lparr>sq_limit := Some 5, sq_offset := 7\<rparr>)"
    by (simp add: parse_service_query_def service_param_def parse_uint_def is_ascii_digit_def digits_val_def
        digit_val_def u64_max_def MAX_SERVICE_PAGE_def)
  with service_list_total [OF l c m d] show ?thesis by simp
qed

end
