(* ===== verification/Server.thy ===== *)
theory Server
  imports Handlers
begin

unbundle bit_operations_syntax

text \<open>
  \<^verbatim>\<open>services/aborad/src/server.rs\<close>: the route table, the authorisation middleware around every route and
  the outermost layer that gives every request an identifier and writes it into error bodies. The
  web framework (\<^verbatim>\<open>axum\<close>, \<^verbatim>\<open>http\<close>) and \<^verbatim>\<open>serde_json\<close> are the fields of \<^verbatim>\<open>web\<close>. The value \<^term>\<open>None\<close> in place of
  a response is a panic of the handler.
\<close>

section \<open>Requests, responses and the framework\<close>

type_synonym headers = "(string \<times> string) list"

record http_request =
  rq_method :: string
  rq_uri :: string
  rq_path :: string
  rq_headers :: headers
  rq_peer :: "ip_addr option"

record http_response =
  hs_status :: nat
  hs_headers :: headers
  hs_body :: string

definition X_REQUEST_ID :: string where "X_REQUEST_ID = ''x-request-id''"
definition CONTENT_TYPE :: string where "CONTENT_TYPE = ''content-type''"
definition CONTENT_LENGTH :: string where "CONTENT_LENGTH = ''content-length''"
definition APPLICATION_JSON :: string where "APPLICATION_JSON = ''application/json''"

text \<open>\<^verbatim>\<open>HeaderMap::get\<close>, \<^verbatim>\<open>remove\<close> and \<^verbatim>\<open>insert\<close>; names are lower case.\<close>

definition header_get :: "string \<Rightarrow> headers \<Rightarrow> string option" where
  "header_get n hs = map_of hs n"

definition header_remove :: "string \<Rightarrow> headers \<Rightarrow> headers" where
  "header_remove n hs = filter (\<lambda>(m, _). m \<noteq> n) hs"

definition header_insert :: "string \<Rightarrow> string \<Rightarrow> headers \<Rightarrow> headers" where
  "header_insert n v hs = header_remove n hs @ [(n, v)]"

datatype response_body =
  BHealth health_response | BVersion version_response | BSystem system_response
| BServices "service_status list" | BDetail service_detail | BUpdates updates_response
| BApply apply_response | BError api_error_body

text \<open>\<^verbatim>\<open>wb_match\<close> picks one of the registered path patterns, \<^verbatim>\<open>wb_method\<close> says whether a method router
  built with a method serves a request method, \<^verbatim>\<open>wb_query\<close> and \<^verbatim>\<open>wb_name\<close> are the extractors with their
  rejections.\<close>

record web =
  wb_match :: "string list \<Rightarrow> string \<Rightarrow> string option"
  wb_method :: "string \<Rightarrow> string \<Rightarrow> bool"
  wb_not_allowed :: http_response
  wb_query :: "http_request \<Rightarrow> http_response + params"
  wb_name :: "http_request \<Rightarrow> http_response + string"
  wb_to_str :: "string \<Rightarrow> string option"
  wb_from_str :: "string \<Rightarrow> string option"
  wb_collect :: "string \<Rightarrow> string option"
  wb_json :: "response_body \<Rightarrow> string"
  wb_from_slice :: "string \<Rightarrow> json option"
  wb_to_vec :: "json \<Rightarrow> string option"

definition json_response :: "web \<Rightarrow> nat \<Rightarrow> response_body \<Rightarrow> http_response" where
  "json_response web status b =
     \<lparr>hs_status = status, hs_headers = [(CONTENT_TYPE, APPLICATION_JSON)], hs_body = wb_json web b\<rparr>"

text \<open>\<^verbatim>\<open>impl IntoResponse for ApiError\<close>.\<close>

definition error_response :: "web \<Rightarrow> api_error_body \<Rightarrow> http_response" where
  "error_response web b = json_response web (http_status (ae_code (aeb_error b))) (BError b)"

section \<open>Request identifiers\<close>

definition request_id_char :: "char \<Rightarrow> bool" where
  "request_id_char c \<longleftrightarrow> is_ascii_alphanumeric c \<or> c \<in> set ''-_.:''"

definition incoming_request_id :: "string \<Rightarrow> bool" where
  "incoming_request_id value \<longleftrightarrow> value \<noteq> [] \<and> length value \<le> 128 \<and> list_all request_id_char value"

definition HEX :: string where "HEX = ''0123456789abcdef''"

definition hex_lower :: "u8 list \<Rightarrow> string" where
  "hex_lower bytes = concat (map (\<lambda>b. [HEX ! unat (drop_bit 4 b), HEX ! unat (b AND 0x0F)]) bytes)"

definition to_le_bytes :: "u64 \<Rightarrow> u8 list" where
  "to_le_bytes w = map (\<lambda>i. ucast (drop_bit (8 * i) w)) [0..<8]"

text \<open>What one call takes from outside: eight bytes of \<^verbatim>\<open>/dev/urandom\<close> or a failure, the clock (0 before
  1970), the process id.\<close>

record entropy =
  en_urandom :: "u8 list option"
  en_nanos :: u64
  en_pid :: u32

definition mix_id :: "u64 \<Rightarrow> u32 \<Rightarrow> u64 \<Rightarrow> u64" where
  "mix_id nanos pid counter =
     nanos XOR word_rotl 32 (ucast pid) XOR (counter * 0x9E3779B97F4A7C15)"

text \<open>The identifier and the static counter after the call.\<close>

definition generate_request_id :: "entropy \<Rightarrow> u64 \<Rightarrow> string \<times> u64" where
  "generate_request_id e counter = (case en_urandom e of
     Some bytes \<Rightarrow> (hex_lower bytes, counter)
   | None \<Rightarrow> (hex_lower (to_le_bytes (mix_id (en_nanos e) (en_pid e) counter)), counter + 1))"

definition response_from_bytes :: "http_response \<Rightarrow> string \<Rightarrow> http_response" where
  "response_from_bytes parts payload =
     parts\<lparr>hs_headers := header_insert CONTENT_TYPE APPLICATION_JSON
             (header_remove CONTENT_LENGTH (hs_headers parts)), hs_body := payload\<rparr>"

text \<open>The changed value, \<^term>\<open>None\<close> when the envelope is missing or already carries an identifier.\<close>

definition inject_value :: "string \<Rightarrow> json \<Rightarrow> json option" where
  "inject_value i v = (case v of
     JObj m \<Rightarrow> (case m ''error'' of
        Some (JObj e) \<Rightarrow>
          if e ''request_id'' \<noteq> None then None
          else Some (JObj (m(''error'' \<mapsto> JObj (e(''request_id'' \<mapsto> JStr i)))))
      | _ \<Rightarrow> None)
   | _ \<Rightarrow> None)"

definition is_json :: "web \<Rightarrow> http_response \<Rightarrow> bool" where
  "is_json web r = (case Option.bind (header_get CONTENT_TYPE (hs_headers r)) (wb_to_str web) of
     Some ct \<Rightarrow> prefix APPLICATION_JSON ct | None \<Rightarrow> False)"

definition inject_request_id :: "web \<Rightarrow> http_response \<Rightarrow> string \<Rightarrow> http_response" where
  "inject_request_id web response i =
     (if \<not> is_json web response then response
      else case wb_collect web (hs_body response) of
        None \<Rightarrow> response\<lparr>hs_body := []\<rparr>
      | Some bytes \<Rightarrow> (case wb_from_slice web bytes of
          None \<Rightarrow> response_from_bytes response bytes
        | Some value \<Rightarrow> response_from_bytes response (case inject_value i value of
            Some value' \<Rightarrow> (case wb_to_vec web value' of Some payload \<Rightarrow> payload | None \<Rightarrow> bytes)
          | None \<Rightarrow> bytes)))"

definition is_error_status :: "nat \<Rightarrow> bool" where
  "is_error_status n \<longleftrightarrow> 400 \<le> n \<and> n < 600"

text \<open>The state of the server is the counter, the state of the daemon and the disk.\<close>

type_synonym 'x server = "u64 \<times> 'x app_state \<times> disk"
type_synonym 'x reply = "http_response option \<times> 'x app_state \<times> disk"

definition request_id_of :: "web \<Rightarrow> entropy \<Rightarrow> http_request \<Rightarrow> u64 \<Rightarrow> string \<times> u64" where
  "request_id_of web e req counter =
     (case Option.bind (header_get X_REQUEST_ID (rq_headers req)) (wb_to_str web) of
        Some s \<Rightarrow> if incoming_request_id s then (s, counter) else generate_request_id e counter
      | None \<Rightarrow> generate_request_id e counter)"

definition finish_response :: "web \<Rightarrow> string \<Rightarrow> http_response \<Rightarrow> http_response" where
  "finish_response web i response =
     (let response = response\<lparr>hs_headers := header_insert X_REQUEST_ID
            (case wb_from_str web i of Some v \<Rightarrow> v | None \<Rightarrow> ''unknown'') (hs_headers response)\<rparr>
      in if is_error_status (hs_status response) then inject_request_id web response i else response)"

definition request_id_layer ::
  "web \<Rightarrow> entropy \<Rightarrow> (http_request \<Rightarrow> 'x app_state \<times> disk \<Rightarrow> 'x reply) \<Rightarrow>
   http_request \<Rightarrow> 'x server \<Rightarrow> http_response option \<times> 'x server" where
  "request_id_layer web e run_next req = (\<lambda>(counter, st, d).
     (case request_id_of web e req counter of (i, counter') \<Rightarrow>
        (case run_next req (st, d) of (response, st', d') \<Rightarrow>
           (map_option (finish_response web i) response, counter', st', d'))))"

section \<open>Authorisation\<close>

definition bearer_value :: "string \<Rightarrow> string option" where
  "bearer_value header = Option.bind (split_once (CHR '' '') header) (\<lambda>(scheme, rest).
     if \<not> eq_ignore_ascii_case scheme ''Bearer'' then None
     else let token = trim rest in if token = [] then None else Some token)"

definition bearer_of :: "web \<Rightarrow> http_request \<Rightarrow> string option" where
  "bearer_of web req =
     Option.bind (Option.bind (header_get ''authorization'' (rq_headers req)) (wb_to_str web)) bearer_value"

definition active_store :: "'x app_state \<Rightarrow> token_store option" where
  "active_store st =
     (if sec_require_authentication (cfg_security (as_config st)) then as_tokens st else None)"

definition caller_name :: "(string \<Rightarrow> hash) \<Rightarrow> token_store option \<Rightarrow> string option \<Rightarrow> string option" where
  "caller_name sha256 store bearer = (case (store, bearer) of
     (Some st, Some secret) \<Rightarrow> map_option (\<lambda>t. case tk_name t of Some n \<Rightarrow> n | None \<Rightarrow> ''unnamed token'')
        (token_find sha256 st secret)
   | _ \<Rightarrow> None)"

definition peer_of :: "http_request \<Rightarrow> ip_addr" where
  "peer_of req = (case rq_peer req of Some ip \<Rightarrow> ip | None \<Rightarrow> V4 0 0 0 0)"

definition decision_of :: "web \<Rightarrow> server_env \<Rightarrow> permission \<Rightarrow> http_request \<Rightarrow> 'x app_state \<Rightarrow> decision" where
  "decision_of web sv permission req st =
     authorize (sv_sha256 sv) (peer_of req) permission (bearer_of web req) (active_store st)"

definition authorize_layer ::
  "web \<Rightarrow> server_env \<Rightarrow> permission \<Rightarrow> (string option \<Rightarrow> http_request \<Rightarrow> 'x app_state \<times> disk \<Rightarrow> 'x reply) \<Rightarrow>
   http_request \<Rightarrow> 'x app_state \<times> disk \<Rightarrow> 'x reply" where
  "authorize_layer web sv permission run_next req = (\<lambda>(st, d).
     (let decision = decision_of web sv permission req st;
          caller = caller_name (sv_sha256 sv) (active_store st) (bearer_of web req)
      in if decision = Allowed
         then run_next (Some (case caller of Some n \<Rightarrow> n | None \<Rightarrow> ''loopback (no token)'')) req (st, d)
         else (case into_denial decision permission of
             Some body \<Rightarrow> (Some (error_response web body), st, d)
           | None \<Rightarrow> (Some (error_response web (internal_error ''unexpected authorization failure'')), st, d))))"

section \<open>Routes\<close>

datatype handler = HHealth | HVersion | HSystem | HServices | HServiceDetail | HApplyUpdates | HUpdates

record route =
  rt_pattern :: string
  rt_method :: string
  rt_handler :: handler
  rt_permission :: permission

definition routes :: "string \<Rightarrow> route list" where
  "routes base =
    [\<lparr>rt_pattern = endpoint base ''health'', rt_method = ''GET'', rt_handler = HHealth, rt_permission = ReadHealth\<rparr>,
     \<lparr>rt_pattern = endpoint base ''version'', rt_method = ''GET'', rt_handler = HVersion, rt_permission = ReadVersion\<rparr>,
     \<lparr>rt_pattern = endpoint base ''system'', rt_method = ''GET'', rt_handler = HSystem, rt_permission = ReadSystem\<rparr>,
     \<lparr>rt_pattern = endpoint base ''services'', rt_method = ''GET'', rt_handler = HServices, rt_permission = ReadServices\<rparr>,
     \<lparr>rt_pattern = endpoint base ''services/{name}'', rt_method = ''GET'', rt_handler = HServiceDetail,
       rt_permission = ReadServices\<rparr>,
     \<lparr>rt_pattern = endpoint base ''updates/apply'', rt_method = ''POST'', rt_handler = HApplyUpdates,
       rt_permission = ManageUpdates\<rparr>,
     \<lparr>rt_pattern = endpoint base ''updates'', rt_method = ''GET'', rt_handler = HUpdates, rt_permission = ReadUpdates\<rparr>]"

definition of_result :: "web \<Rightarrow> ('a \<Rightarrow> http_response) \<Rightarrow> api_error_body + 'a \<Rightarrow> http_response" where
  "of_result web f r = (case r of Inl e \<Rightarrow> error_response web e | Inr a \<Rightarrow> f a)"

text \<open>One handler with its extractors.\<close>

definition run_handler ::
  "web \<Rightarrow> server_env \<Rightarrow> handler \<Rightarrow> string option \<Rightarrow> http_request \<Rightarrow> 'x app_state \<times> disk \<Rightarrow> 'x reply" where
  "run_handler web sv h caller req = (\<lambda>(st, d). (case h of
     HHealth \<Rightarrow> (Some (json_response web 200 (BHealth (health st))), st, d)
   | HVersion \<Rightarrow> (Some (json_response web 200 (BVersion (version_info sv))), st, d)
   | HSystem \<Rightarrow> (Some (of_result web (\<lambda>s. json_response web 200 (BSystem s)) (system sv st)), st, d)
   | HServices \<Rightarrow> (case wb_query web req of
        Inl rejection \<Rightarrow> (Some rejection, st, d)
      | Inr ps \<Rightarrow> (map_option (of_result web (\<lambda>(n, page).
            let r = json_response web 200 (BServices page)
            in r\<lparr>hs_headers := hs_headers r @ [(''x-total-count'', show_nat n)]\<rparr>)) (services sv ps), st, d))
   | HServiceDetail \<Rightarrow> (case wb_name web req of
        Inl rejection \<Rightarrow> (Some rejection, st, d)
      | Inr name \<Rightarrow> (Some (of_result web (\<lambda>x. json_response web 200 (BDetail x))
            (service_detail_handler sv name)), st, d))
   | HApplyUpdates \<Rightarrow> (case wb_query web req of
        Inl rejection \<Rightarrow> (Some rejection, st, d)
      | Inr ps \<Rightarrow> (case apply_updates sv caller ps st d of
          (r, d') \<Rightarrow> (Some (of_result web (\<lambda>(status, a). json_response web status (BApply a)) r), st, d')))
   | HUpdates \<Rightarrow> (case updates sv st d of (u, st', d') \<Rightarrow> (Some (json_response web 200 (BUpdates u)), st', d'))))"

text \<open>The layer of a route also covers the answer to a method it does not serve.\<close>

definition route_service ::
  "web \<Rightarrow> server_env \<Rightarrow> route \<Rightarrow> http_request \<Rightarrow> 'x app_state \<times> disk \<Rightarrow> 'x reply" where
  "route_service web sv r = authorize_layer web sv (rt_permission r) (\<lambda>caller req (st, d).
     if wb_method web (rt_method r) (rq_method req) then run_handler web sv (rt_handler r) caller req (st, d)
     else (Some (wb_not_allowed web), st, d))"

definition fallback :: "web \<Rightarrow> http_request \<Rightarrow> http_response" where
  "fallback web req = error_response web (error_body CodeNotFound (''no API route matches `'' @ rq_uri req @ ''`''))"

definition find_route :: "web \<Rightarrow> string \<Rightarrow> http_request \<Rightarrow> route option" where
  "find_route web base req = Option.bind (wb_match web (map rt_pattern (routes base)) (rq_path req))
     (\<lambda>pattern. find (\<lambda>r. rt_pattern r = pattern) (routes base))"

definition dispatch :: "web \<Rightarrow> server_env \<Rightarrow> string \<Rightarrow> http_request \<Rightarrow> 'x app_state \<times> disk \<Rightarrow> 'x reply" where
  "dispatch web sv base req = (\<lambda>(st, d). (case find_route web base req of
     None \<Rightarrow> (Some (fallback web req), st, d)
   | Some r \<Rightarrow> route_service web sv r req (st, d)))"

text \<open>\<^verbatim>\<open>build\<close> takes the base path once, when the server starts.\<close>

definition serve ::
  "web \<Rightarrow> server_env \<Rightarrow> string \<Rightarrow> entropy \<Rightarrow> http_request \<Rightarrow> 'x server \<Rightarrow> http_response option \<times> 'x server" where
  "serve web sv base e = request_id_layer web e (dispatch web sv base)"

section \<open>Facts\<close>

lemma HEX_nth: "n < 16 \<Longrightarrow> HEX ! n = hex_digit n"
proof -
  have char: "c = char_of m \<longleftrightarrow> of_char c = take_bit 8 m" for c and m :: nat
    by (metis char_of_eq_iff)
  have "list_all (\<lambda>n. HEX ! n = hex_digit n) [0..<16]"
    by (simp add: upt_rec HEX_def hex_digit_def char)
  moreover assume "n < 16"
  ultimately show ?thesis by (simp add: list_all_iff)
qed

lemma nibbles: "unat (drop_bit 4 (b :: u8)) = unat b div 16" "unat (b AND 0x0F) = unat b mod 16"
proof -
  have "(b AND 0x0F) = take_bit 4 b" by (simp add: take_bit_eq_mask mask_eq_exp_minus_1)
  then have "unat (b AND 0x0F) = take_bit 4 (unat b)" by (simp only: unsigned_take_bit_eq)
  then show "unat (b AND 0x0F) = unat b mod 16" by (simp add: take_bit_eq_mod)
qed (simp add: drop_bit_eq_div unat_div)

lemma nibble_bounds: "unat (b :: u8) div 16 < 16" "unat b mod 16 < 16"
proof -
  have "unat b < 2 ^ 8" using unsigned_less [of b, where ?'a = nat] by simp
  then show "unat b div 16 < 16" by simp
qed simp

text \<open>The routine agrees with the encoder of the token files.\<close>

lemma hex_lower_encode: "hex_lower bs = hex_encode bs"
  by (simp add: hex_lower_def hex_encode_def nibbles HEX_nth nibble_bounds)

lemma length_hex_lower [simp]: "length (hex_lower bs) = 2 * length bs"
  by (induction bs) (simp_all add: hex_lower_def)

lemma hex_lower_chars: "list_all request_id_char (hex_lower bs)"
  by (induction bs)
    (simp_all add: hex_lower_encode hex_encode_def request_id_char_def hex_digit_alnum nibble_bounds)

lemma hex_lower_id: "length bs = 8 \<Longrightarrow> incoming_request_id (hex_lower bs)"
  by (cases bs) (auto simp: incoming_request_id_def hex_lower_chars, simp add: hex_lower_def)

lemma length_to_le_bytes [simp]: "length (to_le_bytes w) = 8"
  by (simp add: to_le_bytes_def)

lemma generate_request_id_ok:
  assumes "\<And>bs. en_urandom e = Some bs \<Longrightarrow> length bs = 8"
  shows "incoming_request_id (fst (generate_request_id e c)) \<and> length (fst (generate_request_id e c)) = 16"
  using assms by (cases "en_urandom e") (auto simp: generate_request_id_def hex_lower_id)

lemma header_insert_one [simp]: "filter (\<lambda>(m, _). m = n) (header_insert n v hs) = [(n, v)]"
  by (simp add: header_insert_def header_remove_def filter_empty_conv) auto

lemma header_remove_other: "n \<noteq> k \<Longrightarrow> filter (\<lambda>(m, _). m = n) (header_remove k hs) = filter (\<lambda>(m, _). m = n) hs"
  by (induction hs) (auto simp: header_remove_def)

lemma header_insert_other:
  "n \<noteq> k \<Longrightarrow> filter (\<lambda>(m, _). m = n) (header_insert k v hs) = filter (\<lambda>(m, _). m = n) hs"
  by (simp add: header_insert_def header_remove_other)

lemma header_get_remove: "n \<noteq> k \<Longrightarrow> header_get n (header_remove k hs) = header_get n hs"
  by (induction hs) (auto simp: header_get_def header_remove_def)

lemma header_get_insert: "header_get n (header_insert k v hs) = (if n = k then Some v else header_get n hs)"
proof -
  have "map_of (header_remove k hs) k = None" by (induction hs) (auto simp: header_remove_def)
  then show ?thesis
    using header_get_remove [of n k hs]
    by (auto simp: header_get_def header_insert_def map_add_def split: option.split)
qed

lemma header_names [simp]:
  "X_REQUEST_ID \<noteq> CONTENT_TYPE" "X_REQUEST_ID \<noteq> CONTENT_LENGTH" "CONTENT_TYPE \<noteq> X_REQUEST_ID"
  "CONTENT_TYPE \<noteq> CONTENT_LENGTH"
  by (simp_all add: X_REQUEST_ID_def CONTENT_TYPE_def CONTENT_LENGTH_def)

lemma response_from_bytes_simps [simp]:
  "hs_status (response_from_bytes r b) = hs_status r" "hs_body (response_from_bytes r b) = b"
  "filter (\<lambda>(m, _). m = X_REQUEST_ID) (hs_headers (response_from_bytes r b)) =
     filter (\<lambda>(m, _). m = X_REQUEST_ID) (hs_headers r)"
  by (simp_all add: response_from_bytes_def header_insert_other header_remove_other)

lemma inject_request_id_simps [simp]:
  "hs_status (inject_request_id web r i) = hs_status r"
  "filter (\<lambda>(m, _). m = X_REQUEST_ID) (hs_headers (inject_request_id web r i)) =
     filter (\<lambda>(m, _). m = X_REQUEST_ID) (hs_headers r)"
  by (simp_all add: inject_request_id_def split: option.split)

lemma finish_response_simps [simp]: "hs_status (finish_response web i r) = hs_status r"
  by (simp add: finish_response_def Let_def)

lemma finish_response_header:
  assumes "wb_from_str web i = Some i"
  shows "filter (\<lambda>(m, _). m = X_REQUEST_ID) (hs_headers (finish_response web i r)) = [(X_REQUEST_ID, i)]"
  by (simp add: finish_response_def Let_def assms)

lemma is_json_insert: "is_json web (r\<lparr>hs_headers := header_insert X_REQUEST_ID v (hs_headers r)\<rparr>) = is_json web r"
  by (simp add: is_json_def header_get_insert)

lemma is_json_finish: "is_json web (finish_response web i r) \<Longrightarrow> is_json web r"
  by (auto simp: finish_response_def Let_def is_json_insert inject_request_id_def split: if_splits)

lemma serve_cases:
  assumes "serve web sv base e req (c, st, d) = (Some resp, c', st', d')"
  obtains r where "dispatch web sv base req (st, d) = (Some r, st', d')"
    "resp = finish_response web (fst (request_id_of web e req c)) r" "c' = snd (request_id_of web e req c)"
  using assms by (auto simp: serve_def request_id_layer_def split: prod.splits)

lemma request_id_of_ok:
  assumes "\<And>bs. en_urandom e = Some bs \<Longrightarrow> length bs = 8"
  shows "incoming_request_id (fst (request_id_of web e req c))"
  using generate_request_id_ok [OF assms, of _ c]
  by (auto simp: request_id_of_def split: option.split)

subsection \<open>Errors of the handlers\<close>

definition plain_error :: "api_error_body \<Rightarrow> bool" where
  "plain_error b \<longleftrightarrow> ae_request_id (aeb_error b) = None"

lemma plain_error_body [simp]: "plain_error (error_body c m)"
  by (simp add: plain_error_def error_body_def)

lemma plain_errors [simp]: "plain_error (bad_request m)" "plain_error (internal_error m)"
  "plain_error (services_unavailable e)"
  by (simp_all add: bad_request_def internal_error_def services_unavailable_def)

lemma into_denial_plain: "into_denial dec p = Some b \<Longrightarrow> plain_error b"
  by (auto simp: into_denial_def Let_def split: decision.splits)

lemma handler_plain:
  "system sv st = Inl b \<Longrightarrow> plain_error b"
  "services sv ps = Some (Inl b) \<Longrightarrow> plain_error b"
  "service_detail_handler sv name = Inl b \<Longrightarrow> plain_error b"
  "apply_updates sv caller ps st d = (Inl b, d') \<Longrightarrow> plain_error b"
  by (auto simp: system_def Let_def services_def parse_service_query_def map_err_def service_detail_handler_def
      apply_updates_def split: sum.splits option.splits if_splits services_error.splits prod.splits
      apply_refusal.splits)

text \<open>What a handler can answer: an error of its own, a body with a status below 400, or what an
  extractor of the framework rejected.\<close>

definition own_reply :: "web \<Rightarrow> http_response \<Rightarrow> bool" where
  "own_reply web r \<longleftrightarrow> (\<exists>b. plain_error b \<and> r = error_response web b) \<or> hs_status r < 400"

definition rejections :: "web \<Rightarrow> http_response set" where
  "rejections web = {wb_not_allowed web} \<union> {r. \<exists>req. wb_query web req = Inl r \<or> wb_name web req = Inl r}"

lemma own_reply_simps [simp]:
  "plain_error b \<Longrightarrow> own_reply web (error_response web b)"
  "own_reply web (json_response web 200 x)" "own_reply web (json_response web 202 x)"
  "own_reply web (json_response web 200 x\<lparr>hs_headers := hs\<rparr>)"
  by (auto simp: own_reply_def json_response_def)

lemma own_reply_of_result:
  "(\<And>b. r = Inl b \<Longrightarrow> plain_error b) \<Longrightarrow> (\<And>a. r = Inr a \<Longrightarrow> own_reply web (f a)) \<Longrightarrow>
   own_reply web (of_result web f r)"
  by (cases r) (simp_all add: of_result_def)

lemma apply_updates_status: "apply_updates sv caller ps st d = (Inr (n, a), d') \<Longrightarrow> n = 200 \<or> n = 202"
  by (auto simp: apply_updates_def Let_def split: sum.splits prod.splits if_splits apply_refusal.splits)

lemma run_handler_reply:
  assumes "run_handler web sv h caller req (st, d) = (Some r, st', d')"
  shows "own_reply web r \<or> r \<in> rejections web"
proof (cases h)
  case HServices
  with assms show ?thesis
    by (auto simp: run_handler_def rejections_def Let_def split: sum.splits
        intro!: own_reply_of_result dest!: handler_plain(2))
next
  case HApplyUpdates
  show ?thesis
  proof (cases "wb_query web req")
    case (Inl x)
    with assms HApplyUpdates show ?thesis by (auto simp: run_handler_def rejections_def)
  next
    case (Inr ps)
    with assms HApplyUpdates obtain q where q: "apply_updates sv caller ps st d = (q, d')"
      "r = of_result web (\<lambda>(status, a). json_response web status (BApply a)) q"
      by (auto simp: run_handler_def split: prod.splits)
    have "own_reply web r"
      unfolding q(2) using q(1)
      by (intro own_reply_of_result) (auto dest: handler_plain(4) dest!: apply_updates_status)
    then show ?thesis by blast
  qed
qed (use assms in \<open>auto simp: run_handler_def rejections_def split: sum.splits prod.splits
       intro!: own_reply_of_result dest: handler_plain\<close>)

lemma dispatch_cases:
  assumes "dispatch web sv base req (st, d) = (Some r, st', d')"
  obtains (unknown) "find_route web base req = None" "r = fallback web req" "st' = st" "d' = d"
  | (denied) rt b where "find_route web base req = Some rt" "st' = st" "d' = d"
      "decision_of web sv (rt_permission rt) req st \<noteq> Allowed"
      "into_denial (decision_of web sv (rt_permission rt) req st) (rt_permission rt) = Some b"
      "r = error_response web b"
  | (wrong_method) rt where "find_route web base req = Some rt" "st' = st" "d' = d"
      "decision_of web sv (rt_permission rt) req st = Allowed"
      "\<not> wb_method web (rt_method rt) (rq_method req)" "r = wb_not_allowed web"
  | (handled) rt caller where "find_route web base req = Some rt"
      "decision_of web sv (rt_permission rt) req st = Allowed"
      "wb_method web (rt_method rt) (rq_method req)"
      "caller = (case caller_name (sv_sha256 sv) (active_store st) (bearer_of web req) of
         Some n \<Rightarrow> n | None \<Rightarrow> ''loopback (no token)'')"
      "run_handler web sv (rt_handler rt) (Some caller) req (st, d) = (Some r, st', d')"
proof (cases "find_route web base req")
  case (Some rt)
  have "into_denial dec p \<noteq> None" if "dec \<noteq> Allowed" for dec p
    using that by (cases dec) (simp_all add: into_denial_def Let_def)
  with assms Some denied wrong_method handled show ?thesis
    by (auto simp: dispatch_def route_service_def authorize_layer_def Let_def split: if_splits option.splits)
qed (use assms unknown in \<open>simp add: dispatch_def\<close>)

lemma dispatch_reply:
  assumes "dispatch web sv base req (st, d) = (Some r, st', d')"
  shows "own_reply web r \<or> r \<in> rejections web"
  using assms
proof (cases rule: dispatch_cases)
  case (denied rt b)
  then show ?thesis using into_denial_plain by auto
next
  case (handled rt caller)
  show ?thesis by (rule run_handler_reply [OF handled(5)])
qed (simp_all add: fallback_def rejections_def)

lemma is_json_error_response:
  "wb_to_str web APPLICATION_JSON = Some APPLICATION_JSON \<Longrightarrow> is_json web (error_response web b)"
  by (simp add: is_json_def error_response_def json_response_def header_get_def)

lemma find_route_in: "find_route web base req = Some rt \<Longrightarrow> rt \<in> set (routes base)"
  by (auto simp: find_route_def find_Some_iff bind_eq_Some_conv)

section \<open>Properties\<close>

text \<open>Every answer carries exactly one request identifier. It is the identifier the client sent when that is
  1 to 128 characters from letters, digits, \<^verbatim>\<open>-_.:\<close>, and otherwise a generated one of 16 hex digits;
  nothing else of a request reaches the header. (Header values accept such strings, and
  \<^verbatim>\<open>/dev/urandom\<close> delivers eight bytes or fails.)\<close>

theorem response_identified:
  assumes hv: "\<And>s. incoming_request_id s \<Longrightarrow> wb_from_str web s = Some s"
    and rnd: "\<And>bs. en_urandom e = Some bs \<Longrightarrow> length bs = 8"
    and run: "serve web sv base e req (c, st, d) = (Some resp, c', st', d')"
  shows "\<exists>i. filter (\<lambda>(n, _). n = X_REQUEST_ID) (hs_headers resp) = [(X_REQUEST_ID, i)] \<and>
     incoming_request_id i \<and>
     (case Option.bind (header_get X_REQUEST_ID (rq_headers req)) (wb_to_str web) of
        Some s \<Rightarrow> if incoming_request_id s then i = s \<and> c' = c else length i = 16
      | None \<Rightarrow> length i = 16)"
proof -
  let ?i = "fst (request_id_of web e req c)"
  obtain r where r: "resp = finish_response web ?i r" "c' = snd (request_id_of web e req c)"
    using serve_cases [OF run] by blast
  have ok: "incoming_request_id ?i" by (rule request_id_of_ok [OF rnd])
  have "filter (\<lambda>(n, _). n = X_REQUEST_ID) (hs_headers resp) = [(X_REQUEST_ID, ?i)]"
    unfolding r(1) by (rule finish_response_header [OF hv [OF ok]])
  moreover have "case Option.bind (header_get X_REQUEST_ID (rq_headers req)) (wb_to_str web) of
        Some s \<Rightarrow> if incoming_request_id s then ?i = s \<and> c' = c else length ?i = 16
      | None \<Rightarrow> length ?i = 16"
    using generate_request_id_ok [OF rnd, of _ c] unfolding r(2)
    by (auto simp: request_id_of_def split: option.split)
  ultimately show ?thesis using ok by blast
qed

text \<open>The JSON of an error body; \<^verbatim>\<open>request_id\<close> is left out when there is none.\<close>

definition error_code_json :: "error_code \<Rightarrow> string" where
  "error_code_json c = (case c of
     InvalidRequest \<Rightarrow> ''invalid_request'' | Unauthorized \<Rightarrow> ''unauthorized'' | Forbidden \<Rightarrow> ''forbidden''
   | CodeNotFound \<Rightarrow> ''not_found'' | CodeConflict \<Rightarrow> ''conflict'' | CodeNotImplemented \<Rightarrow> ''not_implemented''
   | ServiceUnavailable \<Rightarrow> ''service_unavailable'' | CodeInternal \<Rightarrow> ''internal'')"

definition error_json :: "api_error_body \<Rightarrow> json" where
  "error_json b = JObj [''error'' \<mapsto> JObj
     ([''code'' \<mapsto> JStr (error_code_json (ae_code (aeb_error b))),
       ''message'' \<mapsto> JStr (ae_message (aeb_error b))] ++
      (case ae_request_id (aeb_error b) of None \<Rightarrow> Map.empty | Some i \<Rightarrow> [''request_id'' \<mapsto> JStr i]))]"

lemma inject_error_json:
  "plain_error b \<Longrightarrow> inject_value i (error_json b) = Some (error_json (with_request_id i b))"
  by (simp add: inject_value_def error_json_def plain_error_def with_request_id_def)

text \<open>What the code relies on in \<^verbatim>\<open>serde_json\<close>, for error bodies: what is written is read back.\<close>

definition json_codec :: "web \<Rightarrow> bool" where
  "json_codec web \<longleftrightarrow> (\<forall>b. wb_from_slice web (wb_json web (BError b)) = Some (error_json b) \<and>
     wb_to_vec web (error_json b) = Some (wb_json web (BError b)))"

text \<open>C21. Every error body names its request. Whatever route, denial, handler or fallback produced an error
  with a JSON body (the rejections of the framework are plain text), the body sent is the error
  with the request identifier of the response header filled in and its status that of its code.\<close>

theorem error_bodies_carry_id:
  assumes codec: "json_codec web" "\<And>b. wb_collect web b = Some b"
    and hv: "\<And>s. incoming_request_id s \<Longrightarrow> wb_from_str web s = Some s"
      "wb_to_str web APPLICATION_JSON = Some APPLICATION_JSON"
    and rnd: "\<And>bs. en_urandom e = Some bs \<Longrightarrow> length bs = 8"
    and text_rejections: "\<And>r. r \<in> rejections web \<Longrightarrow> \<not> is_json web r"
    and run: "serve web sv base e req (c, st, d) = (Some resp, c', st', d')"
    and err: "400 \<le> hs_status resp" "is_json web resp"
  shows "\<exists>b i. filter (\<lambda>(n, _). n = X_REQUEST_ID) (hs_headers resp) = [(X_REQUEST_ID, i)] \<and>
     ae_request_id (aeb_error b) = Some i \<and> hs_body resp = wb_json web (BError b) \<and>
     hs_status resp = http_status (ae_code (aeb_error b))"
proof -
  let ?i = "fst (request_id_of web e req c)"
  obtain r where r: "dispatch web sv base req (st, d) = (Some r, st', d')" "resp = finish_response web ?i r"
    using serve_cases [OF run] by blast
  have "r \<notin> rejections web" using text_rejections err(2) r(2) is_json_finish by blast
  with dispatch_reply [OF r(1)] err(1) r(2) obtain b where b: "plain_error b" "r = error_response web b"
    by (auto simp: own_reply_def)
  have "is_error_status (http_status (ae_code (aeb_error b)))"
    by (cases "ae_code (aeb_error b)") (simp_all add: is_error_status_def)
  then have body: "hs_body resp = wb_json web (BError (with_request_id ?i b))"
    using codec b(1) hv(2) unfolding r(2) b(2)
    by (simp add: finish_response_def Let_def inject_request_id_def is_json_def header_get_insert json_codec_def
        error_response_def json_response_def header_get_def [of CONTENT_TYPE "[_]"] inject_error_json)
  have "filter (\<lambda>(n, _). n = X_REQUEST_ID) (hs_headers resp) = [(X_REQUEST_ID, ?i)]"
    unfolding r(2) by (rule finish_response_header [OF hv(1) [OF request_id_of_ok [OF rnd]]])
  moreover have "hs_status resp = http_status (ae_code (aeb_error (with_request_id ?i b)))"
    unfolding r(2) b(2) by (simp add: error_response_def json_response_def with_request_id_def)
  moreover have "ae_request_id (aeb_error (with_request_id ?i b)) = Some ?i" by (simp add: with_request_id_def)
  ultimately show ?thesis using body by blast
qed

definition store_clear :: "update_store \<Rightarrow> path \<Rightarrow> disk \<Rightarrow> bool" where
  "store_clear s q d \<longleftrightarrow> (case us_path s of None \<Rightarrow> True
     | Some p \<Rightarrow> no_link p d \<and> q \<noteq> p \<and> q \<noteq> tmp_path p \<and> q \<notin> parent_dirs p)"

lemma store_change_frame:
  assumes "store_change ser env edit s d = (r, s', d')" "store_clear s q d"
  shows "dk_fs d' q = dk_fs d q"
proof (cases "us_path s")
  case (Some p)
  obtain w where "save_bytes env p (ser (store_trim (edit (us_data s)))) d = (w, d')"
    using assms(1) Some by (auto simp: store_change_def Let_def save_def split: prod.splits sum.splits)
  from sv.wr_frame [OF _ this, of q] show ?thesis using assms(2) Some by (simp add: store_clear_def)
qed (use assms in \<open>simp add: store_change_def Let_def\<close>)

lemma updates_frame:
  assumes "updates sv st d = (u, st', d')" "store_clear (ust_store (as_updates st)) q d"
  shows "dk_fs d' q = dk_fs d q"
proof -
  let ?d = "snd (apply_pending (sv_io sv) (as_updates st) d)"
  have fs: "dk_fs ?d = dk_fs d" by (simp add: apply_pending_def lstat_ok_def)
  then have cl: "store_clear (ust_store (as_updates st)) q ?d"
    using assms(2) by (cases "us_path (ust_store (as_updates st))") (simp_all add: store_clear_def no_link_def)
  obtain rb p where r: "host_reboot_required (sv_ser sv) (sv_io sv) (sv_marker sv) (sv_now sv)
      (ust_provider (as_updates st), ?d) = (rb, p, d')"
    using assms(1) by (auto simp: updates_def updates_response_of_def Let_def split: prod.splits)
  have "dk_fs d' q = dk_fs ?d q"
    using r cl
    by (auto simp: host_reboot_required_def Let_def set_reboot_def split: if_splits sum.splits prod.splits
        dest: store_change_frame)
  with fs show ?thesis by simp
qed

lemma apply_updates_writes:
  assumes run: "apply_updates sv (Some caller) ps st d = (r, d')"
    and link: "\<not> is_symlink (dk_fs d) (tmp_path (ust_request_file (as_updates st)))"
    and changed: "dk_fs d' (ust_request_file (as_updates st)) \<noteq> dk_fs d (ust_request_file (as_updates st))"
  shows "\<exists>a q. r = Inr (202, a) \<and> ar_requested_by q = caller \<and>
     content (dk_fs d') (ust_request_file (as_updates st)) = Some (sv_to_vec sv q)"
proof -
  let ?u = "as_updates st"
  let ?p = "snd (apply_pending (sv_io sv) ?u d)"
  have fs: "dk_fs ?p = dk_fs d" by (simp add: apply_pending_def lstat_ok_def)
  then have nl: "no_link (ust_request_file ?u) ?p" using link by (simp add: no_link_def)
  obtain dry where dry: "dry_run_params ps False = Inr dry"
    using run changed by (auto simp: apply_updates_def split: sum.splits)
  obtain q where q: "request_apply (sv_to_vec sv) (sv_io sv) (sv_apply sv) (as_config st) caller dry ?u d = (q, d')"
    using run dry by (auto simp: apply_updates_def split: prod.splits sum.splits apply_refusal.splits)
  show ?thesis
    using q
  proof (cases rule: request_apply_cases)
    case (failed e)
    then show ?thesis using wa.wr_err [OF nl failed(4)] changed fs by simp
  next
    case written
    have "content (dk_fs d') (ust_request_file ?u) = Some (sv_to_vec sv \<lparr>ar_id = new_request_id (aw_hash (sv_apply sv)),
       ar_requested_at = aw_now (sv_apply sv), ar_requested_by = caller, ar_packages = packages_of ?u\<rparr>)"
      by (rule wa.wr_ok [OF nl written(4)])
    moreover have "\<exists>a. r = Inr (202, a)" using run dry q written(1,2) by (auto simp: apply_updates_def)
    ultimately show ?thesis by (metis apply_request.select_convs(3))
  qed (use changed fs in simp_all)
qed

lemma run_handler_writes:
  assumes run: "run_handler web sv h (Some caller) req (st, d) = (Some r, st', d')"
    and store: "store_clear (ust_store (as_updates st)) (ust_request_file (as_updates st)) d"
    and link: "\<not> is_symlink (dk_fs d) (tmp_path (ust_request_file (as_updates st)))"
    and changed: "dk_fs d' (ust_request_file (as_updates st)) \<noteq> dk_fs d (ust_request_file (as_updates st))"
  shows "h = HApplyUpdates \<and> hs_status r = 202 \<and> (\<exists>q. ar_requested_by q = caller \<and>
     content (dk_fs d') (ust_request_file (as_updates st)) = Some (sv_to_vec sv q))"
proof (cases h)
  case HApplyUpdates
  with run changed obtain ps x where a: "apply_updates sv (Some caller) ps st d = (x, d')"
    "r = of_result web (\<lambda>(status, a). json_response web status (BApply a)) x"
    by (auto simp: run_handler_def split: sum.splits prod.splits)
  from apply_updates_writes [OF a(1) link changed] a(2) HApplyUpdates show ?thesis
    by (auto simp: of_result_def json_response_def)
next
  case HUpdates
  with run obtain u where "updates sv st d = (u, st', d')"
    by (auto simp: run_handler_def split: prod.splits)
  from updates_frame [OF this store] changed show ?thesis by blast
qed (use run changed in \<open>auto simp: run_handler_def split: sum.splits\<close>)

lemma client_writes:
  assumes run: "serve web sv base e req (c, st, d) = (Some resp, c', st', d')"
    and store: "store_clear (ust_store (as_updates st)) (ust_request_file (as_updates st)) d"
    and link: "\<not> is_symlink (dk_fs d) (tmp_path (ust_request_file (as_updates st)))"
    and changed: "dk_fs d' (ust_request_file (as_updates st)) \<noteq> dk_fs d (ust_request_file (as_updates st))"
  shows "\<exists>tokens secret t q. is_loopback (peer_of req) \<and>
     sec_require_authentication (cfg_security (as_config st)) \<and> as_tokens st = Some tokens \<and>
     bearer_of web req = Some secret \<and> token_find (sv_sha256 sv) tokens secret = Some t \<and>
     ''manage:updates'' \<in> set (tk_permissions t) \<and> wb_method web ''POST'' (rq_method req) \<and>
     hs_status resp = 202 \<and>
     content (dk_fs d') (ust_request_file (as_updates st)) = Some (sv_to_vec sv q) \<and>
     ar_requested_by q = (case tk_name t of Some n \<Rightarrow> n | None \<Rightarrow> ''unnamed token'')"
proof -
  obtain r where r: "dispatch web sv base req (st, d) = (Some r, st', d')" "hs_status resp = hs_status r"
    using serve_cases [OF run] by (metis finish_response_simps)
  show ?thesis
    using r(1)
  proof (cases rule: dispatch_cases)
    case (handled rt caller)
    from run_handler_writes [OF handled(5) store link changed] obtain q where
      h: "rt_handler rt = HApplyUpdates" "hs_status r = 202" "ar_requested_by q = caller"
        "content (dk_fs d') (ust_request_file (as_updates st)) = Some (sv_to_vec sv q)" by blast
    have rt: "rt_permission rt = ManageUpdates" "rt_method rt = ''POST''"
      using find_route_in [OF handled(1)] h(1) by (auto simp: routes_def)
    obtain tokens secret t where t: "is_loopback (peer_of req)" "active_store st = Some tokens"
      "bearer_of web req = Some secret" "token_find (sv_sha256 sv) tokens secret = Some t"
      "grants t ''manage:updates''"
      using handled(2) by (auto simp: decision_of_def authorize_def rt is_mutating_def split: if_splits option.splits)
    have "''manage:updates'' \<in> set (tk_permissions t)"
      using t(5) by (simp add: grants_def prefix_def list_ex_iff)
    moreover have "sec_require_authentication (cfg_security (as_config st))" "as_tokens st = Some tokens"
      using t(2) by (simp_all add: active_store_def split: if_splits)
    moreover have "caller = (case tk_name t of Some n \<Rightarrow> n | None \<Rightarrow> ''unnamed token'')"
      unfolding handled(4) by (simp add: caller_name_def t)
    ultimately show ?thesis using t h r(2) handled(3) rt(2) by metis
  qed (use changed in simp_all)
qed

text \<open>C8. The one request that changes the system. When serving a request, of any content, changes the file
  the root helper acts on, then the client is on the same machine, authentication is required, the
  client presented a secret whose token names \<^verbatim>\<open>manage:updates\<close> itself, it was the method of the apply
  route, the answer is 202, and the request written names that token as its author.\<close>

theorem mutation_gate:
  assumes run: "serve web sv base e req (c, st, d) = (Some resp, c', st', d')"
    and store: "store_clear (ust_store (as_updates st)) (ust_request_file (as_updates st)) d"
    and link: "\<not> is_symlink (dk_fs d) (tmp_path (ust_request_file (as_updates st)))"
    and changed: "dk_fs d' (ust_request_file (as_updates st)) \<noteq> dk_fs d (ust_request_file (as_updates st))"
  shows "\<exists>tokens secret t q. is_loopback (peer_of req) \<and>
     sec_require_authentication (cfg_security (as_config st)) \<and> as_tokens st = Some tokens \<and>
     bearer_of web req = Some secret \<and> token_find (sv_sha256 sv) tokens secret = Some t \<and>
     ''manage:updates'' \<in> set (tk_permissions t) \<and> wb_method web ''POST'' (rq_method req) \<and>
     hs_status resp = 202 \<and>
     content (dk_fs d') (ust_request_file (as_updates st)) = Some (sv_to_vec sv q) \<and>
     ar_requested_by q = (case tk_name t of Some n \<Rightarrow> n | None \<Rightarrow> ''unnamed token'')"
  by (rule client_writes [OF run store link changed])

text \<open>A denied request has no effect and learns nothing. Neither the daemon's state nor the disk changes,
  the answer is 401 or 403, and it would be the same over any other system behind the daemon (its
  units, files, clock and commands): only the hash function matters for the decision.\<close>

theorem denied_changes_nothing:
  assumes run: "serve web sv base e req (c, st, d) = (Some resp, c', st', d')"
    and rt: "find_route web base req = Some rt" "decision_of web sv (rt_permission rt) req st \<noteq> Allowed"
    and same: "sv_sha256 sv' = sv_sha256 sv"
  shows "st' = st \<and> d' = d \<and> hs_status resp \<in> {401, 403} \<and>
     serve web sv' base e req (c, st, d) = (Some resp, c', st, d)"
proof -
  obtain r where r: "dispatch web sv base req (st, d) = (Some r, st', d')"
    "resp = finish_response web (fst (request_id_of web e req c)) r" "c' = snd (request_id_of web e req c)"
    using serve_cases [OF run] by blast
  from r(1) show ?thesis
  proof (cases rule: dispatch_cases)
    case (denied rt' b)
    have dec: "decision_of web sv' p req st = decision_of web sv p req st" for p
      by (simp add: decision_of_def same)
    have "dispatch web sv' base req (st, d) = (Some r, st, d)"
      using denied rt by (simp add: dispatch_def route_service_def authorize_layer_def Let_def dec)
    then have "serve web sv' base e req (c, st, d) = (Some resp, c', st, d)"
      by (simp add: serve_def request_id_layer_def r(2,3) split: prod.split)
    moreover have "http_status (ae_code (aeb_error b)) \<in> {401, 403}"
      using denied(5) by (auto simp: into_denial_def error_body_def Let_def split: decision.splits)
    ultimately show ?thesis
      using denied(2,3,6) r(2) by (simp add: error_response_def json_response_def)
  qed (use rt in simp_all)
qed

lemma hex_encode_inj: "hex_encode as = hex_encode bs \<longleftrightarrow> as = bs"
proof
  have d: "hex_digit x = hex_digit y \<Longrightarrow> x < 16 \<Longrightarrow> y < 16 \<Longrightarrow> x = y" for x y
    by (metis from_hex_digit_hex_digit option.inject)
  have b: "a = b" if "unat a div 16 = unat b div 16" "unat a mod 16 = unat b mod 16" for a b :: u8
    using that by (metis div_mult_mod_eq unsigned_word_eqI)
  show "hex_encode as = hex_encode bs \<Longrightarrow> as = bs"
  proof (induction as arbitrary: bs)
    case Nil
    then show ?case by (cases bs) (simp_all add: hex_encode_def)
  next
    case (Cons a as)
    then obtain b bs' where bs: "bs = b # bs'" by (cases bs) (auto simp: hex_encode_def)
    with Cons.prems have "hex_digit (unat a div 16) = hex_digit (unat b div 16)"
      "hex_digit (unat a mod 16) = hex_digit (unat b mod 16)" "hex_encode as = hex_encode bs'"
      by (simp_all add: hex_encode_def)
    then have "a = b" "as = bs'" using Cons.IH b d nibble_bounds by simp_all
    then show ?case by (simp add: bs)
  qed
qed simp

lemma to_le_bytes_inj: "to_le_bytes v = to_le_bytes w \<longleftrightarrow> v = w"
proof
  assume eq: "to_le_bytes v = to_le_bytes w"
  show "v = w"
  proof (rule bit_word_eqI)
    fix n assume n: "n < LENGTH(64)"
    then have i: "n div 8 < 8" by simp
    have "(ucast (drop_bit (8 * (n div 8)) v) :: u8) = ucast (drop_bit (8 * (n div 8)) w)"
      using arg_cong [OF eq, of "\<lambda>l. l ! (n div 8)"] i by (simp add: to_le_bytes_def)
    then have "bit (ucast (drop_bit (8 * (n div 8)) v) :: u8) (n mod 8) = bit (ucast (drop_bit (8 * (n div 8)) w) :: u8) (n mod 8)"
      by simp
    then show "bit v n = bit w n" by (simp add: bit_ucast_iff bit_drop_bit_eq)
  qed
qed simp

lemma xor_cancel: "a XOR b = a XOR c \<Longrightarrow> b = (c :: 'a :: len word)"
  by (metis xor.assoc xor.left_neutral xor_self_eq)

lemma multiplier_inverse: "(0x9E3779B97F4A7C15 :: u64) * 0xF1DE83E19937733D = 1"
  by simp

lemma mix_id_inj: "mix_id nanos pid c = mix_id nanos pid c' \<longleftrightarrow> c = c'"
proof
  assume "mix_id nanos pid c = mix_id nanos pid c'"
  then have "c * 0x9E3779B97F4A7C15 = c' * 0x9E3779B97F4A7C15"
    unfolding mix_id_def by (blast dest: xor_cancel)
  then have "c * 0x9E3779B97F4A7C15 * 0xF1DE83E19937733D = c' * 0x9E3779B97F4A7C15 * 0xF1DE83E19937733D" by simp
  then show "c = c'" by (simp only: mult.assoc multiplier_inverse mult_1_right)
qed simp

fun generate_many :: "entropy list \<Rightarrow> u64 \<Rightarrow> string list" where
  "generate_many [] c = []"
| "generate_many (e # es) c = (case generate_request_id e c of (i, c') \<Rightarrow> i # generate_many es c')"

lemma generate_many_fallback:
  "(\<And>e. e \<in> set es \<Longrightarrow> en_urandom e = None \<and> en_nanos e = n \<and> en_pid e = p) \<Longrightarrow>
   generate_many es c = map (\<lambda>k. hex_lower (to_le_bytes (mix_id n p (c + of_nat k)))) [0..<length es]"
proof (induction es arbitrary: c)
  case (Cons e es)
  let ?i = "\<lambda>c. hex_lower (to_le_bytes (mix_id n p c))"
  have g: "generate_request_id e c = (?i c, c + 1)"
    using Cons.prems [of e] by (simp add: generate_request_id_def)
  have IH: "generate_many es (c + 1) = map (\<lambda>k. ?i (c + 1 + of_nat k)) [0..<length es]"
    by (rule Cons.IH, rule Cons.prems, rule list.set_intros(2))
  have "generate_many (e # es) c = ?i c # map (\<lambda>k. ?i (c + 1 + of_nat k)) [0..<length es]"
    by (simp only: generate_many.simps g IH prod.case)
  also have "\<dots> = map (\<lambda>k. ?i (c + of_nat k)) [0..<Suc (length es)]"
    by (simp del: upt_Suc add: map_upt_Suc add.assoc)
  finally show ?case by (simp only: length_Cons)
qed simp

text \<open>Identifiers without \<^verbatim>\<open>/dev/urandom\<close>. Those one process makes one after the other are pairwise
  different even while the clock stands still, for the first 2^64 of them: the multiplier of the
  counter is odd, and mixing and printing lose nothing.\<close>

theorem fallback_ids_distinct:
  assumes "\<And>e. e \<in> set es \<Longrightarrow> en_urandom e = None \<and> en_nanos e = n \<and> en_pid e = p" and "length es \<le> 2 ^ 64"
  shows "distinct (generate_many es c) \<and> (\<forall>i \<in> set (generate_many es c). incoming_request_id i)"
proof -
  have "(of_nat i :: u64) = of_nat j \<longleftrightarrow> i = j" if "i < 2 ^ 64" "j < 2 ^ 64" for i j
    using that by (simp add: word_of_nat_eq_iff take_bit_nat_eq_self)
  then have "inj_on (of_nat :: nat \<Rightarrow> u64) {0..<length es}"
    using assms(2) by (auto simp: inj_on_def)
  then have "inj_on (\<lambda>k. hex_lower (to_le_bytes (mix_id n p (c + of_nat k)))) {0..<length es}"
    by (simp add: inj_on_def hex_lower_encode hex_encode_inj to_le_bytes_inj mix_id_inj)
  then show ?thesis
    using generate_many_fallback [OF assms(1)] by (simp add: distinct_map hex_lower_id)
qed

section \<open>Concrete runs\<close>

text \<open>A framework that routes by equality and a reversible encoding of error bodies.\<close>

definition enc_str :: "string \<Rightarrow> string" where
  "enc_str s = concat (map (\<lambda>c. [CHR ''+'', c]) s) @ ''.''"

fun dec_str :: "string \<Rightarrow> (string \<times> string) option" where
  "dec_str [] = None"
| "dec_str [x] = (if x = CHR ''.'' then Some ([], []) else None)"
| "dec_str (x # c # r) = (if x = CHR ''.'' then Some ([], c # r)
     else map_option (\<lambda>(s, t). (c # s, t)) (dec_str r))"

definition enc_error :: "api_error_body \<Rightarrow> string" where
  "enc_error b = enc_str (error_code_json (ae_code (aeb_error b))) @ enc_str (ae_message (aeb_error b)) @
     (case ae_request_id (aeb_error b) of None \<Rightarrow> [] | Some i \<Rightarrow> CHR ''#'' # i)"

definition error_of :: "string \<Rightarrow> string \<Rightarrow> string option \<Rightarrow> json" where
  "error_of c m i = JObj [''error'' \<mapsto> JObj ([''code'' \<mapsto> JStr c, ''message'' \<mapsto> JStr m] ++
     (case i of None \<Rightarrow> Map.empty | Some i \<Rightarrow> [''request_id'' \<mapsto> JStr i]))]"

definition dec_error :: "string \<Rightarrow> json option" where
  "dec_error s = Option.bind (dec_str s) (\<lambda>(c, s). Option.bind (dec_str s) (\<lambda>(m, s).
     Some (error_of c m (case s of [] \<Rightarrow> None | _ # i \<Rightarrow> Some i))))"

definition string_at :: "string \<Rightarrow> (string \<Rightarrow> json option) \<Rightarrow> string option" where
  "string_at k m = (case m k of Some (JStr s) \<Rightarrow> Some s | _ \<Rightarrow> None)"

definition write_error :: "json \<Rightarrow> string option" where
  "write_error v = (case v of
     JObj m \<Rightarrow> (case m ''error'' of
        Some (JObj e) \<Rightarrow> (case (string_at ''code'' e, string_at ''message'' e) of
           (Some c, Some t) \<Rightarrow> Some (enc_str c @ enc_str t @
             (case string_at ''request_id'' e of None \<Rightarrow> [] | Some i \<Rightarrow> CHR ''#'' # i))
         | _ \<Rightarrow> None)
      | _ \<Rightarrow> None)
   | _ \<Rightarrow> None)"

definition demo_web :: web where
  "demo_web = \<lparr>wb_match = (\<lambda>ps p. find (\<lambda>q. q = p) ps), wb_method = (=),
     wb_not_allowed = \<lparr>hs_status = 405, hs_headers = [], hs_body = []\<rparr>, wb_query = (\<lambda>_. Inr []),
     wb_name = (\<lambda>req. Inr (rq_path req)), wb_to_str = Some, wb_from_str = Some, wb_collect = Some,
     wb_json = (\<lambda>b. case b of BError e \<Rightarrow> enc_error e | _ \<Rightarrow> ''{}''),
     wb_from_slice = dec_error, wb_to_vec = write_error\<rparr>"

lemma demo_web_simps [simp]:
  "wb_match demo_web = (\<lambda>ps p. find (\<lambda>q. q = p) ps)" "wb_method demo_web = (=)"
  "wb_not_allowed demo_web = \<lparr>hs_status = 405, hs_headers = [], hs_body = []\<rparr>"
  "wb_query demo_web = (\<lambda>_. Inr [])" "wb_name demo_web = (\<lambda>req. Inr (rq_path req))"
  "wb_to_str demo_web = Some" "wb_from_str demo_web = Some" "wb_collect demo_web = Some"
  "wb_json demo_web (BError e) = enc_error e" "wb_from_slice demo_web = dec_error"
  "wb_to_vec demo_web = write_error"
  by (simp_all add: demo_web_def)

lemma dec_enc_str: "dec_str (enc_str s @ t) = Some (s, t)"
  by (induction s) (cases t; simp add: enc_str_def)+

lemma demo_codec: "json_codec demo_web"
proof -
  have "error_json b = error_of (error_code_json (ae_code (aeb_error b))) (ae_message (aeb_error b))
      (ae_request_id (aeb_error b))" for b
    by (simp add: error_json_def error_of_def)
  then show ?thesis
    by (auto simp: json_codec_def enc_error_def dec_error_def dec_enc_str write_error_def error_of_def
        string_at_def split: option.split)
qed

lemma demo_rejections: "r \<in> rejections demo_web \<Longrightarrow> \<not> is_json demo_web r"
  by (auto simp: rejections_def is_json_def header_get_def)

definition secure_config :: "unit config" where
  "secure_config = sunday_config\<lparr>cfg_security := \<lparr>sec_require_authentication = True, sec_token_file = None\<rparr>\<rparr>"

definition ops_store :: "string list \<Rightarrow> token_store" where
  "ops_store perms = [\<lparr>en_token = \<lparr>tk_name = Some ''ops'', tk_permissions = perms\<rparr>, en_hash = map (of_nat \<circ> of_char) ''key''\<rparr>]"

definition demo_state :: "string list \<Rightarrow> unit app_state" where
  "demo_state perms = \<lparr>as_config = secure_config, as_tokens = Some (ops_store perms), as_level = Info,
     as_uptime_seconds = 0, as_started_at = ''t'', as_updates = one_available\<rparr>"

definition apply_post :: http_request where
  "apply_post = \<lparr>rq_method = ''POST'', rq_uri = ''/v/updates/apply'', rq_path = ''/v/updates/apply'',
     rq_headers = [(''authorization'', ''Bearer key''), (''x-request-id'', ''job-7'')],
     rq_peer = Some (V4 127 0 0 1)\<rparr>"

definition no_entropy :: entropy where
  "no_entropy = \<lparr>en_urandom = None, en_nanos = 5, en_pid = 9\<rparr>"

lemma endpoint_v: "r \<noteq> [] \<Longrightarrow> hd r \<noteq> CHR ''/'' \<Longrightarrow> endpoint ''/v'' r = ''/v/'' @ r"
  by (simp add: endpoint_plain)

lemma apply_post_route: "find_route demo_web ''/v'' apply_post = Some \<lparr>rt_pattern = ''/v/updates/apply'',
    rt_method = ''POST'', rt_handler = HApplyUpdates, rt_permission = ManageUpdates\<rparr>"
  by (simp add: find_route_def routes_def endpoint_v apply_post_def)

lemma apply_post_bearer: "bearer_of demo_web apply_post = Some ''key''"
proof -
  have "trim ''key'' = ''key''" by (rule trim_plain) (simp_all add: plain_char_def)
  then show ?thesis
    by (simp add: bearer_of_def bearer_value_def header_get_def apply_post_def eq_ignore_ascii_case_def
        Let_def)
qed

lemma apply_post_facts:
  "token_find (map (of_nat \<circ> of_char)) (ops_store perms) ''key'' = Some \<lparr>tk_name = Some ''ops'', tk_permissions = perms\<rparr>"
  "active_store (demo_state perms) = Some (ops_store perms)" "peer_of apply_post = V4 127 0 0 1"
  "request_id_of demo_web no_entropy apply_post c = (''job-7'', c)"
  by (simp_all add: token_find_def ops_store_def ct_eq_iff active_store_def demo_state_def secure_config_def
      peer_of_def apply_post_def request_id_of_def header_get_def X_REQUEST_ID_def incoming_request_id_def
      request_id_char_def str_defs)

lemma apply_post_decision:
  "decision_of demo_web demo_env ManageUpdates apply_post (demo_state perms) =
     (if ''manage:updates'' \<in> set perms then Allowed else InsufficientPermission)"
  by (simp add: decision_of_def apply_post_facts apply_post_bearer authorize_def is_loopback_def grants_def
      list_ex_iff prefix_def)

lemma serve_apply_denied:
  "''manage:updates'' \<notin> set perms \<Longrightarrow>
   serve demo_web demo_env ''/v'' no_entropy apply_post (c, demo_state perms, d) =
     (Some (finish_response demo_web ''job-7'' (error_response demo_web (the (into_denial InsufficientPermission ManageUpdates)))),
      c, demo_state perms, d)"
  by (simp add: serve_def request_id_layer_def apply_post_facts dispatch_def apply_post_route route_service_def
      authorize_layer_def apply_post_decision into_denial_def Let_def)

lemma serve_apply_post:
  "\<exists>resp d'. serve demo_web demo_env ''/v'' no_entropy apply_post (c, demo_state [''manage:updates''], disk_of Map.empty) =
     (Some resp, c, demo_state [''manage:updates''], d') \<and> dk_fs d' ''q'' \<noteq> None"
proof -
  obtain a d' where a: "request_apply ar_id (\<lambda>_. None) sunday_world sunday_config ''ops'' False one_available (disk_of Map.empty)
     = (Inr a, d')" using request_apply_q by blast
  have c: "request_apply ar_id (\<lambda>_. None) sunday_world secure_config ''ops'' False one_available (disk_of Map.empty) = (Inr a, d')"
    using a by (simp add: request_apply_def permissions_at_def secure_config_def)
  have "content (dk_fs d') ''q'' \<noteq> None"
    using request_apply_content [OF c] by (simp add: one_available_facts is_symlink_def disk_of_def) blast
  then have "dk_fs d' ''q'' \<noteq> None" by (cases "dk_fs d' ''q''") (simp_all add: content_def)
  moreover have "apply_updates demo_env (Some ''ops'') [] (demo_state perms) (disk_of Map.empty) = (Inr (202, a), d')" for perms
    using c by (simp add: apply_updates_def demo_state_def)
  ultimately show ?thesis
    by (simp add: serve_def request_id_layer_def apply_post_facts dispatch_def apply_post_route route_service_def
        authorize_layer_def apply_post_decision caller_name_def apply_post_bearer run_handler_def Let_def)
      (simp add: apply_post_def)
qed

theorem response_identified_witness:
  "\<exists>resp c' st' d'. serve demo_web demo_env ''/v'' no_entropy apply_post (7, demo_state [], disk_of Map.empty) =
     (Some resp, c', st', d') \<and>
     filter (\<lambda>(n, _). n = X_REQUEST_ID) (hs_headers resp) = [(X_REQUEST_ID, ''job-7'')]"
proof -
  obtain resp c' st' d' where r: "serve demo_web demo_env ''/v'' no_entropy apply_post (7, demo_state [], disk_of Map.empty) =
     (Some resp, c', st', d')" using serve_apply_denied [of "[]"] by simp
  have j: "incoming_request_id ''job-7''" by (simp add: incoming_request_id_def request_id_char_def str_defs)
  have "wb_from_str demo_web s = Some s" for s by simp
  moreover have "length bs = 8" if "en_urandom no_entropy = Some bs" for bs using that by (simp add: no_entropy_def)
  ultimately obtain i where i: "filter (\<lambda>(n, _). n = X_REQUEST_ID) (hs_headers resp) = [(X_REQUEST_ID, i)]"
      "case Option.bind (header_get X_REQUEST_ID (rq_headers apply_post)) (wb_to_str demo_web) of
        Some s \<Rightarrow> if incoming_request_id s then i = s \<and> c' = 7 else length i = 16
      | None \<Rightarrow> length i = 16"
    using response_identified [of demo_web no_entropy, OF _ _ r] by blast
  have "i = ''job-7''" using i(2) j by (simp add: header_get_def apply_post_def X_REQUEST_ID_def)
  with r i(1) show ?thesis by blast
qed

theorem error_bodies_carry_id_witness:
  "\<exists>resp b. fst (serve demo_web demo_env ''/v'' no_entropy apply_post (7, demo_state [], disk_of Map.empty)) = Some resp \<and>
     hs_body resp = enc_error b \<and> ae_request_id (aeb_error b) = Some ''job-7'' \<and> hs_status resp = 403"
proof -
  obtain resp c' st' d' where r: "serve demo_web demo_env ''/v'' no_entropy apply_post (7, demo_state [], disk_of Map.empty) =
     (Some resp, c', st', d')" and resp: "resp = finish_response demo_web ''job-7''
       (error_response demo_web (the (into_denial InsufficientPermission ManageUpdates)))"
    using serve_apply_denied [of "[]"] by simp
  have status: "hs_status resp = 403"
    by (simp add: resp error_response_def json_response_def into_denial_def error_body_def Let_def)
  have header: "filter (\<lambda>(n, _). n = X_REQUEST_ID) (hs_headers resp) = [(X_REQUEST_ID, ''job-7'')]"
    unfolding resp by (rule finish_response_header) simp
  have json: "is_json demo_web resp"
    using demo_codec
    by (auto simp: resp finish_response_def inject_request_id_def Let_def is_json_def header_get_insert
        response_from_bytes_def error_response_def json_response_def header_get_def [of CONTENT_TYPE "[_]"]
        split: option.split)
  have "length bs = 8" if "en_urandom no_entropy = Some bs" for bs using that by (simp add: no_entropy_def)
  from error_bodies_carry_id [OF demo_codec _ _ _ this demo_rejections r _ json] status header r
  show ?thesis by auto
qed

theorem mutation_gate_witness:
  "\<exists>d' t. (''manage:updates'' \<in> set (tk_permissions t)) \<and>
     token_find (sv_sha256 demo_env) (ops_store [''manage:updates'']) ''key'' = Some t \<and>
     snd (snd (snd (serve demo_web demo_env ''/v'' no_entropy apply_post
       (7, demo_state [''manage:updates''], disk_of Map.empty)))) = d' \<and> dk_fs d' ''q'' \<noteq> None"
proof -
  obtain resp d' where r: "serve demo_web demo_env ''/v'' no_entropy apply_post
      (7, demo_state [''manage:updates''], disk_of Map.empty) = (Some resp, 7, demo_state [''manage:updates''], d')"
    "dk_fs d' ''q'' \<noteq> None" using serve_apply_post by blast
  have u: "ust_request_file (as_updates (demo_state [''manage:updates''])) = ''q''"
    "store_clear (ust_store (as_updates (demo_state [''manage:updates'']))) ''q'' (disk_of Map.empty)"
    by (simp_all add: demo_state_def one_available_facts store_clear_def one_available_def updates_host_def
        updates_state_new_def host_new_def in_memory_def)
  have e: "dk_fs (disk_of Map.empty) ''q'' = None" "\<not> is_symlink (dk_fs (disk_of Map.empty)) (tmp_path ''q'')"
    by (simp_all add: disk_of_def is_symlink_def)
  from mutation_gate [OF r(1), unfolded u(1), OF u(2) e(2)] r e(1) show ?thesis
    by (auto simp: demo_state_def apply_post_bearer)
qed

theorem denied_changes_nothing_witness:
  "\<exists>resp. serve demo_web (demo_env\<lparr>sv_now := ''later''\<rparr>) ''/v'' no_entropy apply_post (7, demo_state [''read_all''], disk_of Map.empty) =
     (Some resp, 7, demo_state [''read_all''], disk_of Map.empty) \<and> hs_status resp \<in> {401, 403}"
proof -
  obtain resp where r: "serve demo_web demo_env ''/v'' no_entropy apply_post (7, demo_state [''read_all''], disk_of Map.empty) =
     (Some resp, 7, demo_state [''read_all''], disk_of Map.empty)" using serve_apply_denied [of "[''read_all'']"] by simp
  have "decision_of demo_web demo_env ManageUpdates apply_post (demo_state [''read_all'']) \<noteq> Allowed"
    by (simp add: apply_post_decision)
  then show ?thesis
    using denied_changes_nothing [OF r apply_post_route, of "demo_env\<lparr>sv_now := ''later''\<rparr>"] by auto
qed

theorem fallback_ids_distinct_witness: "distinct (generate_many [no_entropy, no_entropy, no_entropy] (- 1))"
  using fallback_ids_distinct [of "[no_entropy, no_entropy, no_entropy]" 5 9 "- 1"] by (simp add: no_entropy_def)

end
