(* ===== verification/Scheduler.thy ===== *)
theory Scheduler
  imports State
begin

text \<open>
  \<^verbatim>\<open>services/aborad/src/scheduler.rs\<close>: one turn of the background loop as four phases (policy, intake of a
  finished apply, check, automatic apply) over the update state and the disk. Between the phases
  other threads may change both (\<^verbatim>\<open>tk_others\<close>); a turn reads its configuration once. Instants are
  nanoseconds of the monotonic clock. The lines it logs for the operator are not modelled, what they
  report is the list of events.
\<close>

section \<open>State\<close>

definition TICK :: duration where "TICK = from_secs 30"

record sched =
  sd_last_attempt :: "nat option"
  sd_last_ok :: bool
  sd_previous :: "permissions option"
  sd_last_auto :: "nat option"

definition sched_init :: sched where
  "sched_init = \<lparr>sd_last_attempt = None, sd_last_ok = True, sd_previous = None, sd_last_auto = None\<rparr>"

datatype event =
  PolicyChanged permissions | Ingested | Checked nat "string + nat"
| AutoRequested nat "apply_refusal + apply_response"

text \<open>What is the same for all turns, and what one turn takes from outside: the configuration, the local
  time, four instants (at the question whether a check is due, at the check, at the question
  whether to apply, at the request) and the systems its operations use.\<close>

record sched_env =
  se_ser :: serialiser
  se_from_slice :: "string \<Rightarrow> apply_result option"
  se_to_vec :: "apply_request \<Rightarrow> string"

type_synonym shared = "updates_state \<times> disk"

record 'x tick_world =
  tk_config :: "'x config"
  tk_local_time :: "local_time option"
  tk_due :: nat
  tk_check :: nat
  tk_auto :: nat
  tk_request :: nat
  tk_io :: io_env
  tk_between :: "disk \<Rightarrow> disk"
  tk_run :: runner
  tk_now :: string
  tk_apply :: apply_world
  tk_others :: "nat \<Rightarrow> shared \<Rightarrow> shared"

section \<open>The phases\<close>

definition elapsed :: "nat \<Rightarrow> nat \<Rightarrow> duration" where
  "elapsed now t = now - t"

definition schedule_info_of :: "permissions \<Rightarrow> duration \<Rightarrow> schedule_info" where
  "schedule_info_of perms interval =
     \<lparr>sch_check_interval_seconds = as_secs interval,
      sch_in_maintenance_window = pm_in_maintenance_window perms,
      sch_apply_permitted = pm_apply_permitted perms,
      sch_installs_permitted = pm_installs_permitted perms,
      sch_reboot_permitted = pm_reboot_permitted perms\<rparr>"

definition policy_phase :: "'x tick_world \<Rightarrow> sched \<Rightarrow> shared \<Rightarrow> event list \<times> sched \<times> shared" where
  "policy_phase w s = (\<lambda>(u, d).
     (let perms = permissions_at (tk_config w) (tk_local_time w)
      in (if sd_previous s \<noteq> None \<and> sd_previous s \<noteq> Some perms then [PolicyChanged perms] else [],
          s\<lparr>sd_previous := Some perms\<rparr>,
          (set_schedule (schedule_info_of perms (check_interval (tk_config w))) u, d))))"

definition ingest_phase :: "sched_env \<Rightarrow> 'x tick_world \<Rightarrow> sched \<Rightarrow> shared \<Rightarrow> event list \<times> sched \<times> shared" where
  "ingest_phase e w s ud =
     (case ingest_apply_result (se_ser e) (se_from_slice e) (tk_between w) (tk_io w)
             (uc_channel (cfg_updates (tk_config w))) ud of
        (ingested, ud') \<Rightarrow>
          if ingested then ([Ingested], s\<lparr>sd_last_attempt := None\<rparr>, ud') else ([], s, ud'))"

definition check_due :: "'x tick_world \<Rightarrow> sched \<Rightarrow> bool" where
  "check_due w s \<longleftrightarrow> (case sd_last_attempt s of
     None \<Rightarrow> True
   | Some t \<Rightarrow> check_is_due (elapsed (tk_due w) t) (sd_last_ok s) (check_interval (tk_config w)))"

definition check_phase :: "sched_env \<Rightarrow> 'x tick_world \<Rightarrow> sched \<Rightarrow> shared \<Rightarrow> event list \<times> sched \<times> shared" where
  "check_phase e w s ud =
     (if check_due w s then
        (case refresh (se_ser e) (tk_io w) (tk_run w) (tk_now w) (uc_channel (cfg_updates (tk_config w))) ud of
           (r, ud') \<Rightarrow> ([Checked (tk_check w) r],
             s\<lparr>sd_last_attempt := Some (tk_check w),
               sd_last_ok := (case r of Inr _ \<Rightarrow> True | Inl _ \<Rightarrow> False)\<rparr>, ud'))
      else ([], s, ud))"

definition AUTOMATIC :: string where "AUTOMATIC = ''automatic (scheduler)''"

definition auto_phase :: "sched_env \<Rightarrow> 'x tick_world \<Rightarrow> sched \<Rightarrow> shared \<Rightarrow> event list \<times> sched \<times> shared" where
  "auto_phase e w s = (\<lambda>(u, d).
     (case apply_inputs (tk_io w) u d of ((has_available, pending), d) \<Rightarrow>
        let perms = permissions_at (tk_config w) (tk_local_time w)
        in if should_auto_apply perms has_available pending
                (map_option (elapsed (tk_auto w)) (sd_last_auto s)) (check_interval (tk_config w))
           then (case request_apply (se_to_vec e) (tk_io w) (tk_apply w) (tk_config w) AUTOMATIC False u d of
               (r, d') \<Rightarrow> ([AutoRequested (tk_request w) r], s\<lparr>sd_last_auto := Some (tk_request w)\<rparr>, (u, d')))
           else ([], s, (u, d))))"

text \<open>The last phase up to the write: nothing is asked for, the request is refused, or it is ready to be written.\<close>

definition auto_decide :: "'x tick_world \<Rightarrow> sched \<Rightarrow> shared \<Rightarrow> (string + apply_request) option \<times> disk" where
  "auto_decide w s = (\<lambda>(u, d).
     (case apply_inputs (tk_io w) u d of ((has_available, pending), d) \<Rightarrow>
        if should_auto_apply (permissions_at (tk_config w) (tk_local_time w)) has_available pending
             (map_option (elapsed (tk_auto w)) (sd_last_auto s)) (check_interval (tk_config w))
        then (case request_decide (tk_io w) (tk_apply w) (tk_config w) AUTOMATIC u d of (x, d) \<Rightarrow> (Some x, d))
        else (None, d)))"

definition tick :: "sched_env \<Rightarrow> 'x tick_world \<Rightarrow> sched \<times> shared \<Rightarrow> event list \<times> sched \<times> shared" where
  "tick e w = (\<lambda>(s, ud).
     (case policy_phase w s ud of (ev1, s, ud) \<Rightarrow>
     (case ingest_phase e w s (tk_others w 0 ud) of (ev2, s, ud) \<Rightarrow>
     (case check_phase e w s (tk_others w 1 ud) of (ev3, s, ud) \<Rightarrow>
     (case auto_phase e w s (tk_others w 2 ud) of (ev4, s, ud) \<Rightarrow>
        (ev1 @ ev2 @ ev3 @ ev4, s, tk_others w 3 ud))))))"

text \<open>The loop for a list of turns, and the events of each turn.\<close>

fun sched_run :: "sched_env \<Rightarrow> 'x tick_world list \<Rightarrow> sched \<times> shared \<Rightarrow> event list list \<times> sched \<times> shared" where
  "sched_run e [] x = ([], x)"
| "sched_run e (w # ws) x = (case tick e w x of (evs, x') \<Rightarrow>
     (case sched_run e ws x' of (evss, x'') \<Rightarrow> (evs # evss, x'')))"

section \<open>Facts\<close>

lemma auto_phase_parts:
  "auto_phase e w s (u, d) = (case auto_decide w s (u, d) of
     (None, d') \<Rightarrow> ([], s, u, d')
   | (Some (Inl reason), d') \<Rightarrow>
       ([AutoRequested (tk_request w) (Inl (RefConflict reason))], s\<lparr>sd_last_auto := Some (tk_request w)\<rparr>, u, d')
   | (Some (Inr q), d') \<Rightarrow> (case request_commit (se_to_vec e) (tk_io w) u q d' of
       (r, d'') \<Rightarrow> ([AutoRequested (tk_request w) r], s\<lparr>sd_last_auto := Some (tk_request w)\<rparr>, u, d'')))"
  by (auto simp: auto_phase_def auto_decide_def request_apply_parts Let_def split: prod.split sum.split)

lemma policy_phase_simps:
  "policy_phase w s ud = (evs, s', ud') \<Longrightarrow>
   sd_last_attempt s' = sd_last_attempt s \<and> sd_last_ok s' = sd_last_ok s \<and> sd_last_auto s' = sd_last_auto s \<and>
   (\<forall>ev \<in> set evs. \<exists>p. ev = PolicyChanged p) \<and> snd ud' = snd ud"
  by (auto simp: policy_phase_def Let_def split: prod.splits if_splits)

lemma ingest_phase_simps:
  "ingest_phase e w s ud = (evs, s', ud') \<Longrightarrow>
   sd_last_ok s' = sd_last_ok s \<and> sd_last_auto s' = sd_last_auto s \<and>
   (evs = [Ingested] \<and> sd_last_attempt s' = None \<or> evs = [] \<and> sd_last_attempt s' = sd_last_attempt s)"
  by (auto simp: ingest_phase_def split: prod.splits if_splits)

lemma check_phase_simps:
  "check_phase e w s ud = (evs, s', ud') \<Longrightarrow>
   sd_last_auto s' = sd_last_auto s \<and>
   (if check_due w s then \<exists>r. evs = [Checked (tk_check w) r] \<and> sd_last_attempt s' = Some (tk_check w) \<and>
        sd_last_ok s' = (case r of Inr _ \<Rightarrow> True | Inl _ \<Rightarrow> False)
    else evs = [] \<and> s' = s)"
  by (auto simp: check_phase_def split: prod.splits if_splits)

lemma auto_phase_simps:
  "auto_phase e w s ud = (evs, s', ud') \<Longrightarrow>
   sd_last_attempt s' = sd_last_attempt s \<and> sd_last_ok s' = sd_last_ok s \<and>
   (evs = [] \<and> sd_last_auto s' = sd_last_auto s \<or>
    (\<exists>r. evs = [AutoRequested (tk_request w) r] \<and> sd_last_auto s' = Some (tk_request w) \<and>
       pm_installs_permitted (permissions_at (tk_config w) (tk_local_time w)) \<and>
       (\<forall>a. sd_last_auto s = Some a \<longrightarrow> check_interval (tk_config w) \<le> tk_auto w - a)))"
  by (auto simp: auto_phase_def should_auto_apply_def elapsed_def Let_def split: prod.splits if_splits option.splits)

lemma tick_cases:
  assumes "tick e w (s, ud) = (evs, s', ud')"
  obtains ev1 s1 ud1 ev2 s2 ud2 ev3 s3 ud3 ev4 ud4 where
    "policy_phase w s ud = (ev1, s1, ud1)" "ingest_phase e w s1 (tk_others w 0 ud1) = (ev2, s2, ud2)"
    "check_phase e w s2 (tk_others w 1 ud2) = (ev3, s3, ud3)"
    "auto_phase e w s3 (tk_others w 2 ud3) = (ev4, s', ud4)"
    "evs = ev1 @ ev2 @ ev3 @ ev4" "ud' = tk_others w 3 ud4"
  using assms by (auto simp: tick_def split: prod.splits)

definition auto_times :: "event list \<Rightarrow> nat list" where
  "auto_times evs = List.map_filter (\<lambda>e. case e of AutoRequested t _ \<Rightarrow> Some t | _ \<Rightarrow> None) evs"

lemma auto_times_append [simp]: "auto_times (a @ b) = auto_times a @ auto_times b"
  by (simp add: auto_times_def map_filter_def)

lemma tick_auto:
  assumes "tick e w (s, ud) = (evs, s', ud')"
  shows "auto_times evs = [] \<and> sd_last_auto s' = sd_last_auto s \<or>
     (auto_times evs = [tk_request w] \<and> sd_last_auto s' = Some (tk_request w) \<and>
      pm_installs_permitted (permissions_at (tk_config w) (tk_local_time w)) \<and>
      (\<forall>a. sd_last_auto s = Some a \<longrightarrow> check_interval (tk_config w) \<le> tk_auto w - a))"
proof (rule tick_cases [OF assms])
  fix ev1 s1 ud1 ev2 s2 ud2 ev3 s3 ud3 ev4 ud4
  assume p: "policy_phase w s ud = (ev1, s1, ud1)" "ingest_phase e w s1 (tk_others w 0 ud1) = (ev2, s2, ud2)"
    "check_phase e w s2 (tk_others w 1 ud2) = (ev3, s3, ud3)"
    "auto_phase e w s3 (tk_others w 2 ud3) = (ev4, s', ud4)" and ev: "evs = ev1 @ ev2 @ ev3 @ ev4"
  have "auto_times ev1 = []"
    using policy_phase_simps [OF p(1)] by (induction ev1) (auto simp: auto_times_def map_filter_def)
  moreover have "auto_times ev2 = []" "auto_times ev3 = []"
    using ingest_phase_simps [OF p(2)] check_phase_simps [OF p(3)]
    by (auto simp: auto_times_def map_filter_def split: if_splits)
  moreover have "sd_last_auto s3 = sd_last_auto s"
    using policy_phase_simps [OF p(1)] ingest_phase_simps [OF p(2)] check_phase_simps [OF p(3)] by simp
  ultimately show ?thesis
    using auto_phase_simps [OF p(4)] by (auto simp: ev auto_times_def map_filter_def)
qed

section \<open>Properties\<close>

text \<open>C20. Every turn leaves the knowledge about updates fresh. Either it checked, or the last check is younger
  than the interval (than 15 minutes, if it failed) and no apply has finished since: a finished apply
  makes the same turn check again.\<close>

theorem tick_checks_fresh:
  assumes "tick e w (s, ud) = (evs, s', ud')"
  shows "(\<exists>r. Checked (tk_check w) r \<in> set evs \<and> sd_last_attempt s' = Some (tk_check w) \<and>
        sd_last_ok s' = (case r of Inr _ \<Rightarrow> True | Inl _ \<Rightarrow> False)) \<or>
     (\<exists>a. sd_last_attempt s = Some a \<and> sd_last_attempt s' = Some a \<and> sd_last_ok s' = sd_last_ok s \<and>
        Ingested \<notin> set evs \<and> tk_due w - a < check_interval (tk_config w) \<and>
        (\<not> sd_last_ok s \<longrightarrow> tk_due w - a < 15 * 60 * 1000000000))"
proof (rule tick_cases [OF assms])
  fix ev1 s1 ud1 ev2 s2 ud2 ev3 s3 ud3 ev4 ud4
  assume p: "policy_phase w s ud = (ev1, s1, ud1)" "ingest_phase e w s1 (tk_others w 0 ud1) = (ev2, s2, ud2)"
    "check_phase e w s2 (tk_others w 1 ud2) = (ev3, s3, ud3)"
    "auto_phase e w s3 (tk_others w 2 ud3) = (ev4, s', ud4)" and ev: "evs = ev1 @ ev2 @ ev3 @ ev4"
  note facts = policy_phase_simps [OF p(1)] ingest_phase_simps [OF p(2)] check_phase_simps [OF p(3)]
    auto_phase_simps [OF p(4)]
  show ?thesis
  proof (cases "check_due w s2")
    case True
    with facts show ?thesis by (auto simp: ev)
  next
    case False
    then obtain a where a: "sd_last_attempt s2 = Some a"
      "\<not> check_is_due (tk_due w - a) (sd_last_ok s2) (check_interval (tk_config w))"
      by (auto simp: check_due_def elapsed_def split: option.splits)
    have "ev2 = []" "ev3 = []" "Ingested \<notin> set ev1" "Ingested \<notin> set ev4" using facts False a(1) by auto
    then have i: "Ingested \<notin> set evs" by (simp add: ev)
    have l: "sd_last_attempt s = Some a" "sd_last_attempt s' = Some a" "sd_last_ok s' = sd_last_ok s"
      "sd_last_ok s2 = sd_last_ok s" using facts False a(1) by auto
    have "tk_due w - a < check_interval (tk_config w)"
      "\<not> sd_last_ok s \<longrightarrow> tk_due w - a < 15 * 60 * 1000000000"
      using a(2) l(4) by (auto simp: check_is_due_def RETRY_AFTER_FAILURE_def from_secs_def split: if_splits)
    with i l show ?thesis by blast
  qed
qed

text \<open>C19. Automatic applies. Over any run of the loop, whatever other threads do to the state and however the
  configuration changes, an apply is requested automatically only in a turn whose configuration has
  \<^verbatim>\<open>automatic\<close> set and an enabled maintenance window open at the local time; and two such requests
  are at least the shortest check interval apart. (A turn asks the clock for the decision before
  it notes the time of the request.)\<close>

theorem automatic_applies_spaced:
  assumes "sched_run e ws (s, ud) = (evss, s', ud')"
    and "\<And>w. w \<in> set ws \<Longrightarrow> tk_auto w \<le> tk_request w"
    and "0 < gap" "\<And>w. w \<in> set ws \<Longrightarrow> gap \<le> check_interval (tk_config w)"
  shows "sorted_wrt (\<lambda>a b. a + gap \<le> b) (auto_times (concat evss)) \<and>
     (\<forall>t \<in> set (auto_times (concat evss)). \<exists>w \<in> set ws. t = tk_request w \<and>
        uc_automatic (cfg_updates (tk_config w)) \<and> mc_enabled (cfg_maintenance (tk_config w)) \<and>
        (\<exists>lt. tk_local_time w = Some lt \<and>
           (lt_weekday lt, lt_minutes lt) \<in> open_minutes (mc_windows (cfg_maintenance (tk_config w)))))"
proof -
  have "sorted_wrt (\<lambda>a b. a + gap \<le> b) (auto_times (concat evss)) \<and>
     (\<forall>t \<in> set (auto_times (concat evss)). (\<forall>a. sd_last_auto s = Some a \<longrightarrow> a + gap \<le> t) \<and>
        (\<exists>w \<in> set ws. t = tk_request w \<and>
           pm_installs_permitted (permissions_at (tk_config w) (tk_local_time w))))"
    using assms(1,2,4)
  proof (induction ws arbitrary: s ud evss)
    case Nil
    then show ?case by (simp add: auto_times_def map_filter_def)
  next
    case (Cons w ws)
    obtain evs s1 ud1 where t: "tick e w (s, ud) = (evs, s1, ud1)" using prod_cases3 by blast
    obtain rest where r: "sched_run e ws (s1, ud1) = (rest, s', ud')" "evss = evs # rest"
      using Cons.prems(1) t by (auto split: prod.splits)
    have IH: "sorted_wrt (\<lambda>a b. a + gap \<le> b) (auto_times (concat rest))"
      "\<forall>t \<in> set (auto_times (concat rest)). (\<forall>a. sd_last_auto s1 = Some a \<longrightarrow> a + gap \<le> t) \<and>
        (\<exists>w \<in> set ws. t = tk_request w \<and>
           pm_installs_permitted (permissions_at (tk_config w) (tk_local_time w)))"
      using Cons.IH [OF r(1)] Cons.prems(2,3) by simp_all
    have w: "tk_auto w \<le> tk_request w" "gap \<le> check_interval (tk_config w)" using Cons.prems(2,3) by simp_all
    have "a + gap \<le> tk_request w" if "check_interval (tk_config w) \<le> tk_auto w - a" for a
      using that w \<open>0 < gap\<close> by linarith
    with tick_auto [OF t] IH show ?case by (fastforce simp: r(2))
  qed
  then show ?thesis by (auto simp: permissions_at_simps in_window_open_minutes) blast
qed

section \<open>A concrete turn\<close>

definition auto_config :: "unit config" where
  "auto_config = sunday_config\<lparr>cfg_updates := (cfg_updates sunday_config)\<lparr>uc_automatic := True\<rparr>\<rparr>"

definition demo_sched_env :: sched_env where
  "demo_sched_env = \<lparr>se_ser = (\<lambda>_. []), se_from_slice = (\<lambda>_. None), se_to_vec = ar_id\<rparr>"

definition demo_tick :: "unit tick_world" where
  "demo_tick = \<lparr>tk_config = auto_config, tk_local_time = Some sunday_3am, tk_due = 10, tk_check = 11,
     tk_auto = 12, tk_request = 13, tk_io = (\<lambda>_. None), tk_between = id, tk_run = (\<lambda>_ _. Inl ''x''), tk_now = ''t'',
     tk_apply = sunday_world, tk_others = (\<lambda>_ x. x)\<rparr>"

definition checked_sched :: sched where
  "checked_sched = sched_init\<lparr>sd_last_attempt := Some 9\<rparr>"

lemma auto_config_interval: "check_interval auto_config = 6 * 60 * 60 * 1000000000"
proof -
  have "trim ''6h'' = ''6h''" by (rule trim_plain) (simp_all add: plain_char_def)
  then have "parse_duration ''6h'' = Inr 21600"
    by (simp add: parse_duration_def is_ascii_digit_def parse_u64_def parse_uint_def digits_val_def digit_val_def
        u64_max_def duration_unit_def)
  then show ?thesis
    by (simp add: check_interval_def auto_config_def sunday_config_def config_default_def
        updates_config_default_def from_secs_def)
qed

lemma auto_config_permits: "pm_installs_permitted (permissions_at auto_config (Some sunday_3am))"
  using sunday_3am_open
  by (simp add: permissions_at_simps in_window_open_minutes auto_config_def sunday_config_def sunday_3am_def)

lemma demo_tick_run:
  "\<exists>evs s ud. tick demo_sched_env demo_tick (checked_sched, one_available, disk_of Map.empty) = (evs, s, ud) \<and>
     auto_times evs = [13] \<and> sd_last_attempt s = Some 9"
proof -
  have "\<not> check_due demo_tick (checked_sched\<lparr>sd_previous := p\<rparr>)" for p
    by (simp add: check_due_def checked_sched_def demo_tick_def auto_config_interval sched_init_def check_is_due_def
        elapsed_def)
  moreover have "read_regular_file (\<lambda>_. None) id f None (disk_of Map.empty) =
      (Inl (f @ '': '' @ ENOENT), disk_of Map.empty\<lparr>dk_calls := 1\<rparr>)" for f
    by (simp add: read_regular_file_def disk_of_def check_metadata_def)
  ultimately show ?thesis
    using auto_config_permits
    by (simp add: tick_def policy_phase_def Let_def ingest_phase_def check_phase_def auto_phase_def
        ingest_apply_result_def apply_inputs_def apply_pending_def lstat_ok_def should_auto_apply_def
        demo_tick_def set_schedule_def one_available_facts checked_sched_def sched_init_def disk_of_def
        auto_times_def map_filter_def split: prod.split)
qed

theorem automatic_applies_spaced_witness:
  "\<exists>evss x. sched_run demo_sched_env [demo_tick] (checked_sched, one_available, disk_of Map.empty) = (evss, x) \<and>
     auto_times (concat evss) = [13] \<and> mc_enabled (cfg_maintenance (tk_config demo_tick))"
proof -
  obtain evs s ud where t: "tick demo_sched_env demo_tick (checked_sched, one_available, disk_of Map.empty) = (evs, s, ud)"
    "auto_times evs = [13]" using demo_tick_run by blast
  obtain s' ud' where r: "sched_run demo_sched_env [demo_tick] (checked_sched, one_available, disk_of Map.empty) =
      ([evs], s', ud')" using t(1) by (cases ud) simp
  have "tk_auto w \<le> tk_request w" "60 \<le> check_interval (tk_config w)" if "w \<in> set [demo_tick]" for w
    using that by (simp_all add: demo_tick_def auto_config_interval)
  then have "\<forall>t \<in> set (auto_times (concat [evs])). \<exists>w \<in> set [demo_tick]. mc_enabled (cfg_maintenance (tk_config w))"
    using automatic_applies_spaced [OF r, of 60] by fastforce
  with r t(2) show ?thesis by auto
qed

theorem tick_checks_fresh_witness:
  "\<exists>evs s ud. tick demo_sched_env demo_tick (checked_sched, one_available, disk_of Map.empty) = (evs, s, ud) \<and>
     (tk_due demo_tick - 9 < check_interval (tk_config demo_tick) \<or> sd_last_attempt s = Some 11)"
proof -
  obtain evs s u d where t: "tick demo_sched_env demo_tick (checked_sched, one_available, disk_of Map.empty) = (evs, s, u, d)"
    using prod_cases4 by blast
  from tick_checks_fresh [OF t] have "tk_due demo_tick - 9 < check_interval (tk_config demo_tick) \<or> sd_last_attempt s = Some 11"
    by (auto simp: checked_sched_def demo_tick_def)
  with t show ?thesis by blast
qed

end
