(* ===== verification/Reload.thy ===== *)
theory Reload
  imports Handlers
begin

text \<open>
  \<^verbatim>\<open>services/aborad/src/reload.rs\<close>: re-reading the configuration and the token file of the running daemon.
  The log lines are part of the result, since telling the operator what changed is what half of the
  code does. The result \<^term>\<open>None\<close> is a panic, which the token decoder has (\<^verbatim>\<open>Tokens\<close>). The TOML
  library is two arguments, one for each file.
\<close>

datatype reload_source = FileSource path | Builtin

definition file_path :: "reload_source \<Rightarrow> path option" where
  "file_path s = (case s of FileSource p \<Rightarrow> Some p | Builtin \<Rightarrow> None)"

datatype line = LInfo string | LWarn string

definition reboot_policy_debug :: "reboot_policy \<Rightarrow> string" where
  "reboot_policy_debug p = (case p of Always \<Rightarrow> ''Always'' | Never \<Rightarrow> ''Never'' | Ask \<Rightarrow> ''Ask'')"

definition changed_if :: "bool \<Rightarrow> string \<Rightarrow> string list" where
  "changed_if c note = (if c then [note] else [])"

definition changed_settings :: "'x config \<Rightarrow> 'x config \<Rightarrow> string list" where
  "changed_settings previous fresh =
     changed_if (sc_hostname (cfg_system previous) \<noteq> sc_hostname (cfg_system fresh))
       (''[system] hostname = '' @ (case sc_hostname (cfg_system fresh) of Some h \<Rightarrow> h | None \<Rightarrow> ''-'')) @
     changed_if (sc_description (cfg_system previous) \<noteq> sc_description (cfg_system fresh))
       ''system description changed'' @
     changed_if (uc_channel (cfg_updates previous) \<noteq> uc_channel (cfg_updates fresh))
       (''[updates] channel = '' @ channel_display (uc_channel (cfg_updates fresh))) @
     changed_if (uc_automatic (cfg_updates previous) \<noteq> uc_automatic (cfg_updates fresh))
       (''[updates] automatic = '' @ show_bool (uc_automatic (cfg_updates fresh))) @
     changed_if (uc_check_interval (cfg_updates previous) \<noteq> uc_check_interval (cfg_updates fresh))
       (''[updates] check_interval = '' @ uc_check_interval (cfg_updates fresh)) @
     changed_if (uc_reboot_policy (cfg_updates previous) \<noteq> uc_reboot_policy (cfg_updates fresh))
       (''[updates] reboot_policy = '' @ reboot_policy_debug (uc_reboot_policy (cfg_updates fresh))) @
     changed_if (mc_enabled (cfg_maintenance previous) \<noteq> mc_enabled (cfg_maintenance fresh))
       (''[maintenance] enabled = '' @ show_bool (mc_enabled (cfg_maintenance fresh))) @
     changed_if (mc_windows (cfg_maintenance previous) \<noteq> mc_windows (cfg_maintenance fresh))
       (''[maintenance] '' @ show_nat (length (mc_windows (cfg_maintenance fresh))) @ '' window(s)'') @
     changed_if (sec_require_authentication (cfg_security previous) \<noteq> sec_require_authentication (cfg_security fresh))
       (''[security] require_authentication = '' @ show_bool (sec_require_authentication (cfg_security fresh))) @
     changed_if (sec_token_file (cfg_security previous) \<noteq> sec_token_file (cfg_security fresh))
       (''[security] token_file = '' @ (case sec_token_file (cfg_security fresh) of Some p \<Rightarrow> p | None \<Rightarrow> ''unset'')) @
     changed_if (lc_level (cfg_logging previous) \<noteq> lc_level (cfg_logging fresh))
       (''[logging] level = '' @ level_display (lc_level (cfg_logging fresh))) @
     changed_if (ac_max_payload_bytes (cfg_api previous) \<noteq> ac_max_payload_bytes (cfg_api fresh))
       (''[api] max_payload_bytes = '' @ show_nat (unat (ac_max_payload_bytes (cfg_api fresh)))) @
     changed_if (ac_request_timeout_secs (cfg_api previous) \<noteq> ac_request_timeout_secs (cfg_api fresh))
       (''[api] request_timeout_secs = '' @ show_nat (unat (ac_request_timeout_secs (cfg_api fresh))))"

text \<open>Settings fixed when the router and the listener are built.\<close>

definition restart_notes :: "'x config \<Rightarrow> 'x config \<Rightarrow> string list" where
  "restart_notes previous fresh =
     changed_if (rc_listen_addr (cfg_remote previous) \<noteq> rc_listen_addr (cfg_remote fresh))
       (''[remote] listen_addr '' @ rc_listen_addr (cfg_remote previous) @ '' -> '' @
         rc_listen_addr (cfg_remote fresh) @ '' (restart required)'') @
     changed_if (ac_base_path (cfg_api previous) \<noteq> ac_base_path (cfg_api fresh))
       (''[api] base_path '' @ ac_base_path (cfg_api previous) @ '' -> '' @
         ac_base_path (cfg_api fresh) @ '' (restart required)'') @
     changed_if (lc_format (cfg_logging previous) \<noteq> lc_format (cfg_logging fresh))
       ''log format change requires a restart''"

definition token_note :: "nat \<Rightarrow> bool \<Rightarrow> path \<Rightarrow> string" where
  "token_note n previous_not_empty path =
     (if n = 0 then ''token file contains no tokens; all requests will be rejected with 401''
      else if previous_not_empty then show_nat n @ '' token(s) reloaded from '' @ path
      else ''token authentication enabled ('' @ show_nat n @ '' token(s) from '' @ path @ '')'')"

definition refresh_tokens ::
  "(string \<Rightarrow> string + raw_token list) \<Rightarrow> io_env \<Rightarrow> 'x app_state \<times> disk \<Rightarrow>
   (line list \<times> 'x app_state) option \<times> disk" where
  "refresh_tokens toml env = (\<lambda>(st, d). (case sec_token_file (cfg_security (as_config st)) of
     None \<Rightarrow>
       (if as_tokens st \<noteq> None
        then (Some ([LInfo ''config reload: token authentication disabled (no token_file)''],
                    st\<lparr>as_tokens := None\<rparr>), d)
        else (Some ([], st), d))
   | Some path \<Rightarrow>
       let previous_not_empty = (case as_tokens st of Some store \<Rightarrow> store \<noteq> [] | None \<Rightarrow> False)
       in (case token_load toml env path d of
             (None, d') \<Rightarrow> (None, d')
           | (Some (Inr store), d') \<Rightarrow>
               (Some ([LInfo (''config reload: '' @ token_note (length store) previous_not_empty path)],
                      st\<lparr>as_tokens := Some store\<rparr>), d')
           | (Some (Inl e), d') \<Rightarrow>
               (Some ([LWarn (''config reload: token file '' @ path @ '' could not be loaded ('' @
                   token_store_error_display e @ ''); keeping the previous token store'')], st), d'))))"

definition reload_summary :: "bool \<Rightarrow> level \<Rightarrow> string list \<Rightarrow> string list \<Rightarrow> line list" where
  "reload_summary level_changed new_level changes restart_required =
     (if changes = [] \<and> restart_required = []
      then [LInfo ''config reload applied; configuration unchanged'']
      else map (\<lambda>c. LInfo (''config reload: '' @ c)) changes @
           map (\<lambda>n. LWarn (''config reload: '' @ n)) restart_required @
           [LInfo (''config reload applied (log level '' @ level_display new_level @
              (if level_changed then '' changed'' else '' unchanged'') @ '')'')])"

text \<open>The configuration is in place before the token file is read.\<close>

definition install_config :: "'x config \<Rightarrow> 'x app_state \<Rightarrow> 'x app_state" where
  "install_config fresh st =
     (if lc_level (cfg_logging (as_config st)) \<noteq> lc_level (cfg_logging fresh)
      then st\<lparr>as_level := lc_level (cfg_logging fresh), as_config := fresh\<rparr>
      else st\<lparr>as_config := fresh\<rparr>)"

definition apply_reload ::
  "(string \<Rightarrow> string + raw_token list) \<Rightarrow> io_env \<Rightarrow> 'x config \<Rightarrow> 'x app_state \<times> disk \<Rightarrow>
   line list option \<times> 'x app_state \<times> disk" where
  "apply_reload toml env fresh = (\<lambda>(st, d).
     (let previous = as_config st;
          level_changed = (lc_level (cfg_logging previous) \<noteq> lc_level (cfg_logging fresh));
          st = install_config fresh st
      in case refresh_tokens toml env (st, d) of
           (None, d') \<Rightarrow> (None, st, d')
         | (Some (log, st'), d') \<Rightarrow>
             (Some (log @ reload_summary level_changed (lc_level (cfg_logging fresh))
                (changed_settings previous fresh) (restart_notes previous fresh)), st', d')))"

definition reload ::
  "(string \<Rightarrow> 'e + 'x config) \<Rightarrow> ('e \<Rightarrow> string) \<Rightarrow> (string \<Rightarrow> string + raw_token list) \<Rightarrow> io_env \<Rightarrow>
   reload_source \<Rightarrow> 'x app_state \<times> disk \<Rightarrow> line list option \<times> 'x app_state \<times> disk" where
  "reload toml show_toml token_toml env source = (\<lambda>(st, d). (case source of
     Builtin \<Rightarrow> (Some [LInfo
       ''config reload requested but no configuration file exists (compiled-in defaults in use)''], st, d)
   | FileSource path \<Rightarrow> (case config_load toml env path d of
       (Inl e, d') \<Rightarrow> (Some [LWarn (''config reload from '' @ path @ '' failed: '' @
           config_error_display show_toml e @ ''; keeping the previous configuration'')], st, d')
     | (Inr fresh, d') \<Rightarrow> apply_reload token_toml env fresh (st, d'))))"

section \<open>Facts\<close>

lemma changed_if_Nil [simp]: "changed_if c note = [] \<longleftrightarrow> \<not> c"
  by (simp add: changed_if_def)

lemma install_config_simps [simp]:
  "as_config (install_config fresh st) = fresh" "as_tokens (install_config fresh st) = as_tokens st"
  "as_updates (install_config fresh st) = as_updates st"
  "as_uptime_seconds (install_config fresh st) = as_uptime_seconds st"
  "as_started_at (install_config fresh st) = as_started_at st"
  "as_level st = lc_level (cfg_logging (as_config st)) \<Longrightarrow> as_level (install_config fresh st) = lc_level (cfg_logging fresh)"
  by (simp_all add: install_config_def)

lemma read_to_string_fs [simp]: "dk_fs (snd (read_to_string env p d)) = dk_fs d"
  by (simp add: read_to_string_def read_file_def split: option.split sum.split prod.split)

lemma read_to_string_same: "read_to_string env p d = (r, d') \<Longrightarrow> dk_fs d' = dk_fs d"
  using read_to_string_fs [of env p d] by simp

lemma config_load_disk: "config_load toml env p d = (r, d') \<Longrightarrow> dk_fs d' = dk_fs d"
  by (auto simp: config_load_def split: prod.splits sum.splits dest: read_to_string_same)

lemma config_load_valid: "config_load toml env p d = (Inr c, d') \<Longrightarrow> validate c = Inr ()"
  by (auto simp: config_load_def split: prod.splits sum.splits dest: config_from_str_valid)

lemma token_load_disk: "token_load toml env p d = (r, d') \<Longrightarrow> dk_fs d' = dk_fs d"
  by (auto simp: token_load_def split: prod.splits sum.splits dest: read_to_string_same)

lemma refresh_tokens_cases:
  assumes "refresh_tokens toml env (st, d) = (r, d')"
  obtains (off) log where "sec_token_file (cfg_security (as_config st)) = None"
      "r = Some (log, st\<lparr>as_tokens := None\<rparr>)" "d' = d"
  | (loaded) path store log where "sec_token_file (cfg_security (as_config st)) = Some path"
      "token_load toml env path d = (Some (Inr store), d')" "r = Some (log, st\<lparr>as_tokens := Some store\<rparr>)"
  | (kept) path e log where "sec_token_file (cfg_security (as_config st)) = Some path"
      "token_load toml env path d = (Some (Inl e), d')" "r = Some (log, st)"
  | (panic) path where "sec_token_file (cfg_security (as_config st)) = Some path"
      "token_load toml env path d = (None, d')" "r = None"
proof (cases "sec_token_file (cfg_security (as_config st))")
  case None
  have "st\<lparr>as_tokens := None\<rparr> = st" if "as_tokens st = None" using that by simp
  with None assms off show ?thesis by (auto simp: refresh_tokens_def split: if_splits)
next
  case (Some path)
  with assms loaded kept panic show ?thesis
    by (auto simp: refresh_tokens_def Let_def split: prod.splits option.splits sum.splits)
qed

section \<open>Properties\<close>

text \<open>C22. A reload is all or nothing for the configuration and careful with tokens. A configuration that cannot
  be read, parsed or validated changes nothing at all. Otherwise the new one is in place, valid and its
  log level effective; the token store is gone when no token file is named, the new one when that
  loads, and the old one otherwise. The update state and the disk stay as they are.\<close>

theorem reload_outcome:
  assumes "reload toml show_toml token_toml env (FileSource path) (st, d) = (out, st', d')"
    and "config_load toml env path d = (loaded, d1)"
  shows "dk_fs d' = dk_fs d \<and> as_updates st' = as_updates st \<and>
    (case loaded of
       Inl e \<Rightarrow> st' = st \<and> (\<exists>m. out = Some [LWarn m])
     | Inr fresh \<Rightarrow> as_config st' = fresh \<and> validate fresh = Inr () \<and>
         (as_level st = lc_level (cfg_logging (as_config st)) \<longrightarrow> as_level st' = lc_level (cfg_logging fresh)) \<and>
         (case sec_token_file (cfg_security fresh) of
            None \<Rightarrow> as_tokens st' = None \<and> out \<noteq> None
          | Some p \<Rightarrow> (case fst (token_load token_toml env p d1) of
              Some (Inr store) \<Rightarrow> as_tokens st' = Some store \<and> out \<noteq> None
            | Some (Inl _) \<Rightarrow> as_tokens st' = as_tokens st \<and> out \<noteq> None
            | None \<Rightarrow> as_tokens st' = as_tokens st \<and> out = None)))"
proof (cases loaded)
  case (Inl e)
  with assms show ?thesis using config_load_disk [OF assms(2)] by (auto simp: reload_def)
next
  case (Inr fresh)
  obtain r d2 where r: "refresh_tokens token_toml env (install_config fresh st, d1) = (r, d2)" by fastforce
  have run: "apply_reload token_toml env fresh (st, d1) = (out, st', d')"
    using assms Inr by (simp add: reload_def)
  have v: "validate fresh = Inr ()" using assms(2) Inr config_load_valid by blast
  from r show ?thesis
    by (cases rule: refresh_tokens_cases)
      (use run Inr v config_load_disk [OF assms(2)] in
        \<open>auto simp: apply_reload_def Let_def r dest: token_load_disk\<close>)
qed

text \<open>What a reload does not report. It says that nothing changed exactly when the two configurations agree
  but for the files of the update state, the switch and name of remote management, the features and
  the extensions: those are replaced in memory, and the new files are not used before a restart,
  without a word.\<close>

theorem reload_reports_changes:
  "changed_settings p f = [] \<and> restart_notes p f = [] \<longleftrightarrow>
   f = p\<lparr>cfg_updates := (cfg_updates p)\<lparr>uc_state_file := uc_state_file (cfg_updates f),
            uc_apply_result_file := uc_apply_result_file (cfg_updates f)\<rparr>,
         cfg_remote := (cfg_remote p)\<lparr>rc_enabled := rc_enabled (cfg_remote f),
            rc_advertise_hostname := rc_advertise_hostname (cfg_remote f)\<rparr>,
         cfg_features := cfg_features f, cfg_extensions := cfg_extensions f\<rparr>"
proof -
  obtain s u m r sec l a ft x where f: "f = \<lparr>cfg_system = s, cfg_updates = u, cfg_maintenance = m, cfg_remote = r,
    cfg_security = sec, cfg_logging = l, cfg_api = a, cfg_features = ft, cfg_extensions = x\<rparr>"
    by (cases f) 
  obtain s' u' m' r' sec' l' a' ft' x' where p: "p = \<lparr>cfg_system = s', cfg_updates = u', cfg_maintenance = m', cfg_remote = r',
    cfg_security = sec', cfg_logging = l', cfg_api = a', cfg_features = ft', cfg_extensions = x'\<rparr>"
    by (cases p)
  have eqs: "s = s' \<longleftrightarrow> sc_hostname s = sc_hostname s' \<and> sc_description s = sc_description s'"
    "m = m' \<longleftrightarrow> mc_enabled m = mc_enabled m' \<and> mc_windows m = mc_windows m'"
    "sec = sec' \<longleftrightarrow> sec_require_authentication sec = sec_require_authentication sec' \<and> sec_token_file sec = sec_token_file sec'"
    "l = l' \<longleftrightarrow> lc_level l = lc_level l' \<and> lc_format l = lc_format l'"
    "a = a' \<longleftrightarrow> ac_base_path a = ac_base_path a' \<and> ac_max_payload_bytes a = ac_max_payload_bytes a' \<and>
       ac_request_timeout_secs a = ac_request_timeout_secs a'"
    by auto
  show ?thesis
    unfolding changed_settings_def restart_notes_def f p
    by (cases u; cases u'; cases r; cases r') (auto simp: eqs)
qed

lemma read_to_string_quiet:
  "dk_fs d2 = dk_fs d \<Longrightarrow> fst (read_to_string (\<lambda>_. None) p d2) = fst (read_to_string (\<lambda>_. None) p d)"
  by (simp add: read_to_string_def read_file_def split: sum.split)

lemma config_load_quiet:
  "dk_fs d2 = dk_fs d \<Longrightarrow> fst (config_load toml (\<lambda>_. None) p d2) = fst (config_load toml (\<lambda>_. None) p d)"
  using read_to_string_quiet [of d2 d p] by (auto simp: config_load_def split: prod.split sum.split)

lemma token_load_quiet:
  "dk_fs d2 = dk_fs d \<Longrightarrow> fst (token_load toml (\<lambda>_. None) p d2) = fst (token_load toml (\<lambda>_. None) p d)"
  using read_to_string_quiet [of d2 d p] by (auto simp: token_load_def split: prod.split sum.split)

lemma reload_loadedD:
  assumes "reload toml show_toml token_toml env (FileSource path) (st, d) = (Some log, st', d')"
    and "config_load toml env path d = (Inr fresh, d1)"
  obtains log1 where "refresh_tokens token_toml env (install_config fresh st, d1) = (Some (log1, st'), d')"
    "log = log1 @ reload_summary (lc_level (cfg_logging (as_config st)) \<noteq> lc_level (cfg_logging fresh))
       (lc_level (cfg_logging fresh)) (changed_settings (as_config st) fresh) (restart_notes (as_config st) fresh)"
  using assms by (auto simp: reload_def apply_reload_def Let_def split: prod.splits option.splits)

lemma refresh_tokens_again:
  assumes "refresh_tokens toml (\<lambda>_. None) (st, d) = (Some (log, st'), d')"
    and d2: "dk_fs d2 = dk_fs d" and st2: "as_config st2 = as_config st" "as_tokens st2 = as_tokens st'"
  shows "\<exists>log2 d3. refresh_tokens toml (\<lambda>_. None) (st2, d2) = (Some (log2, st2), d3)"
  using assms(1)
proof (cases rule: refresh_tokens_cases)
  case (off log)
  then have "as_tokens st2 = None" using st2(2) by simp
  with off(1) st2(1) show ?thesis by (simp add: refresh_tokens_def)
next
  case (loaded path store log)
  have "fst (token_load toml (\<lambda>_. None) path d2) = Some (Inr store)"
    using token_load_quiet [OF d2, of toml path] loaded(2) by simp
  moreover have "st2\<lparr>as_tokens := Some store\<rparr> = st2" using st2(2) loaded(3) by simp
  ultimately show ?thesis
    using loaded(1) st2(1) by (auto simp: refresh_tokens_def Let_def split: prod.split)
next
  case (kept path e log)
  have "fst (token_load toml (\<lambda>_. None) path d2) = Some (Inl e)"
    using token_load_quiet [OF d2, of toml path] kept(2) by simp
  then show ?thesis
    using kept(1) st2(1) by (auto simp: refresh_tokens_def Let_def split: prod.split)
qed simp

text \<open>Reloading is idempotent: after a reload went through, reloading the same files changes nothing in
  the daemon and says so.\<close>

theorem reload_idempotent:
  assumes "reload toml show_toml token_toml (\<lambda>_. None) (FileSource path) (st, d) = (Some log, st1, d1)"
    and "fst (config_load toml (\<lambda>_. None) path d) = Inr fresh"
    and "dk_fs d2 = dk_fs d"
  shows "\<exists>log2 d3. reload toml show_toml token_toml (\<lambda>_. None) (FileSource path) (st1, d2) = (Some log2, st1, d3) \<and>
     LInfo ''config reload applied; configuration unchanged'' \<in> set log2"
proof -
  obtain e where e: "config_load toml (\<lambda>_. None) path d = (Inr fresh, e)" using assms(2) by (metis prod.collapse)
  obtain e2 where e2: "config_load toml (\<lambda>_. None) path d2 = (Inr fresh, e2)"
    using config_load_quiet [OF assms(3), of toml path] assms(2) by (metis prod.collapse)
  obtain log1 where r: "refresh_tokens token_toml (\<lambda>_. None) (install_config fresh st, e) = (Some (log1, st1), d1)"
    using reload_loadedD [OF assms(1) e] by blast
  have c: "as_config st1 = fresh" using r by (cases rule: refresh_tokens_cases) simp_all
  then have i: "install_config fresh st1 = st1" by (simp add: install_config_def)
  have fs: "dk_fs e2 = dk_fs e" using config_load_disk [OF e] config_load_disk [OF e2] assms(3) by simp
  obtain log2 d3 where "refresh_tokens token_toml (\<lambda>_. None) (st1, e2) = (Some (log2, st1), d3)"
    using refresh_tokens_again [OF r fs, of st1] c by auto
  moreover have "changed_settings fresh fresh = []" "restart_notes fresh fresh = []"
    by (simp_all add: changed_settings_def restart_notes_def)
  ultimately show ?thesis
    using e2 c by (simp add: reload_def apply_reload_def Let_def i reload_summary_def)
qed

section \<open>A concrete reload\<close>

definition old_state :: "unit app_state" where
  "old_state = \<lparr>as_config = config_default (), as_tokens = None, as_level = lc_level (cfg_logging (config_default ())),
     as_uptime_seconds = 0, as_started_at = ''t'', as_updates = one_available\<rparr>"

definition config_disk :: disk where
  "config_disk = disk_of [''/c'' \<mapsto> Regular \<lparr>rf_bytes = '''', rf_mode = 420, rf_mtime = 0\<rparr>]"

lemma config_disk_load:
  "config_load (\<lambda>_. Inr sunday_config) (\<lambda>_. None) ''/c'' config_disk = (Inr sunday_config, config_disk\<lparr>dk_calls := 1\<rparr>)"
  using sunday_config_valid
  by (simp add: config_load_def config_disk_def disk_of_def read_to_string_def read_file_def read_node_def
      follow_id is_symlink_def valid_utf8_ascii config_from_str_def)

lemma sunday_config_no_tokens: "sec_token_file (cfg_security sunday_config) = None"
  by (simp add: sunday_config_def config_default_def security_config_default_def)

lemma config_disk_reload:
  "\<exists>log st d. reload (\<lambda>_. Inr sunday_config) id (\<lambda>_. Inr []) (\<lambda>_. None) (FileSource ''/c'') (old_state, config_disk) =
     (Some log, st, d)"
  by (simp add: reload_def config_disk_load apply_reload_def Let_def refresh_tokens_def sunday_config_no_tokens old_state_def
      install_config_def)

theorem reload_outcome_witness:
  "\<exists>log st d. reload (\<lambda>_. Inr sunday_config) id (\<lambda>_. Inr []) (\<lambda>_. None) (FileSource ''/c'') (old_state, config_disk) =
     (Some log, st, d) \<and> as_config st = sunday_config \<and> as_updates st = one_available"
proof -
  obtain log st d where r: "reload (\<lambda>_. Inr sunday_config) id (\<lambda>_. Inr []) (\<lambda>_. None) (FileSource ''/c'')
      (old_state, config_disk) = (Some log, st, d)" using config_disk_reload by blast
  from reload_outcome [OF r config_disk_load] r show ?thesis by (simp add: old_state_def)
qed

theorem reload_idempotent_witness:
  "\<exists>log st d log2 d2.
     reload (\<lambda>_. Inr sunday_config) id (\<lambda>_. Inr []) (\<lambda>_. None) (FileSource ''/c'') (old_state, config_disk) = (Some log, st, d) \<and>
     reload (\<lambda>_. Inr sunday_config) id (\<lambda>_. Inr []) (\<lambda>_. None) (FileSource ''/c'') (st, config_disk) = (Some log2, st, d2) \<and>
     LInfo ''config reload applied; configuration unchanged'' \<in> set log2"
proof -
  obtain log st d where r: "reload (\<lambda>_. Inr sunday_config) id (\<lambda>_. Inr []) (\<lambda>_. None) (FileSource ''/c'')
      (old_state, config_disk) = (Some log, st, d)" using config_disk_reload by blast
  have "fst (config_load (\<lambda>_. Inr sunday_config) (\<lambda>_. None) ''/c'' config_disk) = Inr sunday_config"
    by (simp add: config_disk_load)
  from reload_idempotent [OF r this refl] r show ?thesis by blast
qed

end
