(* ===== verification/Daemon.thy ===== *)
theory Daemon
  imports Server Scheduler Reload
begin

text \<open>
  \<^verbatim>\<open>services/aborad/src/main.rs\<close>: command line, choice of the configuration, the checks of the start, and the
  loop that waits for signals and watches the configuration and token files. Messages are part of
  the results, log lines are not modelled. The result \<^term>\<open>None\<close> is a panic. Opening the socket and
  building the runtime are arguments.
\<close>

section \<open>Command line\<close>

datatype action = Help | Version | Run "path option"

fun parse_daemon_args :: "path option \<Rightarrow> bool \<Rightarrow> bool \<Rightarrow> string list \<Rightarrow> string + action" where
  "parse_daemon_args c help version [] = Inr (if help then Help else if version then Version else Run c)"
| "parse_daemon_args c help version (arg # rest) =
     (if arg = ''--help'' \<or> arg = ''-h'' then parse_daemon_args c True version rest
      else if arg = ''--version'' \<or> arg = ''-V'' then parse_daemon_args c help True rest
      else if arg = ''--config'' then (case rest of
        [] \<Rightarrow> Inl ''--config requires a path argument''
      | value # rest' \<Rightarrow> parse_daemon_args (Some value) help version rest')
      else Inl (''unknown argument `'' @ arg @ ''`''))"

definition daemon_args :: "string list \<Rightarrow> string + action" where
  "daemon_args argv = parse_daemon_args None False False argv"

section \<open>Configuration\<close>

datatype config_source = Explicit path | Environment path | BuiltinDefaults

text \<open>\<^verbatim>\<open>Path::exists\<close> follows links; an error counts as absence.\<close>

definition path_exists :: "io_env \<Rightarrow> path \<Rightarrow> disk \<Rightarrow> bool \<times> disk" where
  "path_exists env p d =
     (env (dk_calls d) = None \<and> Option.bind (follow (dk_fs d) p) (dk_fs d) \<noteq> None, d\<lparr>dk_calls := Suc (dk_calls d)\<rparr>)"

record ('x, 'e) config_lib =
  cl_toml :: "string \<Rightarrow> 'e + 'x config"
  cl_show :: "'e \<Rightarrow> string"
  cl_builtin :: "'x config"

definition resolve_config ::
  "('x, 'e) config_lib \<Rightarrow> io_env \<Rightarrow> path option \<Rightarrow> path option \<Rightarrow> disk \<Rightarrow>
   (string + 'x config \<times> config_source) \<times> disk" where
  "resolve_config cl env explicit env_var d =
     (let load = (\<lambda>p. config_load (cl_toml cl) env p d);
          from_file = (\<lambda>p source. case load p of
             (Inl e, d') \<Rightarrow> (Inl (config_error_display (cl_show cl) e), d')
           | (Inr c, d') \<Rightarrow> (Inr (c, source p), d'))
      in case explicit of
           Some p \<Rightarrow> from_file p Explicit
         | None \<Rightarrow> (case env_var of
             Some p \<Rightarrow> from_file p Environment
           | None \<Rightarrow> (case load DEFAULT_CONFIG_PATH of
               (Inr c, d') \<Rightarrow> (Inr (c, Explicit DEFAULT_CONFIG_PATH), d')
             | (Inl (ConfigIo p m), d') \<Rightarrow> (case path_exists env DEFAULT_CONFIG_PATH d' of
                 (found, d'') \<Rightarrow>
                   if p = DEFAULT_CONFIG_PATH \<and> \<not> found then (Inr (cl_builtin cl, BuiltinDefaults), d'')
                   else (Inl (config_error_display (cl_show cl) (ConfigIo p m)), d''))
             | (Inl e, d') \<Rightarrow> (Inl (config_error_display (cl_show cl) e), d'))))"

section \<open>Start\<close>

definition load_token_store ::
  "(string \<Rightarrow> string + raw_token list) \<Rightarrow> io_env \<Rightarrow> 'x config \<Rightarrow> disk \<Rightarrow>
   (string + token_store option) option \<times> disk" where
  "load_token_store toml env c d = (case sec_token_file (cfg_security c) of
     None \<Rightarrow> (Some (Inr None), d)
   | Some path \<Rightarrow> (case token_load toml env path d of
       (r, d') \<Rightarrow> (map_option (\<lambda>r. case r of Inl e \<Rightarrow> Inl (token_store_error_display e) | Inr s \<Rightarrow> Inr (Some s)) r, d')))"

definition check_bind_addr :: "'x config \<Rightarrow> string + socket_addr" where
  "check_bind_addr c = (case parse_socket_addr (rc_listen_addr (cfg_remote c)) of
     None \<Rightarrow> Inl (''[remote] listen_addr `'' @ rc_listen_addr (cfg_remote c) @ ''` is not a valid socket address'')
   | Some addr \<Rightarrow>
       if \<not> is_loopback (sa_ip addr)
       then Inl (''refusing to bind non-loopback address `'' @ rc_listen_addr (cfg_remote c) @
         ''`: remote management is not implemented in this milestone. Keep [remote].listen_addr on 127.0.0.1/::1; see docs/security.md.'')
       else Inr addr)"

definition request_file_of :: "'x config \<Rightarrow> path" where
  "request_file_of c = path_join
     (case path_parent (uc_state_file (cfg_updates c)) of None \<Rightarrow> ''.'' | Some p \<Rightarrow> p) REQUEST_FILE_NAME"

definition open_updates :: "deserialiser \<Rightarrow> io_env \<Rightarrow> 'x config \<Rightarrow> disk \<Rightarrow> updates_state \<times> disk" where
  "open_updates de env c d =
     (let host = (\<lambda>store. updates_host store (request_file_of c) (uc_apply_result_file (cfg_updates c)))
      in case store_open de env (uc_state_file (cfg_updates c)) d of
           (Inr (store, _), d') \<Rightarrow> (host store, d')
         | (Inl _, d') \<Rightarrow> (host in_memory, d'))"

definition reload_source_of :: "config_source \<Rightarrow> reload_source" where
  "reload_source_of s = (case s of Explicit p \<Rightarrow> FileSource p | Environment p \<Rightarrow> FileSource p | BuiltinDefaults \<Rightarrow> Builtin)"

text \<open>\<^verbatim>\<open>sw_listen\<close> is binding the socket and preparing it, with the message of its error.\<close>

record ('x, 'e) start_world =
  sw_lib :: "('x, 'e) config_lib"
  sw_tokens :: "string \<Rightarrow> string + raw_token list"
  sw_de :: deserialiser
  sw_io :: io_env
  sw_env_var :: "path option"
  sw_listen :: "socket_addr \<Rightarrow> string + unit"
  sw_started_at :: string

record 'x running =
  rn_addr :: socket_addr
  rn_base :: string
  rn_source :: reload_source
  rn_state :: "'x app_state"

definition start_with ::
  "('x, 'e) start_world \<Rightarrow> 'x config \<Rightarrow> config_source \<Rightarrow> socket_addr \<Rightarrow> token_store option \<Rightarrow> disk \<Rightarrow>
   (string + 'x running) \<times> disk" where
  "start_with w c source addr tokens d = (case sw_listen w addr of
     Inl e \<Rightarrow> (Inl e, d)
   | Inr _ \<Rightarrow> (case open_updates (sw_de w) (sw_io w) c d of
       (u, d') \<Rightarrow> (Inr \<lparr>rn_addr = addr, rn_base = ac_base_path (cfg_api c), rn_source = reload_source_of source,
          rn_state = with_updates c (lc_level (cfg_logging c)) tokens u (sw_started_at w)\<rparr>, d')))"

definition start ::
  "('x, 'e) start_world \<Rightarrow> path option \<Rightarrow> disk \<Rightarrow> (string + 'x running) option \<times> disk" where
  "start w explicit d = (case resolve_config (sw_lib w) (sw_io w) explicit (sw_env_var w) d of
     (Inl e, d') \<Rightarrow> (Some (Inl e), d')
   | (Inr (c, source), d') \<Rightarrow> (case validate c of
       Inl errors \<Rightarrow> (Some (Inl (''invalid configuration:'' @ [CHR 0x0A] @ join [CHR 0x0A] errors)), d')
     | Inr _ \<Rightarrow> (case check_bind_addr c of
         Inl e \<Rightarrow> (Some (Inl e), d')
       | Inr addr \<Rightarrow> (case load_token_store (sw_tokens w) (sw_io w) c d' of
           (None, d'') \<Rightarrow> (None, d'')
         | (Some (Inl e), d'') \<Rightarrow> (Some (Inl e), d'')
         | (Some (Inr tokens), d'') \<Rightarrow> (case start_with w c source addr tokens d'' of (r, d3) \<Rightarrow> (Some r, d3))))))"

text \<open>\<^verbatim>\<open>main\<close>: what is printed and the exit status, or the daemon that runs.\<close>

datatype 'x main_result = Exits bool "string list" "string list" | Serves "'x running" | Crashes

definition DAEMON_USAGE :: string where
  "DAEMON_USAGE = ''Usage: aborad [--config <path>] [--version] [--help]''"

definition daemon_main :: "('x, 'e) start_world \<Rightarrow> string list \<Rightarrow> disk \<Rightarrow> 'x main_result \<times> disk" where
  "daemon_main w argv d = (case daemon_args argv of
     Inr Help \<Rightarrow> (Exits True [DAEMON_USAGE] [], d)
   | Inr Version \<Rightarrow> (Exits True [FRAMEWORK_NAME @ '' '' @ FRAMEWORK_VERSION @ '' ('' @ DAEMON_NAME @ '' '' @
       version_display version_current @ '', api '' @ API_VERSION @ '')''] [], d)
   | Inr (Run config_path) \<Rightarrow> (case start w config_path d of
       (None, d') \<Rightarrow> (Crashes, d')
     | (Some (Inr rn), d') \<Rightarrow> (Serves rn, d')
     | (Some (Inl msg), d') \<Rightarrow> (Exits False [] [''error: '' @ msg], d'))
   | Inl msg \<Rightarrow> (Exits False [] [''error: '' @ msg @ [CHR 0x0A] @ DAEMON_USAGE], d))"

section \<open>Signals and watched files\<close>

type_synonym fingerprint = "(nat \<times> nat) option"

text \<open>Modification time and length, following links; \<^verbatim>\<open>ds\<close> is what a directory reports.\<close>

definition fingerprint_of :: "(path \<Rightarrow> nat \<times> nat) \<Rightarrow> io_env \<Rightarrow> path \<Rightarrow> disk \<Rightarrow> fingerprint \<times> disk" where
  "fingerprint_of ds env p d =
     ((if env (dk_calls d) = None
       then (case follow (dk_fs d) p of
           None \<Rightarrow> None
         | Some h \<Rightarrow> (case dk_fs d h of
             None \<Rightarrow> None
           | Some (Regular r) \<Rightarrow> Some (rf_mtime r, length (rf_bytes r))
           | Some _ \<Rightarrow> Some (ds h)))
       else None),
      d\<lparr>dk_calls := Suc (dk_calls d)\<rparr>)"

definition fingerprint_opt :: "(path \<Rightarrow> nat \<times> nat) \<Rightarrow> io_env \<Rightarrow> path option \<Rightarrow> disk \<Rightarrow> fingerprint \<times> disk" where
  "fingerprint_opt ds env p d = (case p of None \<Rightarrow> (None, d) | Some q \<Rightarrow> fingerprint_of ds env q d)"

definition or_seen :: "'a option \<Rightarrow> 'a option \<Rightarrow> 'a option" where
  "or_seen now seen = (case now of Some x \<Rightarrow> Some x | None \<Rightarrow> seen)"

record seen =
  sn_config :: fingerprint
  sn_token :: fingerprint

record ('x, 'e) watch_world =
  ww_lib :: "('x, 'e) config_lib"
  ww_tokens :: "string \<Rightarrow> string + raw_token list"
  ww_io :: io_env
  ww_dirs :: "path \<Rightarrow> nat \<times> nat"

text \<open>The branches of \<^verbatim>\<open>select!\<close>. The future of the hangup branch waits for the signal and then for
  \<^verbatim>\<open>pending()\<close>, so its branch is never chosen.\<close>

datatype wake = Interrupt | Terminate | Hangup | Poll

definition hangup_resolves :: bool where "hangup_resolves = False"

definition token_path :: "'x app_state \<Rightarrow> path option" where
  "token_path st = sec_token_file (cfg_security (as_config st))"

text \<open>How a turn of the loop ends: it goes on, with what was logged if it reloaded, or the task is over. Its
  end, also by a panic, drops the sender of the shutdown channel, on which the server stops.\<close>

datatype turn = GoesOn "line list option" | Stops bool

definition poll_turn ::
  "('x, 'e) watch_world \<Rightarrow> reload_source \<Rightarrow> seen \<times> 'x app_state \<times> disk \<Rightarrow> turn \<times> seen \<times> 'x app_state \<times> disk" where
  "poll_turn w source = (\<lambda>(sn, st, d).
     (case fingerprint_opt (ww_dirs w) (ww_io w) (file_path source) d of (config_now, d) \<Rightarrow>
     (case fingerprint_opt (ww_dirs w) (ww_io w) (token_path st) d of (token_now, d) \<Rightarrow>
       let sn' = \<lparr>sn_config = or_seen config_now (sn_config sn), sn_token = or_seen token_now (sn_token sn)\<rparr>
       in if config_now \<noteq> sn_config sn \<or> token_now \<noteq> sn_token sn
          then (case reload (cl_toml (ww_lib w)) (cl_show (ww_lib w)) (ww_tokens w) (ww_io w) source (st, d) of
              (Some log, st', d') \<Rightarrow> (GoesOn (Some log), sn', st', d')
            | (None, st', d') \<Rightarrow> (Stops True, sn, st', d'))
          else (GoesOn None, sn', st, d))))"

definition watch_turn ::
  "('x, 'e) watch_world \<Rightarrow> reload_source \<Rightarrow> wake \<Rightarrow> seen \<times> 'x app_state \<times> disk \<Rightarrow>
   turn \<times> seen \<times> 'x app_state \<times> disk" where
  "watch_turn w source wake x = (case wake of
     Interrupt \<Rightarrow> (Stops False, x)
   | Terminate \<Rightarrow> (Stops False, x)
   | Hangup \<Rightarrow> (if hangup_resolves then (case x of (sn, st, d) \<Rightarrow>
        (case reload (cl_toml (ww_lib w)) (cl_show (ww_lib w)) (ww_tokens w) (ww_io w) source (st, d) of
           (Some log, st', d') \<Rightarrow> (GoesOn (Some log), sn, st', d')
         | (None, st', d') \<Rightarrow> (Stops True, sn, st', d')))
      else (GoesOn None, x))
   | Poll \<Rightarrow> poll_turn w source x)"

definition watch_init ::
  "('x, 'e) watch_world \<Rightarrow> reload_source \<Rightarrow> 'x app_state \<Rightarrow> disk \<Rightarrow> seen \<times> disk" where
  "watch_init w source st d = (case fingerprint_opt (ww_dirs w) (ww_io w) (file_path source) d of (c, d) \<Rightarrow>
     (case fingerprint_opt (ww_dirs w) (ww_io w) (token_path st) d of (t, d) \<Rightarrow>
        (\<lparr>sn_config = c, sn_token = t\<rparr>, d)))"

section \<open>Facts\<close>

lemma path_exists_disk [simp]: "dk_fs (snd (path_exists env p d)) = dk_fs d"
  by (simp add: path_exists_def)

lemma resolve_config_cases:
  assumes "resolve_config cl env explicit env_var d = (Inr (c, source), d')"
  obtains (from_path) p where "config_load (cl_toml cl) env p d = (Inr c, d')" "reload_source_of source = FileSource p"
      "p = (case explicit of Some q \<Rightarrow> q | None \<Rightarrow> (case env_var of Some q \<Rightarrow> q | None \<Rightarrow> DEFAULT_CONFIG_PATH))"
  | (builtin) "explicit = None" "env_var = None" "c = cl_builtin cl" "source = BuiltinDefaults" "dk_fs d' = dk_fs d"
      "(\<forall>n. env n = None) \<Longrightarrow>
         Option.bind (follow (dk_fs d) DEFAULT_CONFIG_PATH) (dk_fs d) = None"
proof (cases explicit)
  case (Some p)
  with assms from_path show ?thesis
    by (auto simp: resolve_config_def Let_def reload_source_of_def split: prod.splits sum.splits)
next
  case None
  show ?thesis
  proof (cases env_var)
    case (Some p)
    with assms None from_path show ?thesis
      by (auto simp: resolve_config_def Let_def reload_source_of_def split: prod.splits sum.splits)
  next
    case no_var: None
    obtain r d1 where l: "config_load (cl_toml cl) env DEFAULT_CONFIG_PATH d = (r, d1)" by fastforce
    show ?thesis
    proof (cases r)
      case (Inr c')
      with assms None no_var l from_path show ?thesis
        by (auto simp: resolve_config_def Let_def reload_source_of_def)
    next
      case (Inl e)
      with assms None no_var l obtain m where e: "e = ConfigIo DEFAULT_CONFIG_PATH m"
        "path_exists env DEFAULT_CONFIG_PATH d1 = (False, d')" "c = cl_builtin cl" "source = BuiltinDefaults"
        by (auto simp: resolve_config_def Let_def split: config_error.splits prod.splits if_splits)
      have fs: "dk_fs d1 = dk_fs d" by (rule config_load_disk [OF l])
      have "(\<forall>n. env n = None) \<Longrightarrow>
          Option.bind (follow (dk_fs d) DEFAULT_CONFIG_PATH) (dk_fs d) = None"
        using e(2) fs by (simp add: path_exists_def)
      moreover have "dk_fs d' = dk_fs d" using e(2) fs path_exists_disk by (metis snd_conv)
      ultimately show ?thesis by (intro builtin) (simp_all add: None no_var e)
    qed
  qed
qed

lemma startD:
  assumes "start w explicit d = (Some (Inr r), d')"
  obtains c source d1 addr tokens d2 where
    "resolve_config (sw_lib w) (sw_io w) explicit (sw_env_var w) d = (Inr (c, source), d1)" "validate c = Inr ()"
    "check_bind_addr c = Inr addr" "load_token_store (sw_tokens w) (sw_io w) c d1 = (Some (Inr tokens), d2)"
    "start_with w c source addr tokens d2 = (Inr r, d')"
  using assms by (auto simp: start_def split: prod.splits sum.splits option.splits)

lemma load_token_storeD:
  assumes "load_token_store toml env c d = (Some (Inr tokens), d')"
  shows "case sec_token_file (cfg_security c) of None \<Rightarrow> tokens = None
     | Some p \<Rightarrow> \<exists>store. tokens = Some store \<and> token_load toml env p d = (Some (Inr store), d')"
proof (cases "sec_token_file (cfg_security c)")
  case (Some p)
  obtain r d2 where r: "token_load toml env p d = (r, d2)" by fastforce
  show ?thesis
  proof (cases r)
    case (Some x)
    with assms \<open>sec_token_file (cfg_security c) = _\<close> r show ?thesis
      by (cases x) (simp_all add: load_token_store_def)
  qed (use assms Some r in \<open>simp add: load_token_store_def\<close>)
qed (use assms in \<open>simp add: load_token_store_def\<close>)

section \<open>Properties\<close>

text \<open>C18. A daemon that starts is in a safe state: its configuration is valid and comes from the file the command
  line, else the environment, else the default path names, or is the built-in one, which is used only
  if neither is given and nothing is at the default path; it listens on a loopback address; if a token file is configured its tokens are
  loaded (an unreadable or damaged one prevents the start); nothing is listed as available yet, and
  its request file lies next to its state file.\<close>

theorem start_safe:
  assumes "start w explicit d = (Some (Inr r), d')"
  shows "\<exists>c d1. as_config (rn_state r) = c \<and> validate c = Inr () \<and>
     parse_socket_addr (rc_listen_addr (cfg_remote c)) = Some (rn_addr r) \<and> is_loopback (sa_ip (rn_addr r)) \<and>
     (case rn_source r of
        Builtin \<Rightarrow> explicit = None \<and> sw_env_var w = None \<and> c = cl_builtin (sw_lib w) \<and>
          ((\<forall>n. sw_io w n = None) \<longrightarrow> Option.bind (follow (dk_fs d) DEFAULT_CONFIG_PATH) (dk_fs d) = None)
      | FileSource p \<Rightarrow> fst (config_load (cl_toml (sw_lib w)) (sw_io w) p d) = Inr c \<and>
          p = (case explicit of Some q \<Rightarrow> q | None \<Rightarrow> (case sw_env_var w of Some q \<Rightarrow> q | None \<Rightarrow> DEFAULT_CONFIG_PATH))) \<and>
     (case sec_token_file (cfg_security c) of
        None \<Rightarrow> as_tokens (rn_state r) = None
      | Some p \<Rightarrow> dk_fs d1 = dk_fs d \<and>
          (\<exists>store. as_tokens (rn_state r) = Some store \<and>
             fst (token_load (sw_tokens w) (sw_io w) p d1) = Some (Inr store))) \<and>
     ust_available (as_updates (rn_state r)) = [] \<and> ust_request_file (as_updates (rn_state r)) = request_file_of c"
proof (rule startD [OF assms])
  fix c source d1 addr tokens d2
  assume s: "resolve_config (sw_lib w) (sw_io w) explicit (sw_env_var w) d = (Inr (c, source), d1)" "validate c = Inr ()"
    "check_bind_addr c = Inr addr" "load_token_store (sw_tokens w) (sw_io w) c d1 = (Some (Inr tokens), d2)"
    "start_with w c source addr tokens d2 = (Inr r, d')"
  obtain u where r: "r = \<lparr>rn_addr = addr, rn_base = ac_base_path (cfg_api c), rn_source = reload_source_of source,
      rn_state = \<lparr>as_config = c, as_tokens = tokens, as_level = lc_level (cfg_logging c),
        as_uptime_seconds = 0, as_started_at = sw_started_at w, as_updates = u\<rparr>\<rparr>"
    and u: "ust_available u = []" "ust_request_file u = request_file_of c"
    using s(5) by (auto simp: start_with_def with_updates_def open_updates_def updates_host_def updates_state_new_def Let_def
        split: prod.splits sum.splits)
  have addr: "parse_socket_addr (rc_listen_addr (cfg_remote c)) = Some addr" "is_loopback (sa_ip addr)"
    using s(3) by (simp_all add: check_bind_addr_def split: option.splits if_splits)
  have d1: "dk_fs d1 = dk_fs d" and src: "case reload_source_of source of
        Builtin \<Rightarrow> explicit = None \<and> sw_env_var w = None \<and> c = cl_builtin (sw_lib w) \<and>
          ((\<forall>n. sw_io w n = None) \<longrightarrow> Option.bind (follow (dk_fs d) DEFAULT_CONFIG_PATH) (dk_fs d) = None)
      | FileSource p \<Rightarrow> fst (config_load (cl_toml (sw_lib w)) (sw_io w) p d) = Inr c \<and>
          p = (case explicit of Some q \<Rightarrow> q | None \<Rightarrow> (case sw_env_var w of Some q \<Rightarrow> q | None \<Rightarrow> DEFAULT_CONFIG_PATH))"
    using s(1) by (cases rule: resolve_config_cases; simp add: config_load_disk reload_source_of_def)+
  have "case sec_token_file (cfg_security c) of None \<Rightarrow> tokens = None
      | Some p \<Rightarrow> \<exists>store. tokens = Some store \<and> fst (token_load (sw_tokens w) (sw_io w) p d1) = Some (Inr store)"
    using load_token_storeD [OF s(4)] by (auto split: option.splits)
  then show ?thesis
    using s(2) addr d1 src u by (intro exI [of _ c] exI [of _ d1]) (simp add: r split: option.splits)
qed


fun watch_run ::
  "('x, 'e) watch_world \<Rightarrow> reload_source \<Rightarrow> wake list \<Rightarrow> seen \<times> 'x app_state \<times> disk \<Rightarrow>
   turn list \<times> seen \<times> 'x app_state \<times> disk" where
  "watch_run w source [] x = ([], x)"
| "watch_run w source (k # ks) x = (case watch_turn w source k x of
     (Stops p, x') \<Rightarrow> ([Stops p], x')
   | (GoesOn l, x') \<Rightarrow> (case watch_run w source ks x' of (ts, x'') \<Rightarrow> (GoesOn l # ts, x'')))"

lemma fingerprint_opt_disk: "fingerprint_opt ds env p d = (f, d') \<Longrightarrow> dk_fs d' = dk_fs d"
  by (auto simp: fingerprint_opt_def fingerprint_of_def split: option.splits)

lemma fingerprint_opt_quiet:
  "(\<And>n. env n = None) \<Longrightarrow> dk_fs d2 = dk_fs d \<Longrightarrow> fst (fingerprint_opt ds env p d2) = fst (fingerprint_opt ds env p d)"
  by (simp add: fingerprint_opt_def fingerprint_of_def split: option.split)

lemma quiet_turn:
  assumes quiet: "\<And>n. ww_io w n = None"
    and seen: "fst (fingerprint_opt (ww_dirs w) (ww_io w) (file_path source) d) = sn_config sn"
      "fst (fingerprint_opt (ww_dirs w) (ww_io w) (token_path st) d) = sn_token sn"
    and wake: "wake \<in> {Poll, Hangup}"
  obtains d' where "watch_turn w source wake (sn, st, d) = (GoesOn None, sn, st, d')" "dk_fs d' = dk_fs d"
proof (cases "wake = Hangup")
  case True
  then show ?thesis using that [of d] by (simp add: watch_turn_def hangup_resolves_def)
next
  case False
  obtain d1 where d1: "fingerprint_opt (ww_dirs w) (ww_io w) (file_path source) d = (sn_config sn, d1)"
    using seen(1) by (metis prod.collapse)
  have fs1: "dk_fs d1 = dk_fs d" by (rule fingerprint_opt_disk [OF d1])
  obtain d2 where d2: "fingerprint_opt (ww_dirs w) (ww_io w) (token_path st) d1 = (sn_token sn, d2)"
    using seen(2) fingerprint_opt_quiet [of "ww_io w", OF quiet fs1] by (metis prod.collapse)
  have "\<lparr>sn_config = or_seen (sn_config sn) (sn_config sn), sn_token = or_seen (sn_token sn) (sn_token sn)\<rparr> = sn"
    by (simp add: or_seen_def split: option.split)
  with False wake d1 d2 have "watch_turn w source wake (sn, st, d) = (GoesOn None, sn, st, d2)"
    by (simp add: watch_turn_def poll_turn_def Let_def)
  with that fingerprint_opt_disk [OF d2] fs1 show ?thesis by simp
qed

text \<open>The watcher leaves an unchanged system alone: from the moment it starts, however often it polls, it
  reloads nothing while the two files stay as they are. The same holds for a hangup signal, which is
  documented to trigger a reload: it is never acted on.\<close>

theorem unchanged_files_never_reload:
  assumes quiet: "\<And>n. ww_io w n = None" and init: "watch_init w source st d = (sn, d0)"
    and wakes: "set wakes \<subseteq> {Poll, Hangup}"
  shows "\<exists>d'. watch_run w source wakes (sn, st, d0) = (replicate (length wakes) (GoesOn None), sn, st, d') \<and>
     dk_fs d' = dk_fs d"
proof -
  let ?fp = "fingerprint_opt (ww_dirs w) (ww_io w)"
  obtain d1 where i: "?fp (file_path source) d = (sn_config sn, d1)" "?fp (token_path st) d1 = (sn_token sn, d0)"
    using init by (auto simp: watch_init_def split: prod.splits)
  note fs = fingerprint_opt_disk [OF i(1)] fingerprint_opt_disk [OF i(2)]
  have seen: "fst (?fp (file_path source) d) = sn_config sn" "fst (?fp (token_path st) d) = sn_token sn"
    using i fingerprint_opt_quiet [of "ww_io w", OF quiet fs(1)] by (metis fst_conv)+
  have "\<exists>d'. watch_run w source wakes (sn, st, e) = (replicate (length wakes) (GoesOn None), sn, st, d') \<and>
     dk_fs d' = dk_fs d" if "dk_fs e = dk_fs d" for e
    using wakes that
  proof (induction wakes arbitrary: e)
    case (Cons k ks)
    have "fst (?fp (file_path source) e) = sn_config sn" "fst (?fp (token_path st) e) = sn_token sn"
      using seen fingerprint_opt_quiet [of "ww_io w", OF quiet Cons.prems(2)] by metis+
    from quiet_turn [OF quiet this, of k] Cons.prems(1) obtain e' where
      e': "watch_turn w source k (sn, st, e) = (GoesOn None, sn, st, e')" "dk_fs e' = dk_fs e"
      by (metis insert_subset list.simps(15))
    from Cons.IH [of e'] Cons.prems e' show ?case by auto
  qed simp
  with fs show ?thesis by simp
qed

lemma token_load_missing:
  assumes "\<And>n. env n = None" "follow (dk_fs d) p \<noteq> None" "Option.bind (follow (dk_fs d) p) (dk_fs d) = None"
  shows "fst (token_load toml env p d) = Some (Inl (TokenIo p ''No such file or directory (os error 2)''))"
  using assms by (auto simp: token_load_def read_to_string_def read_file_def read_node_def read_error_display_def ENOENT_def)

lemma removed_token_turn:
  assumes quiet: "\<And>n. ww_io w n = None" and cfg: "fst (config_load (cl_toml (ww_lib w)) (ww_io w) c d) = Inr cfg"
    and tok: "sec_token_file (cfg_security cfg) = Some p" "token_path st = Some p" "sn_token sn \<noteq> None"
    and gone: "follow (dk_fs d) p \<noteq> None" "Option.bind (follow (dk_fs d) p) (dk_fs d) = None"
  obtains log sn' st' d' where "watch_turn w (FileSource c) Poll (sn, st, d) = (GoesOn (Some log), sn', st', d')"
    "token_path st' = Some p" "sn_token sn' \<noteq> None" "dk_fs d' = dk_fs d"
proof -
  let ?fp = "fingerprint_opt (ww_dirs w) (ww_io w)"
  obtain f d1 where d1: "?fp (Some c) d = (f, d1)" by fastforce
  have fs1: "dk_fs d1 = dk_fs d" by (rule fingerprint_opt_disk [OF d1])
  have "fst (?fp (Some p) d1) = None"
    using gone by (auto simp: fingerprint_opt_def fingerprint_of_def fs1 split: option.split)
  then obtain d2 where d2: "?fp (Some p) d1 = (None, d2)" by (metis prod.collapse)
  have fs2: "dk_fs d2 = dk_fs d" using fingerprint_opt_disk [OF d2] fs1 by simp
  have env: "ww_io w = (\<lambda>_. None)" using quiet by blast
  obtain d3 where d3: "config_load (cl_toml (ww_lib w)) (ww_io w) c d2 = (Inr cfg, d3)"
    using config_load_quiet [OF fs2] cfg unfolding env by (metis prod.collapse)
  have fs3: "dk_fs d3 = dk_fs d" using config_load_disk [OF d3] fs2 by simp
  obtain d4 where d4: "token_load (ww_tokens w) (ww_io w) p d3 = (Some (Inl (TokenIo p ''No such file or directory (os error 2)'')), d4)"
    using token_load_missing [of "ww_io w" d3 p "ww_tokens w"] quiet gone fs3 by (metis prod.collapse)
  have r: "\<exists>log. refresh_tokens (ww_tokens w) (ww_io w) (install_config cfg st, d3) = (Some (log, install_config cfg st), d4)"
    using tok(1) d4 by (simp add: refresh_tokens_def Let_def)
  then obtain log where r: "reload (cl_toml (ww_lib w)) (cl_show (ww_lib w)) (ww_tokens w) (ww_io w) (FileSource c) (st, d2) =
      (Some log, install_config cfg st, d4)"
    using d3 by (auto simp: reload_def apply_reload_def Let_def)
  have "watch_turn w (FileSource c) Poll (sn, st, d) = (GoesOn (Some log),
      \<lparr>sn_config = or_seen f (sn_config sn), sn_token = sn_token sn\<rparr>, install_config cfg st, d4)"
    using tok(2,3) d1 d2 r by (auto simp: watch_turn_def poll_turn_def file_path_def Let_def or_seen_def)
  moreover have "token_path (install_config cfg st) = Some p" using tok(1) by (simp add: token_path_def)
  moreover have "dk_fs d4 = dk_fs d" using token_load_disk [OF d4] fs3 by simp
  ultimately show ?thesis using that tok(3) by simp
qed

text \<open>After the token file is deleted the watcher never settles: with the configuration as before, every
  poll from then on reloads everything, every two seconds, since the old stamp is kept for
  comparison with the missing one.\<close>

theorem deleted_token_file_reloads_forever:
  assumes quiet: "\<And>n. ww_io w n = None" and cfg: "fst (config_load (cl_toml (ww_lib w)) (ww_io w) c d) = Inr cfg"
    and tok: "sec_token_file (cfg_security cfg) = Some p" "token_path st = Some p" "sn_token sn \<noteq> None"
    and gone: "follow (dk_fs d) p \<noteq> None" "Option.bind (follow (dk_fs d) p) (dk_fs d) = None"
  shows "\<exists>logs x. watch_run w (FileSource c) (replicate n Poll) (sn, st, d) = (map (\<lambda>l. GoesOn (Some l)) logs, x) \<and>
     length logs = n"
  using cfg tok(2,3) gone
proof (induction n arbitrary: sn st d)
  case (Suc n)
  from removed_token_turn [OF quiet Suc.prems(1) tok(1) Suc.prems(2-5)] obtain log sn' st' d' where
    t: "watch_turn w (FileSource c) Poll (sn, st, d) = (GoesOn (Some log), sn', st', d')"
      "token_path st' = Some p" "sn_token sn' \<noteq> None" "dk_fs d' = dk_fs d" by blast
  have env: "ww_io w = (\<lambda>_. None)" using quiet by blast
  have "fst (config_load (cl_toml (ww_lib w)) (ww_io w) c d') = Inr cfg"
    using config_load_quiet [OF t(4)] Suc.prems(1) unfolding env by metis
  from Suc.IH [OF this t(2,3)] Suc.prems(4,5) t(4) obtain logs x where
    "watch_run w (FileSource c) (replicate n Poll) (sn', st', d') = (map (\<lambda>l. GoesOn (Some l)) logs, x)" "length logs = n"
    by auto
  then have "watch_run w (FileSource c) (replicate (Suc n) Poll) (sn, st, d) = (map (\<lambda>l. GoesOn (Some l)) (log # logs), x)"
    "length (log # logs) = Suc n" using t(1) by simp_all
  then show ?case by blast
qed simp

definition damaged_entry :: raw_token where
  "damaged_entry = \<lparr>rt_name = None, rt_permissions = [],
     rt_secret_hash = ''sha256:0'' @ [CHR 0xC3, CHR 0xA9] @ replicate 61 (CHR ''0'')\<rparr>"


section \<open>Concrete runs\<close>

definition tokened_config :: "unit config" where
  "tokened_config = sunday_config\<lparr>cfg_security := \<lparr>sec_require_authentication = True, sec_token_file = Some ''/t''\<rparr>\<rparr>"

definition demo_lib :: "(unit, string) config_lib" where
  "demo_lib = \<lparr>cl_toml = (\<lambda>_. Inr tokened_config), cl_show = id, cl_builtin = config_default ()\<rparr>"

definition demo_watch :: "(string \<Rightarrow> string + raw_token list) \<Rightarrow> (unit, string) watch_world" where
  "demo_watch toml = \<lparr>ww_lib = demo_lib, ww_tokens = toml, ww_io = (\<lambda>_. None), ww_dirs = (\<lambda>_. (0, 0))\<rparr>"

definition config_file :: fs where
  "config_file = [''/c'' \<mapsto> Regular \<lparr>rf_bytes = '''', rf_mode = 420, rf_mtime = 0\<rparr>]"

definition both_files :: fs where
  "both_files = config_file(''/t'' \<mapsto> Regular \<lparr>rf_bytes = '''', rf_mode = 384, rf_mtime = 7\<rparr>)"

definition tokened_state :: "unit app_state" where
  "tokened_state = old_state\<lparr>as_config := tokened_config\<rparr>"

lemma tokened_config_facts [simp]: "validate tokened_config = Inr ()"
  "sec_token_file (cfg_security tokened_config) = Some ''/t''" "token_path tokened_state = Some ''/t''"
proof -
  have "validate_errors tokened_config = validate_errors sunday_config"
    by (simp add: validate_errors_def tokened_config_def)
  then show "validate tokened_config = Inr ()" using sunday_config_valid by (simp add: validate_def split: if_splits)
qed (simp_all add: tokened_config_def token_path_def tokened_state_def)

lemma demo_watch_simps [simp]: "ww_lib (demo_watch toml) = demo_lib" "ww_tokens (demo_watch toml) = toml"
  "ww_io (demo_watch toml) = (\<lambda>_. None)" "cl_toml demo_lib = (\<lambda>_. Inr tokened_config)"
  by (simp_all add: demo_watch_def demo_lib_def)

lemma demo_files: "follow config_file ''/c'' = Some ''/c''" "follow config_file ''/t'' = Some ''/t''"
  "follow both_files ''/c'' = Some ''/c''" "follow both_files ''/t'' = Some ''/t''"
  "config_file ''/t'' = None" "config_file ''/c'' = Some (Regular \<lparr>rf_bytes = '''', rf_mode = 420, rf_mtime = 0\<rparr>)"
  "both_files ''/t'' = Some (Regular \<lparr>rf_bytes = '''', rf_mode = 384, rf_mtime = 7\<rparr>)"
  "both_files ''/c'' = Some (Regular \<lparr>rf_bytes = '''', rf_mode = 420, rf_mtime = 0\<rparr>)"
  by (simp_all add: config_file_def both_files_def follow_id is_symlink_def)

lemma demo_load:
  "dk_fs d ''/c'' = Some (Regular \<lparr>rf_bytes = '''', rf_mode = 420, rf_mtime = 0\<rparr>) \<Longrightarrow>
   config_load (\<lambda>_. Inr tokened_config) (\<lambda>_. None) ''/c'' d = (Inr tokened_config, d\<lparr>dk_calls := Suc (dk_calls d)\<rparr>)"
  by (simp add: config_load_def read_to_string_def read_file_def read_node_def follow_id is_symlink_def
      valid_utf8_ascii config_from_str_def)

definition demo_start :: "(unit, string) start_world" where
  "demo_start = \<lparr>sw_lib = demo_lib, sw_tokens = (\<lambda>_. Inr []), sw_de = (\<lambda>_. None), sw_io = (\<lambda>_. None), sw_env_var = None,
     sw_listen = (\<lambda>_. Inr ()), sw_started_at = ''t''\<rparr>"

lemma demo_start_runs: "\<exists>r d. start demo_start (Some ''/c'') (disk_of both_files) = (Some (Inr r), d)"
proof -
  have addr: "check_bind_addr tokened_config = Inr \<lparr>sa_ip = V4 127 0 0 1, sa_port = 7360\<rparr>"
    by (simp add: check_bind_addr_def tokened_config_def sunday_config_def config_default_def
        remote_config_default_def DEFAULT_LISTEN_ADDR_def parse_default_listen is_loopback_def)
  have cfg: "resolve_config (sw_lib demo_start) (sw_io demo_start) (Some ''/c'') (sw_env_var demo_start) (disk_of both_files) =
      (Inr (tokened_config, Explicit ''/c''), (disk_of both_files)\<lparr>dk_calls := 1\<rparr>)"
    by (simp add: resolve_config_def Let_def demo_load disk_of_def demo_files demo_start_def)
  obtain d2 where tok: "load_token_store (sw_tokens demo_start) (sw_io demo_start) tokened_config
      ((disk_of both_files)\<lparr>dk_calls := 1\<rparr>) = (Some (Inr (Some [])), d2)"
    by (simp add: load_token_store_def token_load_def read_to_string_def read_file_def read_node_def demo_files
        valid_utf8_ascii token_from_str_def demo_start_def disk_of_def)
  obtain r d3 where "start_with demo_start tokened_config (Explicit ''/c'') \<lparr>sa_ip = V4 127 0 0 1, sa_port = 7360\<rparr> (Some []) d2
      = (Inr r, d3)"
    by (cases "open_updates (\<lambda>_. None) (\<lambda>_. None) tokened_config d2") (simp add: start_with_def with_updates_def demo_start_def)
  with addr cfg tok show ?thesis by (simp add: start_def)
qed

theorem start_safe_witness:
  "\<exists>r d. start demo_start (Some ''/c'') (disk_of both_files) = (Some (Inr r), d) \<and> is_loopback (sa_ip (rn_addr r))"
proof -
  obtain r d where r: "start demo_start (Some ''/c'') (disk_of both_files) = (Some (Inr r), d)"
    using demo_start_runs by blast
  from start_safe [OF r] r show ?thesis by blast
qed


theorem unchanged_files_never_reload_witness:
  "\<exists>sn d d'. watch_init (demo_watch (\<lambda>_. Inr [])) (FileSource ''/c'') tokened_state (disk_of both_files) = (sn, d) \<and>
     watch_run (demo_watch (\<lambda>_. Inr [])) (FileSource ''/c'') [Poll, Hangup, Poll] (sn, tokened_state, d) =
       ([GoesOn None, GoesOn None, GoesOn None], sn, tokened_state, d')"
proof -
  obtain sn d where i: "watch_init (demo_watch (\<lambda>_. Inr [])) (FileSource ''/c'') tokened_state (disk_of both_files) = (sn, d)"
    by fastforce
  have "ww_io (demo_watch (\<lambda>_. Inr [])) n = None" for n by simp
  from unchanged_files_never_reload [OF this i, of "[Poll, Hangup, Poll]"] i show ?thesis
    by (auto simp: numeral_eq_Suc)
qed

theorem deleted_token_file_reloads_forever_witness:
  "\<exists>logs x. watch_run (demo_watch (\<lambda>_. Inr [])) (FileSource ''/c'') (replicate 1000 Poll)
     (\<lparr>sn_config = Some (0, 0), sn_token = Some (7, 0)\<rparr>, tokened_state, disk_of config_file) = (map (\<lambda>l. GoesOn (Some l)) logs, x) \<and>
     length logs = 1000"
  by (rule deleted_token_file_reloads_forever [where p = "''/t''" and cfg = tokened_config])
    (simp_all add: demo_load disk_of_def demo_files)


end
