(* ===== verification/Helper.thy ===== *)
theory Helper
  imports HostProvider Apply Schedule
begin

text \<open>
  \<^verbatim>\<open>services/abora-apply/src/main.rs\<close>: the root helper that performs an update. The commands it runs
  are logged together with the file system at that moment, so that what runs, and after which
  writes, is a property of the log. Runner, clock, local time and the JSON and TOML libraries are
  arguments; \<^term>\<open>between\<close> is what other processes do between two system calls of one read.
\<close>

section \<open>State\<close>

definition DEFAULT_CONFIG :: path where "DEFAULT_CONFIG = ''/etc/abora/abora.toml''"
definition INSTALL_TIMEOUT :: duration where "INSTALL_TIMEOUT = from_secs (30 * 60)"

text \<open>\<^verbatim>\<open>now\<close> is called twice in every run that finds a request: when it starts and when it ends. The reboot marker is
  looked for twice after an upgrade.\<close>

record 'x ctx =
  cx_request_path :: path
  cx_config :: "'x config"
  cx_runner :: runner
  cx_started :: string
  cx_finished :: string
  cx_local_time :: "local_time option"
  cx_marker_exists :: bool
  cx_marker_still :: bool

record outcome =
  oc_result :: apply_result
  oc_reboot :: bool

type_synonym command_log = "(string \<times> string list \<times> fs) list"

section \<open>Processing a request\<close>

definition refuse :: "string \<Rightarrow> string \<Rightarrow> string \<Rightarrow> string \<Rightarrow> outcome" where
  "refuse i started now note = \<lparr>oc_result =
     \<lparr>res_id = i, res_started_at = started, res_finished_at = now, res_succeeded = False,
      res_packages = [], res_note = Some note, res_reboot_started = False\<rparr>, oc_reboot = False\<rparr>"

definition fail_with :: "'x ctx \<Rightarrow> string \<Rightarrow> string \<Rightarrow> outcome" where
  "fail_with ctx i note = refuse i (cx_started ctx) (cx_finished ctx) note"

definition OUTSIDE_WINDOW :: string where
  "OUTSIDE_WINDOW = ''refused: updates may only be applied inside a maintenance window ([maintenance] enabled, and the '' @
     ''local time inside a window)''"

definition NOTHING_TO_DO :: string where
  "NOTHING_TO_DO = ''nothing to do: none of the requested packages is upgradable any more''"

text \<open>The checks on the request itself, from the file to a validated request.\<close>

definition read_request ::
  "(string \<Rightarrow> apply_request option) \<Rightarrow> (disk \<Rightarrow> disk) \<Rightarrow> io_env \<Rightarrow> 'x ctx \<Rightarrow> disk \<Rightarrow>
   (outcome + apply_request) \<times> disk" where
  "read_request from_slice between env ctx d =
     (case read_regular_file env between (cx_request_path ctx) (Some MAX_REQUEST_AGE) d of
        (Inl e, d') \<Rightarrow> (Inl (fail_with ctx ''invalid'' (''request refused: '' @ e)), d')
      | (Inr bytes, d') \<Rightarrow>
          (case from_slice bytes of
             None \<Rightarrow> Inl (fail_with ctx ''invalid'' ''request refused: not valid JSON'')
           | Some request \<Rightarrow> (case validate_request request of
               Inl e \<Rightarrow> Inl (fail_with ctx
                 (if valid_request_id (ar_id request) then ar_id request else ''invalid'')
                 (''request refused: '' @ e))
             | Inr _ \<Rightarrow> Inr request), d'))"

definition skipped_note :: "string list \<Rightarrow> bool \<Rightarrow> bool \<Rightarrow> string option" where
  "skipped_note gone marker reboot =
     (let note = (if gone = [] then None
        else Some (show_nat (length gone) @ '' requested package(s) were no longer upgradable and were skipped''));
          extra = ''a reboot is needed but policy does not allow one now''
      in if marker \<and> \<not> reboot
         then Some (case note of None \<Rightarrow> extra | Some n \<Rightarrow> n @ ''; '' @ extra)
         else note)"

text \<open>The rest of \<^verbatim>\<open>process\<close>: policy, simulation, intersection, upgrade.\<close>

definition perform :: "'x ctx \<Rightarrow> apply_request \<Rightarrow> fs \<Rightarrow> outcome \<times> command_log" where
  "perform ctx request f =
     (let perms = permissions_at (cx_config ctx) (cx_local_time ctx); i = ar_id request
      in if \<not> pm_apply_permitted perms then (fail_with ctx i OUTSIDE_WINDOW, [])
         else
           let log = [(''apt-get'', simulate_args, f)]
           in case cx_runner ctx ''apt-get'' simulate_args of
                Inl e \<Rightarrow> (fail_with ctx i (''could not check what is upgradable: '' @ e), log)
              | Inr simulation \<Rightarrow>
                  let upgradable = set (map pu_name (parse_simulation simulation));
                      (todo, gone) = partition (\<lambda>p. p \<in> upgradable) (ar_packages request)
                  in if todo = [] then
                       (\<lparr>oc_result = (oc_result (fail_with ctx i []))
                           \<lparr>res_succeeded := True, res_note := Some NOTHING_TO_DO\<rparr>, oc_reboot = False\<rparr>, log)
                     else
                       let log = log @ [(''apt-get'', install_args todo, f)]
                       in case cx_runner ctx ''apt-get'' (install_args todo) of
                            Inl e \<Rightarrow> (fail_with ctx i (''apt-get failed: '' @ e), log)
                          | Inr _ \<Rightarrow>
                              let reboot = (cx_marker_exists ctx \<and> pm_reboot_permitted perms)
                              in (\<lparr>oc_result = \<lparr>res_id = i, res_started_at = cx_started ctx,
                                     res_finished_at = cx_finished ctx, res_succeeded = True,
                                     res_packages = todo,
                                     res_note = skipped_note gone (cx_marker_still ctx) reboot,
                                     res_reboot_started = reboot\<rparr>,
                                   oc_reboot = reboot\<rparr>, log))"

definition process ::
  "(string \<Rightarrow> apply_request option) \<Rightarrow> (disk \<Rightarrow> disk) \<Rightarrow> io_env \<Rightarrow> 'x ctx \<Rightarrow> disk \<Rightarrow>
   outcome option \<times> command_log \<times> disk" where
  "process from_slice between env ctx d = (case lstat_ok env (cx_request_path ctx) d of
     (False, d') \<Rightarrow> (None, [], d')
   | (True, d') \<Rightarrow> (case read_request from_slice between env ctx d' of
       (Inl oc, d'') \<Rightarrow> (Some oc, [], d'')
     | (Inr request, d'') \<Rightarrow> (case perform ctx request (dk_fs d'') of
         (oc, log) \<Rightarrow> (Some oc, log, d''))))"

section \<open>The program\<close>

record args =
  ag_config :: path
  ag_result_file :: "path option"

definition USAGE :: string where
  "USAGE = ''usage: abora-apply [--config PATH] [--result-file PATH]''"

fun parse_args_from :: "args \<Rightarrow> string list \<Rightarrow> args args_result" where
  "parse_args_from a [] = ArgsOk a"
| "parse_args_from a (flag # it) =
     (if flag = ''--config'' then (case it of
        [] \<Rightarrow> ArgsError ''--config needs a path''
      | p # it' \<Rightarrow> parse_args_from (a\<lparr>ag_config := p\<rparr>) it')
      else if flag = ''--result-file'' then (case it of
        [] \<Rightarrow> ArgsError ''--result-file needs a path''
      | p # it' \<Rightarrow> parse_args_from (a\<lparr>ag_result_file := Some p\<rparr>) it')
      else if flag = ''--help'' \<or> flag = ''-h'' then ArgsExit USAGE
      else ArgsError (''unknown argument `'' @ flag @ ''`''))"

definition parse_args :: "string list \<Rightarrow> args args_result" where
  "parse_args argv = parse_args_from \<lparr>ag_config = DEFAULT_CONFIG, ag_result_file = None\<rparr> argv"

text \<open>\<^verbatim>\<open>fs::metadata\<close> follows links; the length it gives for a directory is below the limit.\<close>

definition load_config ::
  "(string \<Rightarrow> 'e + 'x config) \<Rightarrow> ('e \<Rightarrow> string) \<Rightarrow> io_env \<Rightarrow> path \<Rightarrow> disk \<Rightarrow>
   (string + 'x config) \<times> disk" where
  "load_config toml show_toml env p d = (case env (dk_calls d) of
     Some (e, _) \<Rightarrow> (Inl (p @ '': '' @ e), d\<lparr>dk_calls := Suc (dk_calls d)\<rparr>)
   | None \<Rightarrow>
      (let d' = d\<lparr>dk_calls := Suc (dk_calls d)\<rparr>;
           rest = (case read_to_string env p d' of
              (Inl e, d'') \<Rightarrow> (Inl (p @ '': '' @ read_error_display e), d'')
            | (Inr text, d'') \<Rightarrow> (map_err (\<lambda>e. p @ '': '' @ config_error_display show_toml e)
                (config_from_str toml text), d''))
       in case follow (dk_fs d) p of
            None \<Rightarrow> (Inl (p @ '': '' @ ELOOP), d')
          | Some h \<Rightarrow> (case dk_fs d h of
              None \<Rightarrow> (Inl (p @ '': '' @ ENOENT), d')
            | Some (Regular r) \<Rightarrow>
                if length (rf_bytes r) > MAX_FILE_BYTES
                then (Inl (p @ '' is unreasonably large''), d') else rest
            | _ \<Rightarrow> rest)))"

text \<open>The request lies next to the state file of the daemon.\<close>

definition request_path_of :: "path \<Rightarrow> path" where
  "request_path_of state_file =
     path_join (case path_parent state_file of None \<Rightarrow> ''.'' | Some q \<Rightarrow> q) REQUEST_FILE_NAME"

text \<open>What the program needs from the system besides the disk.\<close>

record helper_world =
  hw_runner :: runner
  hw_started :: string
  hw_finished :: string
  hw_local_time :: "local_time option"
  hw_marker :: bool
  hw_marker_still :: bool

definition ctx_of :: "'x config \<Rightarrow> helper_world \<Rightarrow> 'x ctx" where
  "ctx_of c w = \<lparr>cx_request_path = request_path_of (uc_state_file (cfg_updates c)), cx_config = c,
     cx_runner = hw_runner w, cx_started = hw_started w, cx_finished = hw_finished w,
     cx_local_time = hw_local_time w, cx_marker_exists = hw_marker w, cx_marker_still = hw_marker_still w\<rparr>"

text \<open>After the outcome: the result is written, then the request is removed, then a reboot is started.\<close>

definition conclude ::
  "(apply_result \<Rightarrow> string) \<Rightarrow> io_env \<Rightarrow> 'x ctx \<Rightarrow> path \<Rightarrow> outcome \<Rightarrow> disk \<Rightarrow>
   (string + unit) \<times> command_log \<times> disk" where
  "conclude to_vec env ctx result_file oc d =
     (case write_atomic env result_file (to_vec (oc_result oc)) 420 d of
        (Inl e, d') \<Rightarrow> (Inl (''could not write '' @ result_file @ '': '' @ e), [], d')
      | (Inr _, d') \<Rightarrow>
          (let d'' = snd (remove_file env (cx_request_path ctx) d')
           in if oc_reboot oc
              then (map_err (\<lambda>e. ''reboot failed: '' @ e)
                      (case cx_runner ctx ''systemctl'' [''reboot''] of Inl e \<Rightarrow> Inl e | Inr _ \<Rightarrow> Inr ()),
                    [(''systemctl'', [''reboot''], dk_fs d'')], d'')
              else (Inr (), [], d'')))"

definition run_with ::
  "(string \<Rightarrow> apply_request option) \<Rightarrow> (apply_result \<Rightarrow> string) \<Rightarrow> (disk \<Rightarrow> disk) \<Rightarrow> io_env \<Rightarrow>
   helper_world \<Rightarrow> 'x config \<Rightarrow> path option \<Rightarrow> disk \<Rightarrow> (string + unit) \<times> command_log \<times> disk" where
  "run_with from_slice to_vec between env w c result_arg d =
     (let result_file = (case result_arg of Some p \<Rightarrow> p | None \<Rightarrow> uc_apply_result_file (cfg_updates c));
          ctx = ctx_of c w
      in case process from_slice between env ctx d of
           (None, log, d') \<Rightarrow> (Inr (), log, d')
         | (Some oc, log, d') \<Rightarrow> (case conclude to_vec env ctx result_file oc d' of
             (r, log', d'') \<Rightarrow> (r, log @ log', d'')))"

definition helper_run ::
  "(string \<Rightarrow> 'e + 'x config) \<Rightarrow> ('e \<Rightarrow> string) \<Rightarrow> (string \<Rightarrow> apply_request option) \<Rightarrow>
   (apply_result \<Rightarrow> string) \<Rightarrow> (disk \<Rightarrow> disk) \<Rightarrow> io_env \<Rightarrow> helper_world \<Rightarrow> string list \<Rightarrow> disk \<Rightarrow>
   (string + unit) \<times> command_log \<times> disk" where
  "helper_run toml show_toml from_slice to_vec between env w argv d = (case parse_args argv of
     ArgsError e \<Rightarrow> (Inl e, [], d)
   | ArgsExit _ \<Rightarrow> (Inr (), [], d)
   | ArgsOk a \<Rightarrow> (case load_config toml show_toml env (ag_config a) d of
       (Inl e, d') \<Rightarrow> (Inl e, [], d')
     | (Inr c, d') \<Rightarrow> run_with from_slice to_vec between env w c (ag_result_file a) d'))"

text \<open>\<^verbatim>\<open>main\<close>: whether the exit status is success, and what goes to standard error.\<close>

definition helper_exit :: "(string + unit) \<times> command_log \<times> disk \<Rightarrow> bool \<times> string list" where
  "helper_exit run = (case fst run of Inr _ \<Rightarrow> (True, []) | Inl e \<Rightarrow> (False, [''abora-apply: '' @ e]))"

section \<open>What a run can do\<close>

text \<open>The commands a processed request may lead to.\<close>

definition upgradable_now :: "'x ctx \<Rightarrow> string set" where
  "upgradable_now ctx = (case cx_runner ctx ''apt-get'' simulate_args of
     Inl _ \<Rightarrow> {} | Inr out \<Rightarrow> set (map pu_name (parse_simulation out)))"

definition allowed_command :: "'x ctx \<Rightarrow> apply_request \<Rightarrow> string \<Rightarrow> string list \<Rightarrow> bool" where
  "allowed_command ctx q prog argv \<longleftrightarrow> prog = ''apt-get'' \<and>
     (argv = simulate_args \<or> (\<exists>todo. argv = install_args todo \<and> todo \<noteq> [] \<and>
        todo = filter (\<lambda>p. p \<in> upgradable_now ctx) (ar_packages q)))"

lemma partition_simps: "partition P xs = (filter P xs, filter (\<lambda>x. \<not> P x) xs)"
  by (simp add: partition_filter_conv comp_def)

lemmas perform_unfold = perform_def Let_def partition_simps

lemma perform_log:
  assumes "perform ctx q f = (oc, log)"
  shows "(\<forall>(prog, argv, g) \<in> set log. allowed_command ctx q prog argv) \<and> length log \<le> 2 \<and>
    (log \<noteq> [] \<longrightarrow> pm_apply_permitted (permissions_at (cx_config ctx) (cx_local_time ctx)))"
  using assms
  by (auto simp: perform_unfold allowed_command_def upgradable_now_def split: if_splits sum.splits)

lemma perform_outcome:
  assumes "perform ctx q f = (oc, log)"
  shows "res_id (oc_result oc) = ar_id q \<and>
    res_reboot_started (oc_result oc) = oc_reboot oc \<and>
    (\<not> res_succeeded (oc_result oc) \<longrightarrow> res_packages (oc_result oc) = [] \<and> res_note (oc_result oc) \<noteq> None) \<and>
    (res_packages (oc_result oc) \<noteq> [] \<longrightarrow>
       res_packages (oc_result oc) = filter (\<lambda>p. p \<in> upgradable_now ctx) (ar_packages q) \<and>
       (''apt-get'', install_args (res_packages (oc_result oc)), f) \<in> set log) \<and>
    (oc_reboot oc \<longrightarrow> res_packages (oc_result oc) \<noteq> [] \<and> cx_marker_exists ctx \<and>
       pm_reboot_permitted (permissions_at (cx_config ctx) (cx_local_time ctx)))"
  using assms
  by (auto simp: perform_unfold fail_with_def refuse_def upgradable_now_def split: if_splits sum.splits)

lemma read_request_cases:
  assumes "read_request from_slice between env ctx d = (r, d')"
  shows "case r of
      Inr q \<Rightarrow> validate_request q = Inr () \<and> (\<exists>bs. from_slice bs = Some q \<and>
        fst (read_regular_file env between (cx_request_path ctx) (Some MAX_REQUEST_AGE) d) = Inr bs)
    | Inl oc \<Rightarrow> \<not> res_succeeded (oc_result oc) \<and> res_packages (oc_result oc) = [] \<and>
        res_note (oc_result oc) \<noteq> None \<and> \<not> oc_reboot oc \<and> \<not> res_reboot_started (oc_result oc) \<and>
        (valid_request_id (res_id (oc_result oc)) \<or> res_id (oc_result oc) = ''invalid'')"
  using assms
  by (auto simp: read_request_def fail_with_def refuse_def split: sum.splits prod.splits option.splits if_splits)

lemma process_cases:
  assumes "process from_slice between env ctx d = (oc, log, d')"
  obtains "oc = None" "log = []" "d' = snd (lstat_ok env (cx_request_path ctx) d)"
      "\<not> fst (lstat_ok env (cx_request_path ctx) d)"
  | o' where "oc = Some o'" "log = []"
      "read_request from_slice between env ctx (snd (lstat_ok env (cx_request_path ctx) d)) = (Inl o', d')"
  | q o' where "oc = Some o'"
      "read_request from_slice between env ctx (snd (lstat_ok env (cx_request_path ctx) d)) = (Inr q, d')"
      "perform ctx q (dk_fs d') = (o', log)"
  using assms by (auto simp: process_def split: prod.splits bool.splits sum.splits)

section \<open>Properties\<close>

text \<open>C1. Least privilege of the root helper. Whatever is in the request file, whoever changes it while it is
  read and whatever fails: the helper runs at most two commands before it concludes, the fixed
  simulation and then \<^verbatim>\<open>apt-get install\<close> with the fixed options for exactly those requested packages
  the simulation just listed; it runs any command only for a request that passed validation,
  inside an enabled maintenance window according to the helper's own configuration.\<close>

theorem helper_least_privilege:
  assumes "process from_slice between env ctx d = (oc, log, d')" and "log \<noteq> []"
  shows "\<exists>q t. validate_request q = Inr () \<and> (\<exists>bs. from_slice bs = Some q) \<and>
    length log \<le> 2 \<and> (\<forall>(prog, argv, g) \<in> set log. prog = ''apt-get'' \<and>
      (argv = simulate_args \<or> (\<exists>todo. argv = install_args todo \<and> todo \<noteq> [] \<and>
         todo = filter (\<lambda>p. p \<in> upgradable_now ctx) (ar_packages q) \<and> list_all valid_package_name todo))) \<and>
    cx_local_time ctx = Some t \<and> mc_enabled (cfg_maintenance (cx_config ctx)) \<and>
    (lt_weekday t, lt_minutes t) \<in> open_minutes (mc_windows (cfg_maintenance (cx_config ctx)))"
  using assms(1)
proof (cases rule: process_cases)
  case (3 q oc')
  note r = read_request_cases [OF 3(2)]
  then have q: "validate_request q = Inr ()" "\<exists>bs. from_slice bs = Some q" by auto
  have v: "list_all valid_package_name (filter P (ar_packages q))" for P
    using q(1) by (auto simp: validate_request_ok list_all_iff)
  note l = perform_log [OF 3(3)]
  obtain t where "cx_local_time ctx = Some t" "mc_enabled (cfg_maintenance (cx_config ctx))"
    "(lt_weekday t, lt_minutes t) \<in> open_minutes (mc_windows (cfg_maintenance (cx_config ctx)))"
    using l assms(2) by (auto simp: permissions_at_simps in_window_open_minutes)
  then show ?thesis using q l v unfolding allowed_command_def by fastforce
qed (use assms(2) in simp_all)


text \<open>C13. Requests that are links, directories, larger than 1 MiB or older than ten minutes lead to no command:
  when a command runs and nobody else changes the disk during the read, the request file was a
  regular, small and recent one and its bytes are a valid request.\<close>

theorem helper_request_fresh:
  assumes "process from_slice id env ctx d = (oc, log, d')" and "log \<noteq> []"
  shows "\<exists>r q. dk_fs d (cx_request_path ctx) = Some (Regular r) \<and> length (rf_bytes r) \<le> 1048576 \<and>
    dk_now d \<le> rf_mtime r + 600000000000 \<and> from_slice (rf_bytes r) = Some q \<and> validate_request q = Inr ()"
  using assms(1)
proof (cases rule: process_cases)
  case (3 q w)
  let ?d = "snd (lstat_ok env (cx_request_path ctx) d)"
  obtain bs where bs: "from_slice bs = Some q" "validate_request q = Inr ()"
      "fst (read_regular_file env id (cx_request_path ctx) (Some MAX_REQUEST_AGE) ?d) = Inr bs"
    using read_request_cases [OF 3(2)] by auto
  then obtain d2 where "read_regular_file env id (cx_request_path ctx) (Some MAX_REQUEST_AGE) ?d = (Inr bs, d2)"
    by (metis prod.collapse)
  then obtain r where "dk_fs ?d (cx_request_path ctx) = Some (Regular r)" "bs = rf_bytes r"
      "length bs \<le> MAX_FILE_BYTES" "\<forall>a. Some MAX_REQUEST_AGE = Some a \<longrightarrow> dk_now ?d \<le> rf_mtime r + a"
    by (rule read_regular_file_Inr) blast
  then show ?thesis using bs by (auto simp: MAX_FILE_BYTES_def MAX_REQUEST_AGE_def from_secs_def)
qed (use assms(2) in simp_all)

section \<open>A concrete run\<close>

definition demo_request :: apply_request where
  "demo_request = \<lparr>ar_id = ''apply-12'', ar_requested_at = [], ar_requested_by = ''ops'', ar_packages = [''a'', ''b'']\<rparr>"

definition demo_ctx :: "unit ctx" where
  "demo_ctx = \<lparr>cx_request_path = ''r'', cx_config = sunday_config, cx_runner = one_upgrade,
     cx_started = ''t0'', cx_finished = ''t1'', cx_local_time = Some sunday_3am, cx_marker_exists = False, cx_marker_still = False\<rparr>"

definition demo_disk :: disk where
  "demo_disk = disk_of [''r'' \<mapsto> Regular \<lparr>rf_bytes = ''{}'', rf_mode = 384, rf_mtime = 0\<rparr>]"

lemma demo_request_valid: "validate_request demo_request = Inr ()"
  by (simp add: validate_request_ok demo_request_def valid_request_id_def request_id_char_def
        valid_package_name_def package_char_def str_defs MAX_PACKAGES_def)

lemma demo_permitted: "pm_apply_permitted (permissions_at (cx_config demo_ctx) (cx_local_time demo_ctx))"
  using sunday_3am_open
  by (simp add: permissions_at_simps in_window_open_minutes demo_ctx_def sunday_config_def sunday_3am_def)

lemma demo_perform:
  "snd (perform demo_ctx demo_request f) =
     [(''apt-get'', simulate_args, f), (''apt-get'', install_args [''a''], f)]"
  "res_packages (oc_result (fst (perform demo_ctx demo_request f))) = [''a'']"
proof -
  have u: "pu_name ` set (parse_simulation ''Inst a (1 s)'') = {''a''}" by (simp add: parse_one_upgrade)
  have r: "cx_runner demo_ctx p a = Inr ''Inst a (1 s)''" for p a
    by (simp add: demo_ctx_def one_upgrade_def)
  have q: "ar_packages demo_request = [''a'', ''b'']" by (simp add: demo_request_def)
  show "snd (perform demo_ctx demo_request f) =
      [(''apt-get'', simulate_args, f), (''apt-get'', install_args [''a''], f)]"
    "res_packages (oc_result (fst (perform demo_ctx demo_request f))) = [''a'']"
    using demo_permitted by (simp_all add: perform_unfold r q u)
qed

lemma demo_process:
  obtains oc d' where "process (\<lambda>_. Some demo_request) id (\<lambda>_. None) demo_ctx demo_disk =
    (Some oc, [(''apt-get'', simulate_args, dk_fs demo_disk), (''apt-get'', install_args [''a''], dk_fs demo_disk)], d')"
    "res_packages (oc_result oc) = [''a'']"
proof -
  have l: "lstat_ok (\<lambda>_. None) (cx_request_path demo_ctx) demo_disk = (True, demo_disk\<lparr>dk_calls := 1\<rparr>)"
    by (simp add: lstat_ok_def demo_ctx_def demo_disk_def disk_of_def)
  have "fst (read_request (\<lambda>_. Some demo_request) id (\<lambda>_. None) demo_ctx (demo_disk\<lparr>dk_calls := 1\<rparr>))
     = Inr demo_request"
    "dk_fs (snd (read_request (\<lambda>_. Some demo_request) id (\<lambda>_. None) demo_ctx (demo_disk\<lparr>dk_calls := 1\<rparr>)))
     = dk_fs demo_disk"
    by (simp_all add: read_request_def read_regular_file_def demo_ctx_def demo_disk_def disk_of_def
        check_metadata_def MAX_FILE_BYTES_def read_file_def read_node_def follow_id is_symlink_def
        demo_request_valid)
  then obtain d2 where rr: "read_request (\<lambda>_. Some demo_request) id (\<lambda>_. None) demo_ctx (demo_disk\<lparr>dk_calls := 1\<rparr>)
      = (Inr demo_request, d2)" "dk_fs d2 = dk_fs demo_disk"
    by (metis prod.collapse)
  obtain oc where p: "perform demo_ctx demo_request (dk_fs demo_disk) = (oc,
     [(''apt-get'', simulate_args, dk_fs demo_disk), (''apt-get'', install_args [''a''], dk_fs demo_disk)])"
     "res_packages (oc_result oc) = [''a'']"
    using demo_perform [of "dk_fs demo_disk"] by (metis prod.collapse)
  show ?thesis by (rule that [of oc d2]) (simp_all add: process_def l [unfolded One_nat_def] rr [unfolded One_nat_def] p)
qed

theorem helper_least_privilege_witness:
  "\<exists>oc log d'. process (\<lambda>_. Some demo_request) id (\<lambda>_. None) demo_ctx demo_disk = (oc, log, d') \<and>
     log \<noteq> [] \<and> length log \<le> 2"
proof -
  obtain oc d' where p: "process (\<lambda>_. Some demo_request) id (\<lambda>_. None) demo_ctx demo_disk =
    (Some oc, [(''apt-get'', simulate_args, dk_fs demo_disk), (''apt-get'', install_args [''a''], dk_fs demo_disk)], d')"
    by (rule demo_process)
  from helper_least_privilege [OF this] p show ?thesis by blast
qed


theorem helper_request_fresh_witness:
  "\<exists>r. dk_fs demo_disk ''r'' = Some (Regular r) \<and> dk_now demo_disk \<le> rf_mtime r + 600000000000"
proof -
  obtain oc d' where "process (\<lambda>_. Some demo_request) id (\<lambda>_. None) demo_ctx demo_disk =
    (Some oc, [(''apt-get'', simulate_args, dk_fs demo_disk), (''apt-get'', install_args [''a''], dk_fs demo_disk)], d')"
    by (rule demo_process)
  from helper_request_fresh [OF this] show ?thesis by (auto simp: demo_ctx_def)
qed



end
