(* ===== verification/Footprint.thy ===== *)
theory Footprint
  imports Daemon Helper
begin

text \<open>
  What the operations of the daemon and the helper do to the files of the daemon, in the states they end in and
  in all states on the way, which a crash can leave. Operations that only save the store share a
  contract (a locale), so what they leave alone is proved once.
\<close>

section \<open>Paths\<close>

definition store_paths :: "path \<Rightarrow> path set" where
  "store_paths sp = insert sp (insert (tmp_path sp) (parent_dirs sp))"

definition request_paths :: "path \<Rightarrow> path set" where
  "request_paths rf = insert rf (insert (tmp_path rf) (parent_dirs rf))"

text \<open>What the two names must not have in common; two files of one directory satisfy it.\<close>

definition separate :: "path \<Rightarrow> path \<Rightarrow> bool" where
  "separate sp rf \<longleftrightarrow> rf \<notin> store_paths sp \<and> tmp_path rf \<notin> store_paths sp \<and> tmp_path sp \<notin> request_paths rf"

definition touches :: "path set \<Rightarrow> disk \<Rightarrow> disk \<Rightarrow> bool" where
  "touches ps d d' \<longleftrightarrow> (\<forall>q. q \<notin> ps \<longrightarrow> dk_fs d' q = dk_fs d q)"

lemma touchesD: "touches ps d d' \<Longrightarrow> q \<notin> ps \<Longrightarrow> dk_fs d' q = dk_fs d q"
  by (simp add: touches_def)

lemma touches_same [simp]: "dk_fs d' = dk_fs d \<Longrightarrow> touches ps d d'"
  by (simp add: touches_def)

lemma no_link_same: "dk_fs d' (tmp_path p) = dk_fs d (tmp_path p) \<Longrightarrow> no_link p d' = no_link p d"
  by (simp add: no_link_def is_symlink_def)

section \<open>The files of a configuration\<close>

text \<open>The state file must not be called as the request file or its temporary file; nothing checks that.\<close>

definition names_apart :: "'x config \<Rightarrow> bool" where
  "names_apart c \<longleftrightarrow> uc_state_file (cfg_updates c) \<notin> {request_file_of c, tmp_path (request_file_of c)}"

lemma request_name_facts:
  "length REQUEST_FILE_NAME = 18" "rev REQUEST_FILE_NAME = CHR ''n'' # CHR ''o'' # rev ''apply-request.js''"
  "CHR ''/'' \<notin> set REQUEST_FILE_NAME"
  by (simp_all add: REQUEST_FILE_NAME_def)

lemma path_join_name: "path_join q REQUEST_FILE_NAME = (if q = [] \<or> last q = CHR ''/'' then q else q @ ''/'') @ REQUEST_FILE_NAME"
  by (simp add: path_join_def REQUEST_FILE_NAME_def)

lemma parent_of_join:
  assumes "path_parent (path_join q REQUEST_FILE_NAME) = Some p"
  shows "length p \<le> Suc (length q)"
proof -
  define d where "d = (if q = [] \<or> last q = CHR ''/'' then q else q @ ''/'')"
  have r: "rev (path_join q REQUEST_FILE_NAME) = rev REQUEST_FILE_NAME @ rev d" by (simp add: path_join_name d_def)
  have "strip_rev (rev REQUEST_FILE_NAME @ rev d) = rev REQUEST_FILE_NAME @ rev d" by (simp add: request_name_facts)
  moreover have "dropWhile (\<lambda>c. c \<noteq> CHR ''/'') (rev REQUEST_FILE_NAME @ x) = dropWhile (\<lambda>c. c \<noteq> CHR ''/'') x" for x
    using request_name_facts(3) by (intro dropWhile_append2) auto
  ultimately have "p = rev (strip_rev (dropWhile (\<lambda>c. c \<noteq> CHR ''/'') (rev d)))"
    using assms by (simp add: path_parent_def r Let_def split: if_splits)
  moreover have "length (strip_rev (dropWhile (\<lambda>c. c \<noteq> CHR ''/'') (rev d))) \<le> length d"
    using length_strip_rev length_dropWhile_le by (metis length_rev order_trans)
  moreover have "length d \<le> Suc (length q)" by (simp add: d_def)
  ultimately show ?thesis by simp
qed

lemma parent_dirs_length: "q \<in> parent_dirs p \<Longrightarrow> \<exists>r. path_parent p = Some r \<and> length q \<le> length r"
  by (auto simp: parent_dir_def split: option.splits list.splits dest!: dir_prefixes_length)

lemma names_apart_separate:
  assumes "names_apart c" "rf = request_file_of c" "sp = uc_state_file (cfg_updates c)"
  shows "separate sp rf" "{rf, tmp_path rf, tmp_path sp} \<inter> {sp, sp @ ''.corrupt''} = {}"
proof -
  define q where "q = (case path_parent sp of None \<Rightarrow> ''.'' | Some p \<Rightarrow> p)"
  have rf: "rf = path_join q REQUEST_FILE_NAME" by (simp add: assms(2,3) request_file_of_def q_def)
  then have long: "length q + 18 \<le> length rf" and "last rf = CHR ''n''" and ne: "rf \<noteq> []"
    by (simp_all add: path_join_name request_name_facts last_append) (simp_all add: REQUEST_FILE_NAME_def)
  then have ends: "rf \<noteq> tmp_path x" "rf \<noteq> x @ ''.corrupt''" for x by (auto simp: tmp_path_def)
  have q: "length q \<le> length sp \<or> path_parent sp = None"
    by (auto simp: q_def split: option.split dest: path_parent_shorter)
  have "rf \<notin> parent_dirs sp" "tmp_path rf \<notin> parent_dirs sp"
    using parent_dirs_length [of rf sp] parent_dirs_length [of "tmp_path rf" sp] long by (auto simp: q_def tmp_path_def)
  moreover have "tmp_path sp \<notin> parent_dirs rf"
  proof
    assume "tmp_path sp \<in> parent_dirs rf"
    then obtain r where "path_parent rf = Some r" "length (tmp_path sp) \<le> length r" using parent_dirs_length by blast
    then have "length sp + 4 \<le> Suc (length q)" using parent_of_join [of q r] by (simp add: rf tmp_path_def)
    moreover have "length q \<le> Suc (length sp)" by (auto simp: q_def split: option.split dest: path_parent_shorter)
    ultimately show False by simp
  qed
  moreover have "sp \<noteq> rf" "sp \<noteq> tmp_path rf" using assms by (auto simp: names_apart_def)
  moreover have "tmp_path sp \<noteq> rf" "tmp_path sp = tmp_path rf \<longleftrightarrow> sp = rf" using ends by (auto simp: tmp_path_def)
  ultimately show "separate sp rf" by (auto simp: separate_def store_paths_def request_paths_def)
  show "{rf, tmp_path rf, tmp_path sp} \<inter> {sp, sp @ ''.corrupt''} = {}"
    using ends \<open>sp \<noteq> rf\<close> \<open>sp \<noteq> tmp_path rf\<close> by (auto simp: tmp_path_def)
qed

lemma start_effect:
  assumes "start w explicit d = (Some (Inr r), d')" "c = as_config (rn_state r)" "sp = uc_state_file (cfg_updates c)"
  shows "validate c = Inr ()" "as_level (rn_state r) = lc_level (cfg_logging c)"
    "\<exists>store resf. as_updates (rn_state r) = updates_host store (request_file_of c) resf \<and> us_path store \<in> {None, Some sp}"
    "q \<notin> {sp, sp @ ''.corrupt''} \<Longrightarrow> dk_fs d' q = dk_fs d q"
proof -
  have "validate c = Inr () \<and> as_level (rn_state r) = lc_level (cfg_logging c) \<and>
    (\<exists>store resf. as_updates (rn_state r) = updates_host store (request_file_of c) resf \<and> us_path store \<in> {None, Some sp}) \<and>
    (\<forall>q. q \<notin> {sp, sp @ ''.corrupt''} \<longrightarrow> dk_fs d' q = dk_fs d q)"
  proof (rule startD [OF assms(1)])
    fix c' source d1 addr tokens d2
    assume s: "resolve_config (sw_lib w) (sw_io w) explicit (sw_env_var w) d = (Inr (c', source), d1)" "validate c' = Inr ()"
      "check_bind_addr c' = Inr addr" "load_token_store (sw_tokens w) (sw_io w) c' d1 = (Some (Inr tokens), d2)"
      "start_with w c' source addr tokens d2 = (Inr r, d')"
    have d1: "dk_fs d1 = dk_fs d" using s(1) by (cases rule: resolve_config_cases) (simp_all add: config_load_disk)
    have d2: "dk_fs d2 = dk_fs d1"
      using load_token_storeD [OF s(4)] s(4) by (auto simp: load_token_store_def split: option.splits dest: token_load_disk)
    obtain u where u: "open_updates (sw_de w) (sw_io w) c' d2 = (u, d')"
      and r: "as_config (rn_state r) = c'" "as_level (rn_state r) = lc_level (cfg_logging c')" "as_updates (rn_state r) = u"
      using s(5) by (auto simp: start_with_def with_updates_def split: sum.splits prod.splits)
    have c: "c' = c" using r(1) assms(2) by simp
    obtain x d3 where x: "store_open (sw_de w) (sw_io w) sp d2 = (x, d3)" by fastforce
    have "dk_fs d3 = dk_fs d2 \<or> dk_fs d3 = renamed sp (sp @ ''.corrupt'') (dk_fs d2)"
      using x by (auto simp: store_open_def read_file_def rename_def call_atomic_def put_fs_def Let_def
          split: sum.splits option.splits if_splits prod.splits read_error.splits)
    then have fs: "q \<notin> {sp, sp @ ''.corrupt''} \<Longrightarrow> dk_fs d3 q = dk_fs d2 q" for q by (auto simp: renamed_def)
    have p: "us_path store = Some sp" if "x = Inr (store, o1)" for store o1
      using x that by (auto simp: store_open_def Let_def split: sum.splits option.splits if_splits prod.splits read_error.splits)
    have "d' = d3 \<and> (\<exists>store resf. u = updates_host store (request_file_of c) resf \<and> us_path store \<in> {None, Some sp})"
      using u x p assms(3) by (cases x) (auto simp: c open_updates_def in_memory_def Let_def split: prod.splits)
    then show ?thesis using s(2) r fs d1 d2 by (simp add: c)
  qed
  then show "validate c = Inr ()" "as_level (rn_state r) = lc_level (cfg_logging c)"
    "\<exists>store resf. as_updates (rn_state r) = updates_host store (request_file_of c) resf \<and> us_path store \<in> {None, Some sp}"
    "q \<notin> {sp, sp @ ''.corrupt''} \<Longrightarrow> dk_fs d' q = dk_fs d q"
    by blast+
qed

section \<open>Operations that only save the store\<close>

definition store_ready :: "path \<Rightarrow> shared \<Rightarrow> bool" where
  "store_ready sp x \<longleftrightarrow> us_path (ust_store (fst x)) \<in> {None, Some sp} \<and> no_link sp (snd x)"

text \<open>A state on the way to a saved store.\<close>

definition store_state :: "path \<Rightarrow> fs \<Rightarrow> fs \<Rightarrow> bool" where
  "store_state sp f0 f \<longleftrightarrow> \<not> is_symlink f (tmp_path sp) \<and> (\<forall>q. q \<notin> store_paths sp \<longrightarrow> f q = f0 q)"

locale store_client =
  fixes act :: "shared \<Rightarrow> shared"
  assumes act_passes: "store_ready sp x \<Longrightarrow> passes (store_state sp (dk_fs (snd x))) (snd x) (snd (act x))"
    and act_path: "us_path (ust_store (fst (act x))) = us_path (ust_store (fst x))"
    and act_request_file: "ust_request_file (fst (act x)) = ust_request_file (fst x)"
    and act_valid: "available_valid (fst x) \<Longrightarrow> available_valid (fst (act x))"
begin

lemma act_touches: "store_ready sp x \<Longrightarrow> touches (store_paths sp) (snd x) (snd (act x))"
  using passes_last [OF act_passes] by (simp add: store_state_def touches_def)

lemma act_ready: "store_ready sp x \<Longrightarrow> store_ready sp (act x)"
  using passes_last [OF act_passes] by (simp add: store_state_def store_ready_def no_link_def act_path)

end

lemma store_change_contract:
  assumes "store_change ser env edit s d = (r, s', d')" "us_path s \<in> {None, Some sp}" "no_link sp d"
  shows "passes (store_state sp (dk_fs d)) d d'" "touches (store_paths sp) d d'" "us_path s' = us_path s" "no_link sp d'"
proof -
  have w: "write_state sp bs f0 f \<Longrightarrow> store_state sp f0 f" for bs f0 f
    by (auto simp: write_state_def store_state_def store_paths_def)
  from assms(1) show p: "passes (store_state sp (dk_fs d)) d d'"
  proof (cases rule: store_change_cases)
    case 1
    then show ?thesis using assms(3) by (auto simp: store_state_def no_link_def intro: passes_same)
  next
    case (2 p)
    then have "save_bytes env sp (ser (store_trim (edit (us_data s)))) d = (Inr (), d')" using assms(2) by auto
    from passes_mono [OF sv.wr_passes [OF assms(3) this] w] show ?thesis .
  next
    case (3 p e)
    then have "save_bytes env sp (ser (store_trim (edit (us_data s)))) d = (Inl e, d')" using assms(2) by auto
    from passes_mono [OF sv.wr_passes [OF assms(3) this] w] show ?thesis .
  qed
  then show "touches (store_paths sp) d d'" "no_link sp d'"
    using passes_last [OF p] by (simp_all add: store_state_def touches_def no_link_def)
  show "us_path s' = us_path s" by (rule store_change_path [OF assms(1)])
qed

text \<open>What the interpretations have to show: nothing but reads, then perhaps one change of the store.\<close>

lemma reads_then_store:
  assumes "store_ready sp (u, d)" "dk_fs d1 = dk_fs d" "dk_trace d1 = dk_trace d"
    and "(d' = d1 \<and> ust_store u' = ust_store u) \<or> (\<exists>e f. store_change ser env f (ust_store u) d1 = (e, ust_store u', d'))"
  shows "passes (store_state sp (dk_fs d)) d d' \<and> us_path (ust_store u') = us_path (ust_store u)"
proof -
  have nl: "no_link sp d1" and u: "us_path (ust_store u) \<in> {None, Some sp}"
    using assms(1,2) by (simp_all add: store_ready_def no_link_def)
  have same: "passes (store_state sp (dk_fs d)) d d1"
    using nl assms(2,3) by (auto simp: store_state_def no_link_def intro: passes_same)
  from assms(4) show ?thesis
  proof (elim disjE exE)
    fix e f
    assume c: "store_change ser env f (ust_store u) d1 = (e, ust_store u', d')"
    from passes_trans [OF same] store_change_contract(1,3) [OF c u nl] show ?thesis by (simp add: assms(2))
  qed (use same in simp)
qed

lemma store_change_id_path:
  "(d' = d1 \<and> ust_store u' = ust_store u) \<or> (\<exists>e f. store_change ser env f (ust_store u) d1 = (e, ust_store u', d')) \<Longrightarrow>
   us_path (ust_store u') = us_path (ust_store u)"
  using store_change_path by auto

interpretation schedule: store_client "\<lambda>(u, d). (set_schedule info u, d)"
  by unfold_locales
    (auto simp: store_ready_def set_schedule_def available_valid_def store_state_def no_link_def intro: passes_same)

lemma refresh_store:
  assumes "refresh ser env run now ch (u, d) = (r, u', d')"
  shows "(d' = d \<and> ust_store u' = ust_store u) \<or> (\<exists>e f. store_change ser env f (ust_store u) d = (e, ust_store u', d'))"
  using assms by (auto simp: refresh_def host_check_def record_check_def set_last_def Let_def split: prod.splits sum.splits)

interpretation check: store_client "\<lambda>x. snd (refresh ser env run now ch x)"
proof
  fix sp x
  assume x: "store_ready sp x"
  obtain u d r u' d' where ud: "x = (u, d)" "refresh ser env run now ch (u, d) = (r, u', d')"
    by (metis prod.exhaust)
  show "passes (store_state sp (dk_fs (snd x))) (snd x) (snd (snd (refresh ser env run now ch x)))"
    using reads_then_store [OF x [unfolded ud] refl refl refresh_store [OF ud(2)]] by (simp add: ud)
next
  fix x :: shared
  obtain u d r u' d' where ud: "x = (u, d)" "refresh ser env run now ch (u, d) = (r, u', d')"
    by (metis prod.exhaust)
  show "us_path (ust_store (fst (snd (refresh ser env run now ch x)))) = us_path (ust_store (fst x))"
    using store_change_id_path [OF refresh_store [OF ud(2)]] by (simp add: ud)
  show "ust_request_file (fst (snd (refresh ser env run now ch x))) = ust_request_file (fst x)"
    using ud(2) by (auto simp: ud(1) refresh_def split: prod.splits sum.splits)
  show "available_valid (fst x) \<Longrightarrow> available_valid (fst (snd (refresh ser env run now ch x)))"
    using available_valid_refresh ud(2) by (simp add: ud(1))
qed

lemma read_regular_disk:
  "dk_fs (snd (read_regular_file env id p a d)) = dk_fs d" "dk_trace (snd (read_regular_file env id p a d)) = dk_trace d"
  by (auto simp: read_regular_file_def read_file_def split: option.split sum.split)

lemma ingest_store:
  assumes "ingest_apply_result ser from_slice id env ch (u, d) = (b, u', d')"
    and "d1 = snd (read_regular_file env id (ust_result_file u) None d)"
  shows "(d' = d1 \<and> ust_store u' = ust_store u) \<or> (\<exists>e f. store_change ser env f (ust_store u) d1 = (e, ust_store u', d'))"
proof -
  obtain x where x: "read_regular_file env id (ust_result_file u) None d = (x, d1)" using assms(2) by (metis prod.collapse)
  show ?thesis
    using assms(1) x by (auto simp: ingest_apply_result_def record_update_def Let_def
        split: prod.splits sum.splits option.splits if_splits)
qed

interpretation intake: store_client "\<lambda>x. snd (ingest_apply_result ser from_slice id env ch x)"
proof
  fix sp x
  assume x: "store_ready sp x"
  obtain u d b u' d' where ud: "x = (u, d)" "ingest_apply_result ser from_slice id env ch (u, d) = (b, u', d')"
    by (metis prod.exhaust)
  show "passes (store_state sp (dk_fs (snd x))) (snd x) (snd (snd (ingest_apply_result ser from_slice id env ch x)))"
    using reads_then_store [OF x [unfolded ud(1)] read_regular_disk ingest_store [OF ud(2) refl]] by (simp add: ud)
next
  fix x :: shared
  obtain u d b u' d' where ud: "x = (u, d)" "ingest_apply_result ser from_slice id env ch (u, d) = (b, u', d')"
    by (metis prod.exhaust)
  show "us_path (ust_store (fst (snd (ingest_apply_result ser from_slice id env ch x)))) = us_path (ust_store (fst x))"
    using store_change_id_path [OF ingest_store [OF ud(2) refl]] by (simp add: ud)
  show "ust_request_file (fst (snd (ingest_apply_result ser from_slice id env ch x))) = ust_request_file (fst x)"
    using ud(2) by (auto simp: ud(1) ingest_apply_result_def Let_def split: prod.splits sum.splits option.splits if_splits)
  show "available_valid (fst x) \<Longrightarrow> available_valid (fst (snd (ingest_apply_result ser from_slice id env ch x)))"
    using available_valid_ingest ud(2) by (simp add: ud(1))
qed

lemma host_reboot_required_change:
  assumes "host_reboot_required ser env marker now (h, d) = (rb, h', d')"
  shows "(d' = d \<and> h' = h) \<or>
     (\<exists>e s. store_change ser env (\<lambda>x. x\<lparr>sd_reboot := s\<rparr>) (hp_store h) d = (e, hp_store h', d'))"
proof (cases "rm_exists marker = rs_required (store_reboot (hp_store h))")
  case False
  define s where "s = (if rm_exists marker then \<lparr>rs_required = True, rs_reason = Some (reboot_reason (rm_pkgs marker)),
      rs_pending_since = Some now\<rparr> else reboot_status_default)"
  obtain e t d2 where c: "store_change ser env (\<lambda>x. x\<lparr>sd_reboot := s\<rparr>) (hp_store h) d = (e, t, d2)" using prod_cases3 by blast
  have "hp_store h' = t" "d' = d2"
    using assms False c by (auto simp: host_reboot_required_def set_reboot_def s_def Let_def split: if_splits sum.splits)
  with c show ?thesis by blast
qed (use assms in \<open>auto simp: host_reboot_required_def Let_def split: if_splits\<close>)

lemma apply_pending_disk:
  "dk_fs (snd (apply_pending env u d)) = dk_fs d" "dk_trace (snd (apply_pending env u d)) = dk_trace d"
  by (simp_all add: apply_pending_def)

lemma answer_store:
  assumes "updates_response_of ser env marker now (u, d) = (b, u', d')" "d1 = snd (apply_pending env u d)"
  shows "(d' = d1 \<and> ust_store u' = ust_store u) \<or> (\<exists>e f. store_change ser env f (ust_store u) d1 = (e, ust_store u', d'))"
proof -
  obtain rb where "host_reboot_required ser env marker now (ust_provider u, d1) = (rb, ust_provider u', d')"
    using assms by (auto simp: updates_response_of_def Let_def split: prod.splits)
  then show ?thesis using host_reboot_required_change by fastforce
qed

interpretation answer: store_client "\<lambda>x. snd (updates_response_of ser env marker now x)"
proof
  fix sp x
  assume x: "store_ready sp x"
  obtain u d b u' d' where ud: "x = (u, d)" "updates_response_of ser env marker now (u, d) = (b, u', d')"
    by (metis prod.exhaust)
  show "passes (store_state sp (dk_fs (snd x))) (snd x) (snd (snd (updates_response_of ser env marker now x)))"
    using reads_then_store [OF x [unfolded ud(1)] apply_pending_disk answer_store [OF ud(2) refl]] by (simp add: ud)
next
  fix x :: shared
  obtain u d b u' d' where ud: "x = (u, d)" "updates_response_of ser env marker now (u, d) = (b, u', d')"
    by (metis prod.exhaust)
  show "us_path (ust_store (fst (snd (updates_response_of ser env marker now x)))) = us_path (ust_store (fst x))"
    using store_change_id_path [OF answer_store [OF ud(2) refl]] by (simp add: ud)
  have "ust_request_file u' = ust_request_file u" "ust_available u' = ust_available u"
    using ud(2) by (auto simp: updates_response_of_def Let_def split: prod.splits)
  then show "ust_request_file (fst (snd (updates_response_of ser env marker now x))) = ust_request_file (fst x)"
    "available_valid (fst x) \<Longrightarrow> available_valid (fst (snd (updates_response_of ser env marker now x)))"
    by (simp_all add: ud available_valid_def)
qed

section \<open>Writing a request\<close>

definition proper_request :: "apply_request \<Rightarrow> bool" where
  "proper_request q \<longleftrightarrow> valid_request_id (ar_id q) \<and> ar_packages q \<noteq> [] \<and> sorted (ar_packages q) \<and>
     distinct (ar_packages q) \<and> list_all valid_package_name (ar_packages q)"

text \<open>The file holds a request of this caller.\<close>

definition request_in :: "(apply_request \<Rightarrow> string) \<Rightarrow> path \<Rightarrow> string \<Rightarrow> fs \<Rightarrow> bool" where
  "request_in to_vec rf caller f \<longleftrightarrow>
     (\<exists>q. content f rf = Some (to_vec q) \<and> proper_request q \<and> ar_requested_by q = caller)"

lemma request_decide_proper:
  assumes "request_decide env w cfg caller u d = (Inr q, d')" "available_valid u"
  shows "proper_request q" "ar_requested_by q = caller" "dk_fs d' = dk_fs d" "dk_trace d' = dk_trace d"
proof -
  obtain p where p: "apply_pending env u d = (p, d')" and q: "q = \<lparr>ar_id = new_request_id (aw_hash w), ar_requested_at = aw_now w,
      ar_requested_by = caller, ar_packages = packages_of u\<rparr>" and ne: "packages_of u \<noteq> []"
    using assms(1) by (auto simp: request_decide_def Let_def apply_block_def split: prod.splits option.splits if_splits)
  show "proper_request q" using ne assms(2)
    by (auto simp: q proper_request_def new_request_id_valid packages_of_props available_valid_def list_all_iff)
  show "ar_requested_by q = caller" by (simp add: q)
  show "dk_fs d' = dk_fs d" "dk_trace d' = dk_trace d" using apply_pending_disk [of env u d] p by simp_all
qed

text \<open>The write of a request goes through these states.\<close>

lemma request_commit_passes:
  assumes "request_commit to_vec env u q d = (r, d')" "no_link (ust_request_file u) d"
  shows "passes (write_state (ust_request_file u) (to_vec q) (dk_fs d)) d d'"
proof -
  obtain x where "write_atomic env (ust_request_file u) (to_vec q) 384 d = (x, d')"
    using assms(1) by (auto simp: request_commit_def split: prod.splits sum.splits)
  from wa.wr_passes [OF assms(2) this] show ?thesis .
qed

lemma request_apply_split:
  assumes "request_apply to_vec env w cfg caller dry u d = (r, d')"
  obtains (none) "dk_fs d' = dk_fs d" "dk_trace d' = dk_trace d"
  | (made) q d1 r' where "request_decide env w cfg caller u d = (Inr q, d1)" "request_commit to_vec env u q d1 = (r', d')"
proof (cases dry)
  case True
  have "d' = snd (apply_pending env u d)" using assms by (cases rule: request_apply_cases) (use True in auto)
  then show ?thesis using none apply_pending_disk by simp
next
  case False
  obtain x d1 where x: "request_decide env w cfg caller u d = (x, d1)" by fastforce
  then have "d1 = snd (apply_pending env u d)"
    by (auto simp: request_decide_def Let_def split: prod.splits option.splits)
  then have "dk_fs d1 = dk_fs d" "dk_trace d1 = dk_trace d" by (simp_all add: apply_pending_disk)
  with x assms False none made show ?thesis
    by (cases x) (auto simp: request_apply_parts)
qed

section \<open>The helper\<close>

text \<open>A run ends with the result written and the request removed; nothing else is touched on the way.\<close>

lemma conclude_effect:
  assumes run: "conclude to_vec env ctx res oc d = (r, log, d')" and link: "\<not> is_symlink (dk_fs d) (tmp_path res)"
    and p: "q \<notin> request_paths res"
  shows "dk_fs d' q = dk_fs d q \<or> q = cx_request_path ctx \<and> dk_fs d' q = None"
proof -
  have nl: "no_link res d" using link by (simp add: no_link_def)
  obtain w d1 where w: "write_atomic env res (to_vec (oc_result oc)) 420 d = (w, d1)" by fastforce
  have q: "dk_fs d1 q = dk_fs d q" using wa.wr_frame [OF nl w] p by (simp add: request_paths_def)
  have "dk_fs (snd (remove_file env (cx_request_path ctx) d1)) q = dk_fs d1 q \<or>
      q = cx_request_path ctx \<and> dk_fs (snd (remove_file env (cx_request_path ctx) d1)) q = None"
    by (auto simp: remove_file_def call_atomic_def put_fs_def split: option.split)
  with q run w show ?thesis by (auto simp: conclude_def Let_def split: sum.splits if_splits)
qed

lemma conclude_passes:
  assumes run: "conclude to_vec env ctx res oc d = (r, log, d')" and link: "\<not> is_symlink (dk_fs d) (tmp_path res)"
    and apart: "request_paths res \<inter> qs = {}"
  shows "passes (\<lambda>f. \<forall>q \<in> qs. f q = dk_fs d q \<or> q = cx_request_path ctx \<and> f q = None) d d'"
proof -
  let ?P = "\<lambda>f. \<forall>q \<in> qs. f q = dk_fs d q \<or> q = cx_request_path ctx \<and> f q = None"
  have nl: "no_link res d" using link by (simp add: no_link_def)
  obtain w d1 where w: "write_atomic env res (to_vec (oc_result oc)) 420 d = (w, d1)" by fastforce
  have 1: "passes ?P d d1"
    using wa.wr_passes [OF nl w] by (rule passes_mono) (use apart in \<open>auto simp: write_state_def request_paths_def\<close>)
  have p: "?P (dk_fs d1)" by (rule passes_last [OF 1])
  then have "?P ((dk_fs d1)(cx_request_path ctx := None))" by auto
  from call_atomic_passes [of ?P, OF this p]
  have "passes ?P d1 (snd (call_atomic env ((dk_fs d1)(cx_request_path ctx := None)) d1))" .
  then have 2: "passes ?P d1 (snd (remove_file env (cx_request_path ctx) d1))"
    using passes_same [of ?P d1 d1, OF p refl] by (simp add: remove_file_def)
  from run w have "d' = d1 \<or> d' = snd (remove_file env (cx_request_path ctx) d1)"
    by (auto simp: conclude_def Let_def split: sum.splits if_splits)
  with 1 passes_trans [OF 1 2] show ?thesis by blast
qed

lemma process_disk:
  assumes "process from_slice id env ctx d = (oc, log, d')"
  shows "dk_fs d' = dk_fs d" "dk_trace d' = dk_trace d"
proof -
  have r: "dk_fs (snd (read_request from_slice id env ctx x)) = dk_fs x \<and> dk_trace (snd (read_request from_slice id env ctx x)) = dk_trace x" for x
    using read_regular_disk [of env "cx_request_path ctx" "Some MAX_REQUEST_AGE" x]
    by (auto simp: read_request_def split: prod.split sum.split option.split)
  define d1 where "d1 = snd (lstat_ok env (cx_request_path ctx) d)"
  have "d' = d1 \<or> d' = snd (read_request from_slice id env ctx d1)"
    using assms by (auto simp: process_def d1_def split: prod.splits bool.splits sum.splits if_splits)
  moreover have "dk_fs d1 = dk_fs d" "dk_trace d1 = dk_trace d" by (simp_all add: d1_def)
  ultimately show "dk_fs d' = dk_fs d" "dk_trace d' = dk_trace d" using r [of d1] by auto
qed

section \<open>The handlers\<close>

lemma run_handler_pure:
  "run_handler web sv h caller req (st, d) = (r, st', d') \<Longrightarrow> h \<noteq> HUpdates \<Longrightarrow> h \<noteq> HApplyUpdates \<Longrightarrow> st' = st \<and> d' = d"
  by (cases h) (auto simp: run_handler_def split: sum.splits)

lemma run_handler_effect:
  assumes "run_handler web sv h (Some caller) req (st, d) = (r, st', d')"
  obtains (same) "st' = st" "d' = d"
  | (answer) "st' = st\<lparr>as_updates := fst (snd (updates_response_of (sv_ser sv) (sv_io sv) (sv_marker sv) (sv_now sv) (as_updates st, d)))\<rparr>"
      "d' = snd (snd (updates_response_of (sv_ser sv) (sv_io sv) (sv_marker sv) (sv_now sv) (as_updates st, d)))"
  | (request) dry q where "h = HApplyUpdates" "st' = st"
      "request_apply (sv_to_vec sv) (sv_io sv) (sv_apply sv) (as_config st) caller dry (as_updates st) d = (q, d')"
proof (cases h)
  case HUpdates
  with assms answer show ?thesis by (auto simp: run_handler_def updates_def split: prod.splits)
next
  case HApplyUpdates
  show ?thesis
  proof (cases "wb_query web req")
    case (Inr ps)
    with assms HApplyUpdates obtain x where x: "apply_updates sv (Some caller) ps st d = (x, d')" "st' = st"
      by (auto simp: run_handler_def split: prod.splits)
    show ?thesis
    proof (cases "dry_run_params ps False")
      case (Inl e)
      with x same show ?thesis by (simp add: apply_updates_def)
    next
      case (Inr dry)
      with x obtain q where "request_apply (sv_to_vec sv) (sv_io sv) (sv_apply sv) (as_config st) caller dry (as_updates st) d = (q, d')"
        by (auto simp: apply_updates_def split: prod.splits sum.splits apply_refusal.splits)
      with HApplyUpdates x(2) request show ?thesis by blast
    qed
  qed (use assms HApplyUpdates same in \<open>simp add: run_handler_def\<close>)
qed (use run_handler_pure [OF assms] same in simp_all)

lemma dispatch_effect:
  assumes "dispatch web sv base req (st, d) = (r, st', d')"
  obtains (same) "st' = st" "d' = d"
  | (handled) rt caller where "find_route web base req = Some rt"
      "decision_of web sv (rt_permission rt) req st = Allowed"
      "caller = (case caller_name (sv_sha256 sv) (active_store st) (bearer_of web req) of
         Some n \<Rightarrow> n | None \<Rightarrow> ''loopback (no token)'')"
      "run_handler web sv (rt_handler rt) (Some caller) req (st, d) = (r, st', d')"
  using assms
  by (auto simp: dispatch_def route_service_def authorize_layer_def Let_def split: if_splits option.splits)

text \<open>The one whose token allows a request, by name.\<close>

definition authorised_author :: "web \<Rightarrow> server_env \<Rightarrow> http_request \<Rightarrow> 'x app_state \<Rightarrow> string option" where
  "authorised_author web sv req st =
     (case (active_store st, bearer_of web req) of
        (Some tokens, Some secret) \<Rightarrow> (case token_find (sv_sha256 sv) tokens secret of
            Some t \<Rightarrow> if is_loopback (peer_of req) \<and> ''manage:updates'' \<in> set (tk_permissions t)
              then Some (case tk_name t of Some n \<Rightarrow> n | None \<Rightarrow> ''unnamed token'') else None
          | None \<Rightarrow> None)
      | _ \<Rightarrow> None)"

lemma manage_author:
  assumes "decision_of web sv ManageUpdates req st = Allowed"
    and "caller = (case caller_name (sv_sha256 sv) (active_store st) (bearer_of web req) of
         Some n \<Rightarrow> n | None \<Rightarrow> ''loopback (no token)'')"
  shows "authorised_author web sv req st = Some caller"
  using assms
  by (auto simp: decision_of_def authorize_def authorised_author_def caller_name_def is_mutating_def grants_def
      list_ex_iff prefix_def split: if_splits option.splits)

section \<open>Reload\<close>

lemma read_to_string_trace: "read_to_string env p d = (r, d') \<Longrightarrow> dk_trace d' = dk_trace d"
  by (metis read_to_string_disk(2) snd_conv)

lemma config_load_trace: "config_load toml env p d = (r, d') \<Longrightarrow> dk_trace d' = dk_trace d"
  by (auto simp: config_load_def split: prod.splits sum.splits dest: read_to_string_trace)

lemma token_load_trace: "token_load toml env p d = (r, d') \<Longrightarrow> dk_trace d' = dk_trace d"
  by (auto simp: token_load_def split: prod.splits sum.splits dest: read_to_string_trace)

lemma refresh_tokens_frame:
  assumes "refresh_tokens toml env (st, d) = (r, d')"
  shows "dk_fs d' = dk_fs d \<and> dk_trace d' = dk_trace d \<and>
    (\<forall>l s. r = Some (l, s) \<longrightarrow> as_updates s = as_updates st \<and> as_config s = as_config st \<and> as_level s = as_level st)"
  using assms by (cases rule: refresh_tokens_cases) (auto dest: token_load_disk token_load_trace)

lemma reload_frame:
  assumes "reload toml show_toml token_toml env source (st, d) = (log, st', d')"
  shows "as_updates st' = as_updates st \<and> dk_fs d' = dk_fs d \<and> dk_trace d' = dk_trace d"
proof (cases source)
  case (FileSource path)
  obtain c d1 where c: "config_load toml env path d = (c, d1)" by fastforce
  note d1 = config_load_disk [OF c] config_load_trace [OF c]
  show ?thesis
  proof (cases c)
    case (Inr fresh)
    obtain r d2 where r: "refresh_tokens token_toml env (install_config fresh st, d1) = (r, d2)" by fastforce
    have "apply_reload token_toml env fresh (st, d1) = (log, st', d')"
      using assms FileSource c Inr by (simp add: reload_def)
    moreover from r have "dk_fs d2 = dk_fs d1 \<and> dk_trace d2 = dk_trace d1 \<and> (\<forall>l s. r = Some (l, s) \<longrightarrow> as_updates s = as_updates st)"
      by (cases rule: refresh_tokens_cases) (auto dest: token_load_disk token_load_trace)
    ultimately show ?thesis using r d1 by (auto simp: apply_reload_def Let_def split: option.splits)
  qed (use assms FileSource c d1 in \<open>auto simp: reload_def\<close>)
qed (use assms in \<open>auto simp: reload_def\<close>)


end
