(* ===== verification/System.thy ===== *)
theory System
  imports Footprint
begin

text \<open>
  The daemon and the root helper together. They share one directory: the daemon keeps its store there and
  writes the request file, the helper acts on that file. The step relation interleaves requests of
  clients, the phases of the scheduler, reloads, runs of the helper and changes by the rest of the
  system, in any order; the longer operations also in parts, between which the others may come. The
  daemon and the helper may be killed at any moment, and the daemon started again.
\<close>

section \<open>Machines\<close>

text \<open>A client's request between its admission and its handler, with the state it was admitted in.\<close>

record 'x flight =
  fl_env :: server_env
  fl_request :: http_request
  fl_route :: route
  fl_caller :: string
  fl_state :: "'x app_state"

text \<open>Whom an apply request comes from.\<close>

datatype 'x origin = ByClient server_env http_request "'x app_state" | ByScheduler "'x tick_world"

text \<open>What the threads of the daemon hold: the scheduler its state and the copy of the configuration it takes at
  the beginning of each turn, the handlers their requests and the apply requests they have decided on but not yet
  written, the watcher whether it has installed a configuration and not yet looked at the token file.\<close>

record 'x threads =
  th_sched :: sched
  th_config :: "'x config"
  th_flights :: "'x flight list"
  th_writes :: "('x origin \<times> apply_request) list"
  th_reloading :: bool

definition threads_init :: "'x config \<Rightarrow> 'x threads" where
  "threads_init cfg = \<lparr>th_sched = sched_init, th_config = cfg, th_flights = [], th_writes = [], th_reloading = False\<rparr>"

type_synonym 'x sys = "'x threads \<times> 'x server"

datatype 'x machine = Up "'x sys" | Down disk

fun machine_disk :: "'x machine \<Rightarrow> disk" where
  "machine_disk (Up (g, c, st, d)) = d"
| "machine_disk (Down d) = d"

datatype 'x actor = Client server_env http_request | Automatic "'x tick_world" | Background | HelperRun | Rest

section \<open>Steps outside the daemon\<close>

definition daemon_names :: "path \<Rightarrow> path \<Rightarrow> path set" where
  "daemon_names sp rf = {rf, tmp_path rf, tmp_path sp}"

text \<open>The helper runs, or is killed in any of the states its run passes through. The rest of the system may
  change anything but the names of the daemon's directory it would need to forge a request.\<close>

inductive outside_step :: "path \<Rightarrow> path \<Rightarrow> 'x actor \<Rightarrow> disk \<Rightarrow> disk \<Rightarrow> bool" for sp rf where
  helper: "process from_slice id env (ctx :: 'x ctx) d = (Some oc, log, d1) \<Longrightarrow> conclude result_vec env ctx res oc d1 = (r, log', d') \<Longrightarrow>
    cx_request_path ctx = rf \<Longrightarrow> \<not> is_symlink (dk_fs d) (tmp_path res) \<Longrightarrow> request_paths res \<inter> daemon_names sp rf = {} \<Longrightarrow>
    outside_step sp rf HelperRun d d'"
| helper_killed: "outside_step sp rf (HelperRun :: 'x actor) d d' \<Longrightarrow> dk_trace d' = dk_trace d @ passed \<Longrightarrow> f \<in> set passed \<Longrightarrow>
    outside_step sp rf HelperRun d (d'\<lparr>dk_fs := f\<rparr>)"
| rest: "(\<And>q. q \<in> daemon_names sp rf \<Longrightarrow> dk_fs d' q = dk_fs d q) \<Longrightarrow> dk_trace d' = dk_trace d \<Longrightarrow>
    outside_step sp rf Rest d d'"

definition may_remove :: "'x actor \<Rightarrow> bool" where
  "may_remove a = (case a of HelperRun \<Rightarrow> True | _ \<Rightarrow> False)"

definition outside_state :: "path \<Rightarrow> path \<Rightarrow> bool \<Rightarrow> fs \<Rightarrow> fs \<Rightarrow> bool" where
  "outside_state sp rf removed f0 f \<longleftrightarrow> (\<forall>q \<in> daemon_names sp rf. f q = f0 q \<or> removed \<and> q = rf \<and> f q = None)"

lemma outside_passes:
  "outside_step sp rf a d d' \<Longrightarrow> passes (outside_state sp rf (may_remove a) (dk_fs d)) d d'"
proof (induction rule: outside_step.induct)
  case (helper from_slice env ctx d oc log d1 result_vec res r log' d')
  have fs: "dk_fs d1 = dk_fs d" "dk_trace d1 = dk_trace d" using process_disk [OF helper(1)] by simp_all
  have "passes (\<lambda>f. \<forall>q \<in> daemon_names sp rf. f q = dk_fs d1 q \<or> q = cx_request_path ctx \<and> f q = None) d1 d'"
    by (rule conclude_passes [OF helper(2)]) (use helper(4,5) fs in \<open>simp_all add: is_symlink_def\<close>)
  then have "passes (outside_state sp rf True (dk_fs d)) d1 d'"
    by (rule passes_mono) (auto simp: outside_state_def fs(1) helper(3))
  then show ?case by (simp add: passes_def fs(2) may_remove_def)
next
  case (helper_killed d d' passed f)
  from passes_new [OF helper_killed.IH helper_killed.hyps(2)] helper_killed.hyps(3)
  have "outside_state sp rf True (dk_fs d) f" by (simp add: may_remove_def)
  then show ?case using helper_killed.IH by (auto simp: passes_def may_remove_def)
next
  case (rest d' d)
  then show ?case by (auto simp: outside_state_def intro: passes_same)
qed

section \<open>Steps of the system\<close>

text \<open>\<^verbatim>\<open>to_vec\<close> is how the daemon writes a request. A request of a client is served in one step, or it arrives
  (and is counted and admitted), is handled and, if it asks for an apply, decided on and written, with anything in between.
  The same holds for automatic applies and reloads.\<close>

inductive sys_step ::
  "web \<Rightarrow> string \<Rightarrow> (apply_request \<Rightarrow> string) \<Rightarrow> path \<Rightarrow> path \<Rightarrow> 'x actor \<Rightarrow> 'x sys \<Rightarrow> 'x sys \<Rightarrow> bool"
  for web base to_vec sp rf where
  client: "sv_to_vec sv = to_vec \<Longrightarrow> serve web sv base e req (c, st, d) = (r, c', st', d') \<Longrightarrow>
    sys_step web base to_vec sp rf (Client sv req) (g, c, st, d) (g, c', st', d')"
| arrives: "sv_to_vec sv = to_vec \<Longrightarrow> request_id_of web e req c = (i, c') \<Longrightarrow> find_route web base req = Some rt \<Longrightarrow>
    decision_of web sv (rt_permission rt) req st = Allowed \<Longrightarrow> wb_method web (rt_method rt) (rq_method req) \<Longrightarrow>
    caller = (case caller_name (sv_sha256 sv) (active_store st) (bearer_of web req) of
       Some n \<Rightarrow> n | None \<Rightarrow> ''loopback (no token)'') \<Longrightarrow>
    fl = \<lparr>fl_env = sv, fl_request = req, fl_route = rt, fl_caller = caller, fl_state = st\<rparr> \<Longrightarrow>
    sys_step web base to_vec sp rf (Client sv req) (g, c, st, d) (g\<lparr>th_flights := fl # th_flights g\<rparr>, c', st, d)"
| handled: "fl \<in> set (th_flights g) \<Longrightarrow>
    run_handler web (fl_env fl) (rt_handler (fl_route fl)) (Some (fl_caller fl)) (fl_request fl) (st, d) = (r, st', d') \<Longrightarrow>
    sys_step web base to_vec sp rf (Client (fl_env fl) (fl_request fl)) (g, c, st, d)
      (g\<lparr>th_flights := remove1 fl (th_flights g)\<rparr>, c, st', d')"
| decided: "fl \<in> set (th_flights g) \<Longrightarrow> sv = fl_env fl \<Longrightarrow> rt_handler (fl_route fl) = HApplyUpdates \<Longrightarrow>
    wb_query web (fl_request fl) = Inr ps \<Longrightarrow> dry_run_params ps False = Inr False \<Longrightarrow>
    request_decide (sv_io sv) (sv_apply sv) (as_config st) (fl_caller fl) (as_updates st) d = (Inr q, d') \<Longrightarrow>
    sys_step web base to_vec sp rf (Client sv (fl_request fl)) (g, c, st, d)
      (g\<lparr>th_flights := remove1 fl (th_flights g), th_writes := (ByClient sv (fl_request fl) (fl_state fl), q) # th_writes g\<rparr>, c, st, d')"
| written: "o1 = ByClient sv req st0 \<Longrightarrow> (o1, q) \<in> set (th_writes g) \<Longrightarrow>
    request_commit to_vec (sv_io sv) (as_updates st) q d = (r, d') \<Longrightarrow>
    sys_step web base to_vec sp rf (Client sv req) (g, c, st, d) (g\<lparr>th_writes := remove1 (o1, q) (th_writes g)\<rparr>, c, st, d')"
| policy: "tk_config w = as_config st \<Longrightarrow> policy_phase (w :: 'x tick_world) (th_sched g) (as_updates st, d) = (evs, s', u', d') \<Longrightarrow>
    sys_step web base to_vec sp rf Background (g, c, st, d)
      (g\<lparr>th_sched := s', th_config := as_config st\<rparr>, c, st\<lparr>as_updates := u'\<rparr>, d')"
| ingest: "tk_config w = th_config g \<Longrightarrow> tk_between (w :: 'x tick_world) = id \<Longrightarrow>
    ingest_phase se w (th_sched g) (as_updates st, d) = (evs, s', u', d') \<Longrightarrow>
    sys_step web base to_vec sp rf Background (g, c, st, d) (g\<lparr>th_sched := s'\<rparr>, c, st\<lparr>as_updates := u'\<rparr>, d')"
| check: "tk_config w = th_config g \<Longrightarrow> check_phase se (w :: 'x tick_world) (th_sched g) (as_updates st, d) = (evs, s', u', d') \<Longrightarrow>
    sys_step web base to_vec sp rf Background (g, c, st, d) (g\<lparr>th_sched := s'\<rparr>, c, st\<lparr>as_updates := u'\<rparr>, d')"
| automatic: "tk_config w = th_config g \<Longrightarrow> se_to_vec se = to_vec \<Longrightarrow>
    auto_phase se w (th_sched g) (as_updates st, d) = (evs, s', u', d') \<Longrightarrow>
    sys_step web base to_vec sp rf (Automatic w) (g, c, st, d) (g\<lparr>th_sched := s'\<rparr>, c, st\<lparr>as_updates := u'\<rparr>, d')"
| auto_decided: "tk_config w = th_config g \<Longrightarrow> auto_decide w (th_sched g) (as_updates st, d) = (Some (Inr q), d') \<Longrightarrow>
    sys_step web base to_vec sp rf (Automatic w) (g, c, st, d) (g\<lparr>th_writes := (ByScheduler w, q) # th_writes g\<rparr>, c, st, d')"
| auto_written: "(ByScheduler w, q) \<in> set (th_writes g) \<Longrightarrow> request_commit to_vec (tk_io w) (as_updates st) q d = (r, d') \<Longrightarrow>
    sys_step web base to_vec sp rf (Automatic w) (g, c, st, d)
      (g\<lparr>th_sched := (th_sched g)\<lparr>sd_last_auto := Some (tk_request w)\<rparr>, th_writes := remove1 (ByScheduler w, q) (th_writes g)\<rparr>, c, st, d')"
| reloads: "reload (toml :: string \<Rightarrow> string + 'x config) show_toml token_toml env source (st, d) = (log, st', d') \<Longrightarrow>
    sys_step web base to_vec sp rf Background (g, c, st, d) (g, c, st', d')"
| installs: "config_load (toml :: string \<Rightarrow> string + 'x config) env path d = (Inr fresh, d') \<Longrightarrow> \<not> th_reloading g \<Longrightarrow>
    sys_step web base to_vec sp rf Background (g, c, st, d) (g\<lparr>th_reloading := True\<rparr>, c, install_config fresh st, d')"
| retokens: "th_reloading g \<Longrightarrow> refresh_tokens token_toml env (st, d) = (r, d') \<Longrightarrow>
    st' = (case r of Some (log, x) \<Rightarrow> x | None \<Rightarrow> st) \<Longrightarrow>
    sys_step web base to_vec sp rf Background (g, c, st, d) (g\<lparr>th_reloading := False\<rparr>, c, st', d')"
| outside: "outside_step sp rf a d d' \<Longrightarrow> sys_step web base to_vec sp rf a (g, c, st, d) (g, c, st, d')"

inductive_cases sys_stepE: "sys_step web base to_vec sp rf a (g, c, st, d) (g', c', st', d')"

text \<open>The parts are parts: an arrival followed by its handler is what serving does to the state, installing
  followed by the tokens what a reload does.\<close>

lemma serve_in_parts:
  assumes "serve web sv base e req (c, st, d) = (r, c', st', d')" "sv_to_vec sv = to_vec"
  shows "(st' = st \<and> d' = d) \<or> (\<exists>fl. sys_step web base to_vec sp rf (Client sv req) (g, c, st, d) (g\<lparr>th_flights := fl # th_flights g\<rparr>, c', st, d) \<and>
     sys_step web base to_vec sp rf (Client sv req) (g\<lparr>th_flights := fl # th_flights g\<rparr>, c', st, d) (g, c', st', d'))"
proof -
  obtain i r' where i: "request_id_of web e req c = (i, c')" and run: "dispatch web sv base req (st, d) = (r', st', d')"
    using assms(1) by (auto simp: serve_def request_id_layer_def split: prod.splits)
  show ?thesis
  proof (cases "\<exists>rt. find_route web base req = Some rt \<and> decision_of web sv (rt_permission rt) req st = Allowed \<and>
      wb_method web (rt_method rt) (rq_method req)")
    case False
    with run show ?thesis
      by (auto simp: dispatch_def route_service_def authorize_layer_def Let_def split: option.splits if_splits)
  next
    case True
    then obtain rt where rt: "find_route web base req = Some rt" "decision_of web sv (rt_permission rt) req st = Allowed"
      "wb_method web (rt_method rt) (rq_method req)" by blast
    define fl where "fl = \<lparr>fl_env = sv, fl_request = req, fl_route = rt, fl_caller = (case caller_name (sv_sha256 sv) (active_store st)
        (bearer_of web req) of Some n \<Rightarrow> n | None \<Rightarrow> ''loopback (no token)''), fl_state = st\<rparr>"
    have f: "fl_env fl = sv" "fl_request fl = req" "fl_route fl = rt" by (simp_all add: fl_def)
    have h: "run_handler web sv (rt_handler rt) (Some (fl_caller fl)) req (st, d) = (r', st', d')"
      using run rt by (simp add: dispatch_def route_service_def authorize_layer_def fl_def)
    have "sys_step web base to_vec sp rf (Client sv req) (g, c, st, d) (g\<lparr>th_flights := fl # th_flights g\<rparr>, c', st, d)"
      using sys_step.arrives [OF assms(2) i rt refl] by (simp add: fl_def)
    moreover have "sys_step web base to_vec sp rf (Client sv req) (g\<lparr>th_flights := fl # th_flights g\<rparr>, c', st, d) (g, c', st', d')"
      using sys_step.handled [of fl "g\<lparr>th_flights := fl # th_flights g\<rparr>" web st d r' st' d' base to_vec sp rf c'] h by (simp add: f)
    ultimately show ?thesis by blast
  qed
qed

section \<open>Runs\<close>

text \<open>A run is the list of the machine's states, the latest first. It begins with a daemon that is not running and no
  request on the disk. The state file of the daemon is at \<^verbatim>\<open>sp\<close>, its requests go to \<^verbatim>\<open>rf\<close>, which is not also the name
  of the state file. The daemon may stop between two steps, or be killed in any of the states a step
  passes through; while it is down, the helper and the rest go on. A start that fails is a change by the rest.\<close>

definition starts_on :: "path \<Rightarrow> path \<Rightarrow> ('x, 'e) start_world \<Rightarrow> path option \<Rightarrow> disk \<Rightarrow> 'x running \<Rightarrow> disk \<Rightarrow> bool" where
  "starts_on sp rf w explicit d r d' \<longleftrightarrow> start w explicit d = (Some (Inr r), d') \<and>
     uc_state_file (cfg_updates (as_config (rn_state r))) = sp \<and> request_file_of (as_config (rn_state r)) = rf \<and>
     names_apart (as_config (rn_state r))"

inductive sys_run :: "web \<Rightarrow> string \<Rightarrow> (apply_request \<Rightarrow> string) \<Rightarrow> path \<Rightarrow> path \<Rightarrow> 'x machine list \<Rightarrow> bool"
  for web base to_vec sp rf where
  switched_on: "no_link sp d \<Longrightarrow> no_link rf d \<Longrightarrow> content (dk_fs d) rf = None \<Longrightarrow> sys_run web base to_vec sp rf [Down d]"
| started: "sys_run web base to_vec sp rf (Down d # past) \<Longrightarrow> starts_on sp rf (w :: ('x, string) start_world) explicit d r d' \<Longrightarrow>
    rn_base r = base \<Longrightarrow>
    sys_run web base to_vec sp rf (Up (threads_init (as_config (rn_state r)), 0, rn_state r, d') # Down d # past)"
| stepped: "sys_run web base to_vec sp rf (Up x # past) \<Longrightarrow> sys_step web base to_vec sp rf a x y \<Longrightarrow>
    sys_run web base to_vec sp rf (Up y # Up x # past)"
| stopped: "sys_run web base to_vec sp rf (Up x # past) \<Longrightarrow> sys_run web base to_vec sp rf (Down (machine_disk (Up x)) # Up x # past)"
| killed: "sys_run web base to_vec sp rf (Up x # past) \<Longrightarrow> sys_step web base to_vec sp rf a x (g', c', st', d') \<Longrightarrow>
    dk_trace d' = dk_trace (machine_disk (Up x)) @ passed \<Longrightarrow> f \<in> set passed \<Longrightarrow>
    sys_run web base to_vec sp rf (Down (d'\<lparr>dk_fs := f\<rparr>) # Up x # past)"
| meanwhile: "sys_run web base to_vec sp rf (Down d # past) \<Longrightarrow> outside_step sp rf (a :: 'x actor) d d' \<Longrightarrow>
    sys_run web base to_vec sp rf (Down d' # Down d # past)"

section \<open>Effects of the steps\<close>

text \<open>What the daemon's own data must satisfy for a step to be good, and what a good step does: in all
  states it passes through, the request file is the old one, is gone where the helper may remove it, or holds a new
  request of one of those it may come from (\<^verbatim>\<open>who\<close>).\<close>

definition ready :: "path \<Rightarrow> path \<Rightarrow> shared \<Rightarrow> bool" where
  "ready sp rf = (\<lambda>(u, d). available_valid u \<and> ust_request_file u = rf \<and> store_ready sp (u, d) \<and> no_link rf d)"

definition step_state :: "(apply_request \<Rightarrow> string) \<Rightarrow> path \<Rightarrow> path \<Rightarrow> (string \<Rightarrow> bool) \<Rightarrow> bool \<Rightarrow> fs \<Rightarrow> fs \<Rightarrow> bool" where
  "step_state to_vec sp rf who removed f0 f \<longleftrightarrow> \<not> is_symlink f (tmp_path sp) \<and> \<not> is_symlink f (tmp_path rf) \<and>
     (f rf = f0 rf \<or> removed \<and> f rf = None \<or> (\<exists>caller. who caller \<and> request_in to_vec rf caller f))"

definition step_ok :: "(apply_request \<Rightarrow> string) \<Rightarrow> path \<Rightarrow> path \<Rightarrow> (string \<Rightarrow> bool) \<Rightarrow> bool \<Rightarrow> shared \<Rightarrow> shared \<Rightarrow> bool" where
  "step_ok to_vec sp rf who removed = (\<lambda>(u, d) (u', d').
     available_valid u' \<and> ust_request_file u' = rf \<and> us_path (ust_store u') \<in> {None, Some sp} \<and>
     passes (step_state to_vec sp rf who removed (dk_fs d)) d d')"

lemma step_ok_reads:
  assumes "ready sp rf (u, d)" "dk_fs d' = dk_fs d" "dk_trace d' = dk_trace d"
  shows "step_ok to_vec sp rf who removed (u, d) (u, d')" "ready sp rf (u, d')"
  using assms
  by (auto simp: step_ok_def ready_def store_ready_def step_state_def no_link_def intro: passes_same)

lemma step_ok_after: "step_ok to_vec sp rf who removed (u, d1) x \<Longrightarrow> dk_fs d1 = dk_fs d \<Longrightarrow> dk_trace d1 = dk_trace d \<Longrightarrow>
   step_ok to_vec sp rf who removed (u, d) x"
  by (auto simp: step_ok_def passes_def)

context store_client begin

lemma act_step_ok:
  assumes "ready sp rf x" "separate sp rf"
  shows "step_ok to_vec sp rf who removed x (act x)"
proof -
  obtain u d u' d' where x: "x = (u, d)" "act x = (u', d')" by (metis prod.exhaust)
  have r: "store_ready sp x" and nl: "\<not> is_symlink (dk_fs d) (tmp_path rf)" using assms(1) by (simp_all add: x ready_def no_link_def)
  have "passes (store_state sp (dk_fs d)) d d'" using act_passes [OF r] x(2) by (simp add: x(1))
  then have "passes (step_state to_vec sp rf who removed (dk_fs d)) d d'"
    by (rule passes_mono) (use assms(2) nl in \<open>auto simp: store_state_def step_state_def separate_def is_symlink_def\<close>)
  then show ?thesis
    using assms(1) act_path [of x] act_request_file [of x] act_valid [of x] x(2) by (simp add: x(1) step_ok_def ready_def store_ready_def)
qed

end

lemma commit_step_ok:
  assumes "ready sp rf (u, d)" "separate sp rf" "request_commit to_vec env u q d = (r, d')"
    and "proper_request q" "who (ar_requested_by q)"
  shows "step_ok to_vec sp rf who removed (u, d) (u, d')"
proof -
  have rf: "ust_request_file u = rf" "no_link rf d" "\<not> is_symlink (dk_fs d) (tmp_path sp)"
    using assms(1) by (simp_all add: ready_def store_ready_def no_link_def)
  have "tmp_path sp \<notin> insert rf (insert (tmp_path rf) (parent_dirs rf))"
    using assms(2) by (simp add: separate_def request_paths_def)
  then have "write_state rf (to_vec q) (dk_fs d) f \<Longrightarrow> step_state to_vec sp rf who removed (dk_fs d) f" for f
    using assms(4,5) rf(3) by (auto simp: write_state_def step_state_def request_in_def is_symlink_def)
  with request_commit_passes [OF assms(3)] rf have "passes (step_state to_vec sp rf who removed (dk_fs d)) d d'"
    using passes_mono by (metis (mono_tags, lifting))
  then show ?thesis using assms(1) by (simp add: step_ok_def ready_def store_ready_def)
qed

lemma request_step_ok:
  assumes "ready sp rf (u, d)" "separate sp rf" "request_apply to_vec env w cfg caller dry u d = (r, d')" "who caller"
  shows "step_ok to_vec sp rf who removed (u, d) (u, d')"
  using assms(3)
proof (cases rule: request_apply_split)
  case none
  then show ?thesis using step_ok_reads(1) [OF assms(1)] by simp
next
  case (made q d1 r')
  have "available_valid u" using assms(1) by (simp add: ready_def)
  note q = request_decide_proper [OF made(1) this]
  show ?thesis
    using commit_step_ok [OF step_ok_reads(2) [OF assms(1) q(3,4)] assms(2) made(2) q(1)] q(2) assms(4) step_ok_after [OF _ q(3,4)]
    by simp
qed

lemma handler_step_ok:
  assumes "ready sp rf (as_updates st, d)" "separate sp rf"
    and "run_handler web sv h (Some caller) req (st, d) = (r, st', d')" "h = HApplyUpdates \<Longrightarrow> who caller"
  shows "step_ok (sv_to_vec sv) sp rf who removed (as_updates st, d) (as_updates st', d')"
  using assms(3)
proof (cases rule: run_handler_effect)
  case same
  then show ?thesis using step_ok_reads(1) [OF assms(1)] by simp
next
  case answer
  from answer.act_step_ok [OF assms(1,2)] show ?thesis unfolding answer by simp
next
  case (request dry q)
  from request_step_ok [where who = who, OF assms(1,2) request(3) assms(4) [OF request(1)]] request(2) show ?thesis by simp
qed

lemma apply_route_author:
  assumes "find_route web base req = Some rt" "rt_handler rt = HApplyUpdates" "decision_of web sv (rt_permission rt) req st = Allowed"
    and "caller = (case caller_name (sv_sha256 sv) (active_store st) (bearer_of web req) of
         Some n \<Rightarrow> n | None \<Rightarrow> ''loopback (no token)'')"
  shows "authorised_author web sv req st = Some caller"
proof -
  have "rt_permission rt = ManageUpdates" using find_route_in [OF assms(1)] assms(2) by (auto simp: routes_def)
  then show ?thesis using manage_author assms(3,4) by metis
qed

lemma client_step_ok:
  assumes x: "ready sp rf (as_updates st, d)" "separate sp rf"
    and run: "serve web sv base e req (c, st, d) = (r, c', st', d')"
    and who: "\<And>caller. authorised_author web sv req st = Some caller \<Longrightarrow> who caller"
  shows "step_ok (sv_to_vec sv) sp rf who removed (as_updates st, d) (as_updates st', d')"
proof -
  obtain r' where "dispatch web sv base req (st, d) = (r', st', d')"
    using run by (auto simp: serve_def request_id_layer_def split: prod.splits)
  then show ?thesis
  proof (cases rule: dispatch_effect)
    case same
    then show ?thesis using step_ok_reads(1) [OF x(1)] by simp
  next
    case (handled rt caller)
    show ?thesis
      by (rule handler_step_ok [OF x handled(4)]) (use who apply_route_author [OF handled(1) _ handled(2,3)] in blast)
  qed
qed

lemma auto_decide_effect:
  assumes "auto_decide w s (u, d) = (x, d')" "available_valid u"
  shows "dk_fs d' = dk_fs d" "dk_trace d' = dk_trace d"
    "x = Some (Inr q) \<Longrightarrow> proper_request q \<and> ar_requested_by q = AUTOMATIC \<and>
       pm_installs_permitted (permissions_at (tk_config w) (tk_local_time w))"
proof -
  obtain p d1 where p: "apply_inputs (tk_io w) u d = (p, d1)" by fastforce
  have d1: "dk_fs d1 = dk_fs d" "dk_trace d1 = dk_trace d" using p by (auto simp: apply_inputs_def apply_pending_def lstat_ok_def)
  obtain y d2 where y: "request_decide (tk_io w) (tk_apply w) (tk_config w) AUTOMATIC u d1 = (y, d2)" by fastforce
  have "d2 = snd (apply_pending (tk_io w) u d1)" using y by (auto simp: request_decide_def Let_def split: prod.splits option.splits)
  then have d2: "dk_fs d2 = dk_fs d" "dk_trace d2 = dk_trace d" using d1 by (simp_all add: apply_pending_disk)
  show "dk_fs d' = dk_fs d" "dk_trace d' = dk_trace d"
    using assms(1) p y d1 d2 by (auto simp: auto_decide_def split: prod.splits if_splits)
  assume "x = Some (Inr q)"
  then have "y = Inr q" "pm_installs_permitted (permissions_at (tk_config w) (tk_local_time w))"
    using assms(1) p y by (auto simp: auto_decide_def should_auto_apply_def split: prod.splits if_splits)
  with request_decide_proper [OF _ assms(2)] y show "proper_request q \<and> ar_requested_by q = AUTOMATIC \<and>
       pm_installs_permitted (permissions_at (tk_config w) (tk_local_time w))" by blast
qed

lemma auto_step_ok:
  assumes x: "ready sp rf (u, d)" "separate sp rf" and run: "auto_phase se w s (u, d) = (evs, s', u', d')"
    and who: "pm_installs_permitted (permissions_at (tk_config w) (tk_local_time w)) \<Longrightarrow> who AUTOMATIC"
  shows "step_ok (se_to_vec se) sp rf who removed (u, d) (u', d')"
proof -
  obtain y d1 where y: "auto_decide w s (u, d) = (y, d1)" by fastforce
  have "available_valid u" using x(1) by (simp add: ready_def)
  note e = auto_decide_effect [OF y this]
  note r = step_ok_reads [OF x(1) e(1,2)]
  show ?thesis
  proof (cases "\<exists>q. y = Some (Inr q)")
    case False
    then have "u' = u \<and> d' = d1" using run y by (auto simp: auto_phase_parts split: option.splits sum.splits)
    with r(1) show ?thesis by simp
  next
    case True
    then obtain q where q: "y = Some (Inr q)" by blast
    then obtain z where z: "request_commit (se_to_vec se) (tk_io w) u q d1 = (z, d')" "u' = u"
      using run y by (auto simp: auto_phase_parts split: prod.splits)
    have "step_ok (se_to_vec se) sp rf who removed (u, d1) (u, d')"
      by (rule commit_step_ok [OF r(2) x(2) z(1)]) (use e(3) [OF q] who in auto)
    from step_ok_after [OF this e(1,2)] z(2) show ?thesis by simp
  qed
qed

section \<open>Who may have asked\<close>

text \<open>\<^verbatim>\<open>ms\<close> are the states of the run so far. A client's token must have allowed the request in one of them, the scheduler
  must have had its configuration in one of them.\<close>

fun origin_ok :: "web \<Rightarrow> 'x machine set \<Rightarrow> 'x origin \<Rightarrow> string \<Rightarrow> bool" where
  "origin_ok web ms (ByClient sv req st0) n \<longleftrightarrow> (\<exists>g c d. Up (g, c, st0, d) \<in> ms) \<and> authorised_author web sv req st0 = Some n"
| "origin_ok web ms (ByScheduler w) n \<longleftrightarrow> n = AUTOMATIC \<and> pm_installs_permitted (permissions_at (tk_config w) (tk_local_time w)) \<and>
     (\<exists>g c st d. Up (g, c, st, d) \<in> ms \<and> th_config g = tk_config w)"

fun author_ok :: "web \<Rightarrow> 'x machine set \<Rightarrow> 'x actor \<Rightarrow> string \<Rightarrow> bool" where
  "author_ok web ms (Client sv req) n \<longleftrightarrow> (\<exists>st0. origin_ok web ms (ByClient sv req st0) n)"
| "author_ok web ms (Automatic w) n \<longleftrightarrow> origin_ok web ms (ByScheduler w) n"
| "author_ok web ms _ n \<longleftrightarrow> False"

definition threads_ok :: "web \<Rightarrow> (apply_request \<Rightarrow> string) \<Rightarrow> 'x machine set \<Rightarrow> 'x threads \<Rightarrow> bool" where
  "threads_ok web to_vec ms g \<longleftrightarrow>
     (\<forall>fl \<in> set (th_flights g). sv_to_vec (fl_env fl) = to_vec \<and> (\<exists>g c d. Up (g, c, fl_state fl, d) \<in> ms) \<and>
        (rt_handler (fl_route fl) = HApplyUpdates \<longrightarrow> authorised_author web (fl_env fl) (fl_request fl) (fl_state fl) = Some (fl_caller fl))) \<and>
     (\<forall>(o1, q) \<in> set (th_writes g). proper_request q \<and> origin_ok web ms o1 (ar_requested_by q))"

lemma origin_ok_mono: "origin_ok web ms o1 n \<Longrightarrow> ms \<subseteq> ms' \<Longrightarrow> origin_ok web ms' o1 n"
  by (cases o1; simp) blast+

lemma threads_ok_mono: "threads_ok web to_vec ms g \<Longrightarrow> ms \<subseteq> ms' \<Longrightarrow> threads_ok web to_vec ms' g"
  unfolding threads_ok_def using origin_ok_mono by fastforce

lemma threads_ok_fields: "th_flights g' = th_flights g \<Longrightarrow> th_writes g' = th_writes g \<Longrightarrow> threads_ok web to_vec ms g' = threads_ok web to_vec ms g"
  by (simp add: threads_ok_def)

lemma threads_ok_less:
  "threads_ok web to_vec ms g \<Longrightarrow> set (th_flights g') \<subseteq> set (th_flights g) \<Longrightarrow> set (th_writes g') \<subseteq> set (th_writes g) \<Longrightarrow>
   threads_ok web to_vec ms g'"
  unfolding threads_ok_def by blast

lemma retokens_frame:
  assumes "refresh_tokens toml env (st, d) = (r, d')" "st' = (case r of Some (log, x) \<Rightarrow> x | None \<Rightarrow> st)"
  shows "as_updates st' = as_updates st" "as_config st' = as_config st" "as_level st' = as_level st"
proof -
  have "st' = st \<or> (\<exists>l. r = Some (l, st'))" using assms(2) by (auto split: option.splits)
  with refresh_tokens_frame [OF assms(1)]
  show "as_updates st' = as_updates st" "as_config st' = as_config st" "as_level st' = as_level st" by blast+
qed

lemma sys_step_ok:
  assumes step: "sys_step web base to_vec sp rf a (g, c, st, d) (g', c', st', d')"
    and x: "ready sp rf (as_updates st, d)" "separate sp rf"
    and g: "threads_ok web to_vec ms g" "Up (g, c, st, d) \<in> ms"
  shows "step_ok to_vec sp rf (author_ok web ms a) (may_remove a) (as_updates st, d) (as_updates st', d') \<and> threads_ok web to_vec ms g'"
proof (cases rule: sys_stepE [OF step])
  case (1 sv e req r)
  have "step_ok (sv_to_vec sv) sp rf (author_ok web ms a) (may_remove a) (as_updates st, d) (as_updates st', d')"
    by (rule client_step_ok [OF x 1(4)]) (use g(2) 1(1) in auto)
  with g 1 show ?thesis by simp
next
  case (2 sv e req i rt)
  have "authorised_author web sv req st = Some (case caller_name (sv_sha256 sv) (active_store st) (bearer_of web req) of
       Some n \<Rightarrow> n | None \<Rightarrow> ''loopback (no token)'')" if "rt_handler rt = HApplyUpdates"
    by (rule apply_route_author [OF 2(4) that 2(5) refl])
  then have "threads_ok web to_vec ms g'" using g 2(2,7) by (fastforce simp: threads_ok_def)
  with step_ok_reads(1) [OF x(1) refl refl] 2(8,9) show ?thesis by simp
next
  case (3 fl r)
  have f: "sv_to_vec (fl_env fl) = to_vec" "\<exists>g c d. Up (g, c, fl_state fl, d) \<in> ms"
    "rt_handler (fl_route fl) = HApplyUpdates \<Longrightarrow> authorised_author web (fl_env fl) (fl_request fl) (fl_state fl) = Some (fl_caller fl)"
    using g(1) 3(2) by (auto simp: threads_ok_def)
  have "step_ok (sv_to_vec (fl_env fl)) sp rf (author_ok web ms a) (may_remove a) (as_updates st, d) (as_updates st', d')"
    by (rule handler_step_ok [OF x 3(3)]) (use f(2,3) 3(1) in auto)
  moreover have "threads_ok web to_vec ms g'" by (rule threads_ok_less [OF g(1)]) (simp_all add: 3(4) set_remove1_subset)
  ultimately show ?thesis using f(1) by simp
next
  case (4 fl ps q)
  have f: "\<exists>g c d. Up (g, c, fl_state fl, d) \<in> ms"
    "authorised_author web (fl_env fl) (fl_request fl) (fl_state fl) = Some (fl_caller fl)"
    using g(1) 4(2,3) by (auto simp: threads_ok_def)
  have "available_valid (as_updates st)" using x(1) by (simp add: ready_def)
  note q = request_decide_proper [OF 4(6) this]
  have "threads_ok web to_vec ms (g\<lparr>th_flights := remove1 fl (th_flights g)\<rparr>)"
    by (rule threads_ok_less [OF g(1)]) (simp_all add: set_remove1_subset)
  then have "threads_ok web to_vec ms g'" using f q(1,2) 4(7) by (auto simp: threads_ok_def)
  with step_ok_reads(1) [OF x(1) q(3,4)] 4(9) show ?thesis by simp
next
  case (5 sv req st0 q r)
  have q: "proper_request q" "origin_ok web ms (ByClient sv req st0) (ar_requested_by q)" using g(1) 5(2) by (auto simp: threads_ok_def)
  have "step_ok to_vec sp rf (author_ok web ms a) (may_remove a) (as_updates st, d) (as_updates st, d')"
    by (rule commit_step_ok [OF x 5(3) q(1)]) (use q(2) 5(1) in auto)
  moreover have "threads_ok web to_vec ms g'" by (rule threads_ok_less [OF g(1)]) (simp_all add: 5(4) set_remove1_subset)
  ultimately show ?thesis using 5(6) by simp
next
  case (6 w evs s' u')
  from 6(3) have "(u', d') = (set_schedule (schedule_info_of (permissions_at (tk_config w) (tk_local_time w))
      (check_interval (tk_config w))) (as_updates st), d)"
    by (auto simp: policy_phase_def Let_def)
  with schedule.act_step_ok [OF x] 6(4,6) threads_ok_fields [of g' g web to_vec ms] g(1) show ?thesis by simp
next
  case (7 w se evs s' u')
  from 7(3,4) have "(u', d') = snd (ingest_apply_result (se_ser se) (se_from_slice se) id (tk_io w)
      (uc_channel (cfg_updates (tk_config w))) (as_updates st, d))"
    by (auto simp: ingest_phase_def split: prod.splits if_splits)
  with intake.act_step_ok [OF x] 7(5,7) threads_ok_fields [of g' g web to_vec ms] g(1) show ?thesis by simp
next
  case (8 w se evs s' u')
  from 8(3) have "(u', d') = (as_updates st, d) \<or> (u', d') = snd (refresh (se_ser se) (tk_io w) (tk_run w) (tk_now w)
      (uc_channel (cfg_updates (tk_config w))) (as_updates st, d))"
    by (auto simp: check_phase_def split: prod.splits if_splits)
  with check.act_step_ok [OF x] step_ok_reads(1) [OF x(1) refl refl] 8(4,6) threads_ok_fields [of g' g web to_vec ms] g(1) show ?thesis by auto
next
  case (9 w se evs s' u')
  have "step_ok (se_to_vec se) sp rf (author_ok web ms a) (may_remove a) (as_updates st, d) (u', d')"
    by (rule auto_step_ok [OF x 9(4)]) (use g(2) 9(1,2) in auto)
  with 9(3,5,7) threads_ok_fields [of g' g web to_vec ms] g(1) show ?thesis by simp
next
  case (10 w q)
  have "available_valid (as_updates st)" using x(1) by (simp add: ready_def)
  note e = auto_decide_effect [OF 10(3) this]
  have "origin_ok web ms (ByScheduler w) (ar_requested_by q)" using e(3) [OF refl] g(2) 10(2) by auto
  then have "threads_ok web to_vec ms g'" using e(3) [OF refl] g(1) 10(4) by (auto simp: threads_ok_def)
  with step_ok_reads(1) [OF x(1) e(1,2)] 10(6) show ?thesis by simp
next
  case (11 w q r)
  have q: "proper_request q" "origin_ok web ms (ByScheduler w) (ar_requested_by q)" using g(1) 11(2) by (auto simp: threads_ok_def)
  have "step_ok to_vec sp rf (author_ok web ms a) (may_remove a) (as_updates st, d) (as_updates st, d')"
    by (rule commit_step_ok [OF x 11(3) q(1)]) (use q(2) 11(1) in auto)
  moreover have "threads_ok web to_vec ms g'" by (rule threads_ok_less [OF g(1)]) (simp_all add: 11(4) set_remove1_subset)
  ultimately show ?thesis using 11(6) by simp
next
  case (12 toml show_toml token_toml env source log)
  from reload_frame [OF 12(2)] have f: "as_updates st' = as_updates st" "dk_fs d' = dk_fs d" "dk_trace d' = dk_trace d" by simp_all
  show ?thesis using step_ok_reads(1) [OF x(1) f(2,3)] g(1) by (simp add: f(1) 12(3))
next
  case (13 toml env path fresh)
  note f = config_load_disk [OF 13(2)] config_load_trace [OF 13(2)]
  have "threads_ok web to_vec ms g'" by (rule threads_ok_less [OF g(1)]) (simp_all add: 13(4))
  moreover have "as_updates st' = as_updates st" by (simp add: 13(6))
  ultimately show ?thesis using step_ok_reads(1) [OF x(1) f] by simp
next
  case (14 token_toml env r)
  have "as_updates st' = as_updates st" by (rule retokens_frame [OF 14(3,6)])
  moreover have "dk_fs d' = dk_fs d" "dk_trace d' = dk_trace d" using refresh_tokens_frame [OF 14(3)] by simp_all
  moreover have "threads_ok web to_vec ms g'" by (rule threads_ok_less [OF g(1)]) (simp_all add: 14(4))
  ultimately show ?thesis using step_ok_reads(1) [OF x(1)] by simp
next
  case 15
  have "outside_state sp rf (may_remove a) (dk_fs d) f \<Longrightarrow> step_state to_vec sp rf who (may_remove a) (dk_fs d) f" for who f
    using x(1) by (fastforce simp: outside_state_def step_state_def daemon_names_def ready_def store_ready_def no_link_def is_symlink_def)
  from passes_mono [OF outside_passes [OF 15(1)] this]
  have "passes (step_state to_vec sp rf (author_ok web ms a) (may_remove a) (dk_fs d)) d d'" .
  with x(1) 15(2-4) g(1) show ?thesis by (simp add: step_ok_def ready_def store_ready_def)
qed

section \<open>The invariant\<close>

definition disk_ok :: "(apply_request \<Rightarrow> string) \<Rightarrow> path \<Rightarrow> path \<Rightarrow> fs \<Rightarrow> bool" where
  "disk_ok to_vec sp rf f \<longleftrightarrow> \<not> is_symlink f (tmp_path sp) \<and> \<not> is_symlink f (tmp_path rf) \<and>
     (content f rf \<noteq> None \<longrightarrow> (\<exists>caller. request_in to_vec rf caller f))"

fun machine_ok :: "web \<Rightarrow> (apply_request \<Rightarrow> string) \<Rightarrow> path \<Rightarrow> path \<Rightarrow> 'x machine set \<Rightarrow> 'x machine \<Rightarrow> bool" where
  "machine_ok web to_vec sp rf ms (Up (g, c, st, d)) \<longleftrightarrow>
     ready sp rf (as_updates st, d) \<and> separate sp rf \<and> threads_ok web to_vec ms g \<and> disk_ok to_vec sp rf (dk_fs d)"
| "machine_ok web to_vec sp rf ms (Down d) \<longleftrightarrow> disk_ok to_vec sp rf (dk_fs d)"

lemma step_state_disk: "disk_ok to_vec sp rf f0 \<Longrightarrow> step_state to_vec sp rf who removed f0 f \<Longrightarrow> disk_ok to_vec sp rf f"
  by (auto simp: disk_ok_def step_state_def content_def request_in_def)

lemma starts_on_separate: "starts_on sp rf w explicit d r d' \<Longrightarrow> separate sp rf"
  using names_apart_separate(1) by (auto simp: starts_on_def)

lemma starts_on_frame:
  assumes "starts_on sp rf w explicit d r d'" "q \<in> {rf, tmp_path rf, tmp_path sp}"
  shows "dk_fs d' q = dk_fs d q"
proof (rule start_effect(4))
  show "start w explicit d = (Some (Inr r), d')" using assms(1) by (simp add: starts_on_def)
  show "q \<notin> {uc_state_file (cfg_updates (as_config (rn_state r))), uc_state_file (cfg_updates (as_config (rn_state r))) @ ''.corrupt''}"
    using assms names_apart_separate(2) [of "as_config (rn_state r)" rf sp] by (auto simp: starts_on_def)
qed (rule refl)+

lemma starts_on_ok:
  assumes "starts_on sp rf w explicit d r d'" "disk_ok to_vec sp rf (dk_fs d)"
  shows "machine_ok web to_vec sp rf ms (Up (threads_init cfg, n, rn_state r, d'))"
proof -
  have fs: "dk_fs d' rf = dk_fs d rf" "dk_fs d' (tmp_path rf) = dk_fs d (tmp_path rf)" "dk_fs d' (tmp_path sp) = dk_fs d (tmp_path sp)"
    using starts_on_frame [OF assms(1)] by simp_all
  then have "disk_ok to_vec sp rf (dk_fs d')" using assms(2) by (simp add: disk_ok_def is_symlink_def content_def request_in_def)
  moreover obtain store resf where "as_updates (rn_state r) = updates_host store rf resf" "us_path store \<in> {None, Some sp}"
    using start_effect(3) [of w explicit d r d' "as_config (rn_state r)" sp] assms(1) unfolding starts_on_def by blast
  ultimately show ?thesis using starts_on_separate [OF assms(1)]
    by (auto simp: ready_def disk_ok_def updates_host_def updates_state_new_def available_valid_def
        store_ready_def host_new_def no_link_def threads_ok_def threads_init_def)
qed

lemma sys_run_ok:
  assumes "sys_run web base to_vec sp rf ms"
  shows "machine_ok web to_vec sp rf (set ms) (hd ms)"
  using assms
proof (induction rule: sys_run.induct)
  case (switched_on d)
  then show ?case by (simp add: disk_ok_def no_link_def)
next
  case (started d past w explicit r d')
  then show ?case using starts_on_ok by simp
next
  case (stepped x past a y)
  obtain g c st d g' c' st' d' where xy: "x = (g, c, st, d)" "y = (g', c', st', d')" by (metis prod.exhaust)
  let ?ms = "set (Up x # past)"
  have i: "ready sp rf (as_updates st, d)" "separate sp rf" "threads_ok web to_vec ?ms g" "disk_ok to_vec sp rf (dk_fs d)"
    using stepped.IH by (simp_all add: xy)
  have s: "step_ok to_vec sp rf (author_ok web ?ms a) (may_remove a) (as_updates st, d) (as_updates st', d')"
    "threads_ok web to_vec ?ms g'"
    using sys_step_ok [OF stepped.hyps(2) [unfolded xy] i(1-3)] by (simp_all add: xy)
  have p: "step_state to_vec sp rf (author_ok web ?ms a) (may_remove a) (dk_fs d) (dk_fs d')"
    using s(1) passes_last by (auto simp: step_ok_def)
  moreover have "threads_ok web to_vec (set (Up y # Up x # past)) g'" by (rule threads_ok_mono [OF s(2)]) auto
  ultimately show ?case using s(1) i(2) step_state_disk [OF i(4) p]
    by (simp add: xy step_ok_def ready_def store_ready_def step_state_def no_link_def)
next
  case (stopped x past)
  then show ?case by (cases x) auto
next
  case (killed x past a g' c' st' d' passed f)
  obtain g c st d where x: "x = (g, c, st, d)" by (metis prod.exhaust)
  have i: "ready sp rf (as_updates st, d)" "separate sp rf" "threads_ok web to_vec (set (Up x # past)) g" "disk_ok to_vec sp rf (dk_fs d)"
    using killed.IH by (simp_all add: x)
  have "passes (step_state to_vec sp rf (author_ok web (set (Up x # past)) a) (may_remove a) (dk_fs d)) d d'"
    using sys_step_ok [OF killed.hyps(2) [unfolded x] i(1-3)] by (simp add: x step_ok_def)
  from passes_new [OF this, of passed f] killed.hyps(3,4) step_state_disk [OF i(4)] show ?case by (simp add: x)
next
  case (meanwhile d past a d')
  have "step_state to_vec sp rf (\<lambda>_. False) (may_remove a) (dk_fs d) (dk_fs d')"
    using meanwhile.IH passes_last [OF outside_passes [OF meanwhile.hyps(2)]]
    by (auto simp: outside_state_def step_state_def daemon_names_def disk_ok_def is_symlink_def)
  with meanwhile.IH step_state_disk show ?case by fastforce
qed

section \<open>The configuration in force\<close>

text \<open>Every text the daemon reads later has the shape its reader expects.\<close>

definition config_typed :: "'x config \<Rightarrow> bool" where
  "config_typed c \<longleftrightarrow>
     (\<exists>n. parse_duration (uc_check_interval (cfg_updates c)) = Inr n \<and> check_interval c = from_secs n) \<and>
     (\<forall>w \<in> set (mc_windows (cfg_maintenance c)). \<exists>a b. parse_clock (mw_start w) = Inr a \<and> parse_clock (mw_end w) = Inr b \<and>
        a < b \<and> b < 1440) \<and>
     is_absolute (uc_state_file (cfg_updates c)) \<and> is_absolute (uc_apply_result_file (cfg_updates c)) \<and>
     parse_socket_addr (rc_listen_addr (cfg_remote c)) \<noteq> None \<and> prefix ''/'' (ac_base_path (cfg_api c))"

lemma valid_config_typed: "validate c = Inr () \<Longrightarrow> config_typed c"
  using validate_okD [of c] by (fastforce simp: config_typed_def window_ok_def check_interval_def dest: parse_clock_less)

text \<open>The configurations are valid and the level in force is the level of the one in force.\<close>

fun config_sound :: "'x machine \<Rightarrow> bool" where
  "config_sound (Up (g, c, st, d)) \<longleftrightarrow> validate (as_config st) = Inr () \<and> validate (th_config g) = Inr () \<and>
     as_level st = lc_level (cfg_logging (as_config st))"
| "config_sound (Down d) \<longleftrightarrow> True"

lemma reload_config_sound:
  assumes "reload toml show_toml token_toml env source (st, d) = (log, st', d')"
    and "validate (as_config st) = Inr ()" "as_level st = lc_level (cfg_logging (as_config st))"
  shows "validate (as_config st') = Inr () \<and> as_level st' = lc_level (cfg_logging (as_config st'))"
proof (cases source)
  case (FileSource path)
  obtain c d1 where c: "config_load toml env path d = (c, d1)" by fastforce
  show ?thesis
  proof (cases c)
    case (Inr fresh)
    obtain r d2 where r: "refresh_tokens token_toml env (install_config fresh st, d1) = (r, d2)" by fastforce
    have run: "apply_reload token_toml env fresh (st, d1) = (log, st', d')"
      using assms(1) FileSource c Inr by (simp add: reload_def)
    from r show ?thesis
      by (cases rule: refresh_tokens_cases)
        (use run config_load_valid [of toml env path d fresh d1] c Inr assms(3) in
          \<open>auto simp: apply_reload_def Let_def r\<close>)
  qed (use assms FileSource c in \<open>auto simp: reload_def\<close>)
qed (use assms in \<open>auto simp: reload_def\<close>)

lemma serve_config:
  assumes "serve web sv base e req (c, st, d) = (r, c', st', d')"
  shows "as_config st' = as_config st \<and> as_level st' = as_level st"
proof -
  obtain r' where "dispatch web sv base req (st, d) = (r', st', d')"
    using assms by (auto simp: serve_def request_id_layer_def split: prod.splits)
  then show ?thesis
  proof (cases rule: dispatch_effect)
    case (handled rt caller)
    from handled(4) show ?thesis by (cases rule: run_handler_effect) simp_all
  qed simp
qed

lemma sys_step_config:
  assumes "sys_step web base to_vec sp rf a x y" "config_sound (Up x)"
  shows "config_sound (Up y)"
  using assms
proof (induction rule: sys_step.induct)
  case (client sv e req c st d r c' st' d' g)
  then show ?case using serve_config [OF client(2)] by simp
next
  case (handled fl g st d r st' d' c)
  from handled(2) have "as_config st' = as_config st \<and> as_level st' = as_level st"
    by (cases rule: run_handler_effect) simp_all
  with handled show ?case by simp
next
  case (reloads toml show_toml token_toml env source st d log st' d' g c)
  then show ?case using reload_config_sound [OF reloads(1)] by simp
next
  case (installs toml env path d fresh d' g c st)
  have v: "validate fresh = Inr ()" by (rule config_load_valid [OF installs(1)])
  from installs.prems have "as_level (install_config fresh st) = lc_level (cfg_logging fresh)" by (intro install_config_simps) simp
  with v installs.prems show ?case by simp
next
  case (retokens g token_toml env st d r d' st' c)
  from retokens_frame [OF retokens(2,3)] retokens.prems show ?case by simp
next
  case arrives
  from arrives.prems show ?case by simp
next
  case decided
  from decided.prems show ?case by simp
next
  case written
  from written.prems show ?case by simp
next
  case policy
  from policy.prems show ?case by simp
next
  case ingest
  from ingest.prems show ?case by simp
next
  case check
  from check.prems show ?case by simp
next
  case automatic
  from automatic.prems show ?case by simp
next
  case auto_decided
  from auto_decided.prems show ?case by simp
next
  case auto_written
  from auto_written.prems show ?case by simp
next
  case outside
  from outside.prems show ?case by simp
qed

lemma sys_run_config: "sys_run web base to_vec sp rf ms \<Longrightarrow> config_sound (hd ms)"
proof (induction rule: sys_run.induct)
  case (started d past w explicit r d')
  then show ?case using start_effect(1,2) [of w explicit d r d'] by (simp add: starts_on_def threads_init_def)
next
  case (stepped x past a y)
  from sys_step_config [OF stepped.hyps(2)] stepped.IH show ?case by simp
qed simp_all

section \<open>Properties\<close>

text \<open>C6. The request file over whole runs. However clients, scheduler, reloads, helper and the rest of the
  system interleave, whatever fails and whenever the daemon or the helper is killed and started again: what is in the request
  file is at all times a complete request the daemon wrote, with a valid id and a non-empty, sorted, duplicate-free list of valid
  package names; and everything a running daemon lists as available has a valid name.\<close>

theorem system_request_valid:
  assumes "sys_run web base to_vec sp rf (m # past)"
  shows "(\<forall>bs. content (dk_fs (machine_disk m)) rf = Some bs \<longrightarrow> (\<exists>q. bs = to_vec q \<and> proper_request q)) \<and>
     (\<forall>g c st d. m = Up (g, c, st, d) \<longrightarrow> (\<forall>a \<in> set (ust_available (as_updates st)). valid_package_name (au_component a)))"
proof (cases m)
  case (Up x)
  then show ?thesis using sys_run_ok [OF assms]
    by (cases x) (fastforce simp: disk_ok_def request_in_def ready_def available_valid_def)
next
  case (Down d)
  then show ?thesis using sys_run_ok [OF assms] by (fastforce simp: disk_ok_def request_in_def)
qed

text \<open>C3. Nobody else makes the root helper act. In any run, a step that changes the request file, in any of the
  states the step passes through, is the helper removing it, or it writes a request in the name of an author: the
  token of a client on the same machine that named \<^verbatim>\<open>manage:updates\<close> in a state of this run, while authentication was
  required, or the scheduler, when the configuration it had copied in this run asks for automatic updates and the maintenance window is open.\<close>

theorem system_requests_authorised:
  assumes "sys_run web base to_vec sp rf (Up (g, c, st, d) # past)"
    and "sys_step web base to_vec sp rf a (g, c, st, d) (g', c', st', d')"
    and "dk_trace d' = dk_trace d @ passed" "f \<in> set (dk_fs d' # passed)" "f rf \<noteq> dk_fs d rf"
  shows "(a = HelperRun \<and> f rf = None) \<or>
     (\<exists>author g0 c0 st0 d0. request_in to_vec rf author f \<and> Up (g0, c0, st0, d0) \<in> set (Up (g, c, st, d) # past) \<and>
        ((\<exists>sv req. a = Client sv req \<and> authorised_author web sv req st0 = Some author \<and>
            sec_require_authentication (cfg_security (as_config st0))) \<or>
         (\<exists>w. a = Automatic w \<and> author = AUTOMATIC \<and> tk_config w = th_config g0 \<and> uc_automatic (cfg_updates (th_config g0)) \<and>
            (\<exists>t. tk_local_time w = Some t \<and> mc_enabled (cfg_maintenance (th_config g0)) \<and>
               in_window (mc_windows (cfg_maintenance (th_config g0))) t))))"
proof -
  let ?ms = "set (Up (g, c, st, d) # past)"
  have i: "ready sp rf (as_updates st, d)" "separate sp rf" "threads_ok web to_vec ?ms g" using sys_run_ok [OF assms(1)] by simp_all
  have "passes (step_state to_vec sp rf (author_ok web ?ms a) (may_remove a) (dk_fs d)) d d'"
    using sys_step_ok [OF assms(2) i] by (simp add: step_ok_def)
  from passes_new [OF this assms(3,4)] assms(5)
  consider "may_remove a" "f rf = None" | author where "author_ok web ?ms a author" "request_in to_vec rf author f"
    by (auto simp: step_state_def)
  then show ?thesis
  proof cases
    case 1
    then show ?thesis by (cases a) (simp_all add: may_remove_def)
  next
    case 2
    have auth: "sec_require_authentication (cfg_security (as_config st0))" if "authorised_author web sv req st0 = Some n" for sv req st0 n
      using that by (auto simp: authorised_author_def active_store_def split: if_splits)
    have perm: "uc_automatic (cfg_updates cfg) \<and> (\<exists>t. now = Some t \<and> mc_enabled (cfg_maintenance cfg) \<and>
        in_window (mc_windows (cfg_maintenance cfg)) t)" if "pm_installs_permitted (permissions_at cfg now)" for cfg now
      using that by (auto simp: permissions_at_def Let_def)
    show ?thesis
    proof (cases a)
      case (Client sv req)
      then obtain st0 g0 c0 d0 where "Up (g0, c0, st0, d0) \<in> ?ms" "authorised_author web sv req st0 = Some author"
        using 2(1) by auto
      with Client 2(2) auth show ?thesis by blast
    next
      case (Automatic w)
      then obtain g0 c0 st0 d0 where "Up (g0, c0, st0, d0) \<in> ?ms" "th_config g0 = tk_config w" "author = AUTOMATIC"
        "pm_installs_permitted (permissions_at (tk_config w) (tk_local_time w))"
        using 2(1) by auto
      with Automatic 2(2) perm show ?thesis by metis
    qed (use 2(1) in simp_all)
  qed
qed

text \<open>C7. The configuration is well typed at all times. In every state of every run, the configuration in force and the
  copy the scheduler works with have passed validation, so each text in them has the shape its reader
  expects (duration, clock times in order, socket address, absolute paths): no reader falls back to a
  default or skips a window, whatever files a reload finds. The log level in force is the configured one.\<close>

theorem config_always_typed:
  assumes "sys_run web base to_vec sp rf (Up (g, c, st, d) # past)"
  shows "config_typed (as_config st) \<and> config_typed (th_config g) \<and> as_level st = lc_level (cfg_logging (as_config st))"
  using sys_run_config [OF assms] valid_config_typed by auto

section \<open>Concrete runs\<close>

lemma refresh_one:
  obtains r u where "refresh (\<lambda>_. []) (\<lambda>_. None) one_upgrade now ch (updates_host in_memory q res, d) = (r, u, d)"
    "packages_of u = [''a'']" "ust_request_file u = q" "ust_available u \<noteq> []"
  by (simp add: refresh_def host_check_def one_upgrade_def parse_one_upgrade updates_host_def
      updates_state_new_def host_new_def set_last_def record_check_def store_change_def in_memory_def
      store_trim_def store_data_default_def packages_of_def update_of_def)

text \<open>A daemon that cannot open its state file and keeps its state in memory.\<close>

definition auto_start :: "(unit, string) start_world" where
  "auto_start = demo_start\<lparr>sw_lib := demo_lib\<lparr>cl_toml := (\<lambda>_. Inr auto_config)\<rparr>,
     sw_io := (\<lambda>n. if n = 1 then Some (''disk'', 0) else None)\<rparr>"

definition auto_paths :: "path \<times> path" where
  "auto_paths = (''/var/lib/abora/updates.json'', ''/var/lib/abora/apply-request.json'')"

lemma auto_config_facts: "validate auto_config = Inr ()" "sec_token_file (cfg_security auto_config) = None"
  "uc_state_file (cfg_updates auto_config) = ''/var/lib/abora/updates.json''"
  "request_file_of auto_config = ''/var/lib/abora/apply-request.json''" "names_apart auto_config"
  "check_bind_addr auto_config = Inr \<lparr>sa_ip = V4 127 0 0 1, sa_port = 7360\<rparr>" "ac_base_path (cfg_api auto_config) = ''/api/v1''"
proof -
  have "validate_errors auto_config = validate_errors sunday_config"
    by (simp add: validate_errors_def auto_config_def Let_def cong: if_cong sum.case_cong)
  then show "validate auto_config = Inr ()" using sunday_config_valid by (simp add: validate_def split: if_splits)
  show sp: "uc_state_file (cfg_updates auto_config) = ''/var/lib/abora/updates.json''"
    by (simp add: auto_config_def sunday_config_def config_default_def updates_config_default_def)
  show rf: "request_file_of auto_config = ''/var/lib/abora/apply-request.json''"
    by (simp add: request_file_of_def sp path_parent_def path_join_def REQUEST_FILE_NAME_def)
  show "names_apart auto_config" by (simp add: names_apart_def sp rf tmp_path_def)
qed (simp_all add: auto_config_def sunday_config_def config_default_def security_config_default_def check_bind_addr_def
    remote_config_default_def DEFAULT_LISTEN_ADDR_def parse_default_listen is_loopback_def api_config_default_def
    API_PATH_PREFIX_def)

lemma auto_start_runs:
  obtains r n where "starts_on (fst auto_paths) (snd auto_paths) auto_start (Some ''/c'') (disk_of config_file) r
       ((disk_of config_file)\<lparr>dk_calls := n\<rparr>)"
    "as_config (rn_state r) = auto_config" "rn_base r = ''/api/v1''"
    "as_updates (rn_state r) = updates_host in_memory (snd auto_paths) (uc_apply_result_file (cfg_updates auto_config))"
proof -
  let ?d = "(disk_of config_file)\<lparr>dk_calls := 1\<rparr>"
  have toml: "config_load (\<lambda>_. Inr auto_config :: string + unit config) (sw_io auto_start) ''/c'' (disk_of config_file) = (Inr auto_config, ?d)"
    by (simp add: config_load_def read_to_string_def read_file_def read_node_def demo_files disk_of_def auto_start_def
        valid_utf8_ascii config_from_str_def auto_config_facts)
  have cfg: "resolve_config (sw_lib auto_start) (sw_io auto_start) (Some ''/c'') (sw_env_var auto_start) (disk_of config_file) =
      (Inr (auto_config, Explicit ''/c''), ?d)"
    using toml by (simp add: resolve_config_def Let_def auto_start_def demo_start_def demo_lib_def)
  have st: "store_open (\<lambda>_. None) (sw_io auto_start) p ?d = (Inl (Io p ''disk''), ?d\<lparr>dk_calls := 2\<rparr>)" for p
    by (simp add: store_open_def read_file_def auto_start_def read_error_display_def Let_def)
  have "start auto_start (Some ''/c'') (disk_of config_file) =
    (Some (Inr \<lparr>rn_addr = \<lparr>sa_ip = V4 127 0 0 1, sa_port = 7360\<rparr>, rn_base = ''/api/v1'', rn_source = FileSource ''/c'',
       rn_state = \<lparr>as_config = auto_config, as_tokens = None, as_level = lc_level (cfg_logging auto_config),
          as_uptime_seconds = 0, as_started_at = ''t'',
          as_updates = updates_host in_memory (snd auto_paths) (uc_apply_result_file (cfg_updates auto_config))\<rparr>\<rparr>),
     ?d\<lparr>dk_calls := 2\<rparr>)"
    using cfg st by (simp add: start_def auto_config_facts load_token_store_def start_with_def with_updates_def open_updates_def Let_def
        auto_start_def demo_start_def reload_source_of_def auto_paths_def)
  then show ?thesis
    by (intro that) (auto simp: starts_on_def auto_config_facts auto_paths_def)
qed

text \<open>The daemon starts, a check finds an update, then a turn of the scheduler requests it.\<close>

lemma demo_system_run:
  obtains g1 st1 d1 past g2 st2 d2 where
    "sys_run demo_web ''/api/v1'' ar_id (fst auto_paths) (snd auto_paths) (Up (g1, 0, st1, d1) # past)"
    "sys_step demo_web ''/api/v1'' ar_id (fst auto_paths) (snd auto_paths) (Automatic demo_tick)
       (g1, 0, st1, d1) (g2, 0, st2, d2)"
    "dk_fs d1 (snd auto_paths) = None" "content (dk_fs d2) (snd auto_paths) \<noteq> None" "packages_of (as_updates st2) = [''a'']"
    "th_config g1 = auto_config"
proof -
  let ?rf = "snd auto_paths"
  let ?w = "demo_tick\<lparr>tk_run := one_upgrade\<rparr>"
  obtain rn n where r: "starts_on (fst auto_paths) ?rf auto_start (Some ''/c'') (disk_of config_file) rn
       ((disk_of config_file)\<lparr>dk_calls := n\<rparr>)" "as_config (rn_state rn) = auto_config" "rn_base rn = ''/api/v1''"
    "as_updates (rn_state rn) = updates_host in_memory ?rf (uc_apply_result_file (cfg_updates auto_config))"
    by (rule auto_start_runs)
  define st where "st = rn_state rn"
  define d where "d = (disk_of config_file)\<lparr>dk_calls := n\<rparr>"
  define g where "g = threads_init auto_config"
  have fs: "dk_fs d = config_file" by (simp add: d_def disk_of_def)
  have none: "config_file ?rf = None" "config_file (tmp_path ?rf) = None" "config_file (tmp_path (fst auto_paths)) = None"
    by (simp_all add: config_file_def auto_paths_def tmp_path_def)
  have down: "sys_run demo_web ''/api/v1'' ar_id (fst auto_paths) ?rf [Down (disk_of config_file)]"
    using none by (intro switched_on) (simp_all add: no_link_def is_symlink_def content_def disk_of_def)
  have r0: "sys_run demo_web ''/api/v1'' ar_id (fst auto_paths) ?rf [Up (g, 0, st, d), Down (disk_of config_file)]"
    using started [OF down r(1,3)] by (simp add: g_def st_def d_def r(2))
  obtain x u where u: "refresh (\<lambda>_. []) (\<lambda>_. None) one_upgrade ''t'' (uc_channel (cfg_updates auto_config)) (as_updates st, d) = (x, u, d)"
    "packages_of u = [''a'']" "ust_request_file u = ?rf" "ust_available u \<noteq> []"
    unfolding st_def r(4) by (rule refresh_one)
  define s1 where "s1 = sched_init\<lparr>sd_last_attempt := Some 11, sd_last_ok := (case x of Inr _ \<Rightarrow> True | Inl _ \<Rightarrow> False)\<rparr>"
  define g1 where "g1 = g\<lparr>th_sched := s1\<rparr>"
  have g: "th_config g = auto_config" "th_sched g = sched_init" "th_config g1 = auto_config" "th_sched g1 = s1"
    by (simp_all add: g_def g1_def threads_init_def)
  have "tk_config ?w = th_config g" by (simp add: demo_tick_def g)
  moreover have "check_phase demo_sched_env ?w (th_sched g) (as_updates st, d) = ([Checked 11 x], s1, u, d)"
    using u(1) by (simp add: check_phase_def check_due_def sched_init_def demo_sched_env_def demo_tick_def s1_def g)
  ultimately have "sys_step demo_web ''/api/v1'' ar_id (fst auto_paths) ?rf Background (g, 0, st, d) (g1, 0, st\<lparr>as_updates := u\<rparr>, d)"
    unfolding g1_def by (rule sys_step.check)
  then have r1: "sys_run demo_web ''/api/v1'' ar_id (fst auto_paths) ?rf
      [Up (g1, 0, st\<lparr>as_updates := u\<rparr>, d), Up (g, 0, st, d), Down (disk_of config_file)]"
    by (rule stepped [OF r0])
  let ?d1 = "d\<lparr>dk_calls := Suc n\<rparr>"
  have p: "apply_inputs (\<lambda>_. None) u d = ((True, False), ?d1)"
    using u(3,4) none by (simp add: apply_inputs_def apply_pending_def lstat_ok_def fs) (simp add: d_def)
  have w: "aw_local_time sunday_world = Some sunday_3am" by (simp add: sunday_world_def)
  then have "pm_apply_permitted (permissions_at auto_config (aw_local_time sunday_world))"
    using auto_config_permits by (simp add: permissions_at_def Let_def)
  then obtain a d2 where a: "request_apply ar_id (\<lambda>_. None) sunday_world auto_config AUTOMATIC False u ?d1 = (Inr a, d2)"
    using request_apply_accepted [of ?d1 u auto_config sunday_world ar_id AUTOMATIC] u none
    by (auto simp: fs replaceable_def no_link_def is_symlink_def)
  have "auto_phase demo_sched_env demo_tick s1 (u, d) = ([AutoRequested 13 (Inr a)], s1\<lparr>sd_last_auto := Some 13\<rparr>, u, d2)"
    using p a auto_config_permits
    by (simp add: auto_phase_def demo_tick_def demo_sched_env_def should_auto_apply_def s1_def sched_init_def Let_def)
  then have step: "sys_step demo_web ''/api/v1'' ar_id (fst auto_paths) ?rf (Automatic demo_tick)
      (g1, 0, st\<lparr>as_updates := u\<rparr>, d) (g1\<lparr>th_sched := s1\<lparr>sd_last_auto := Some 13\<rparr>\<rparr>, 0, st\<lparr>as_updates := u\<rparr>, d2)"
    using sys_step.automatic [of demo_tick g1 demo_sched_env ar_id "st\<lparr>as_updates := u\<rparr>" d]
    by (simp add: demo_sched_env_def demo_tick_def g)
  have "content (dk_fs d2) ?rf \<noteq> None"
    using request_apply_content [OF a] u(3) none by (auto simp: fs is_symlink_def)
  then show ?thesis using that [OF r1 step] u(2) none g(3) by (simp add: fs)
qed

theorem system_request_valid_witness:
  "\<exists>g past (st :: unit app_state) d q. sys_run demo_web ''/api/v1'' ar_id (fst auto_paths) (snd auto_paths) (Down d # Up (g, 0, st, d) # past) \<and>
     content (dk_fs d) (snd auto_paths) = Some (ar_id q) \<and> proper_request q"
proof -
  obtain g1 st1 d1 past g2 st2 d2 where run:
    "sys_run demo_web ''/api/v1'' ar_id (fst auto_paths) (snd auto_paths) (Up (g1, 0, st1, d1) # past)"
    "sys_step demo_web ''/api/v1'' ar_id (fst auto_paths) (snd auto_paths) (Automatic demo_tick)
       (g1, 0, st1, d1) (g2, 0, st2, d2)"
    "content (dk_fs d2) (snd auto_paths) \<noteq> None"
    using demo_system_run by metis
  have r: "sys_run demo_web ''/api/v1'' ar_id (fst auto_paths) (snd auto_paths)
      (Down d2 # Up (g2, 0, st2, d2) # Up (g1, 0, st1, d1) # past)"
    using stopped [OF stepped [OF run(1,2)]] by simp
  obtain bs where b: "content (dk_fs d2) (snd auto_paths) = Some bs" using run(3) by auto
  with system_request_valid [OF r] obtain q where "bs = ar_id q" "proper_request q" by auto
  with r b show ?thesis by blast
qed

theorem system_requests_authorised_witness:
  "\<exists>g1 (st1 :: unit app_state) d1 past g2 st2 d2.
     sys_run demo_web ''/api/v1'' ar_id (fst auto_paths) (snd auto_paths) (Up (g1, 0, st1, d1) # past) \<and>
     sys_step demo_web ''/api/v1'' ar_id (fst auto_paths) (snd auto_paths) (Automatic demo_tick) (g1, 0, st1, d1) (g2, 0, st2, d2) \<and>
     request_in ar_id (snd auto_paths) AUTOMATIC (dk_fs d2)"
proof -
  obtain g1 st1 d1 past g2 st2 d2 where run:
    "sys_run demo_web ''/api/v1'' ar_id (fst auto_paths) (snd auto_paths) (Up (g1, 0, st1, d1) # past)"
    "sys_step demo_web ''/api/v1'' ar_id (fst auto_paths) (snd auto_paths) (Automatic demo_tick)
       (g1, 0, st1, d1) (g2, 0, st2, d2)"
    "dk_fs d1 (snd auto_paths) = None" "content (dk_fs d2) (snd auto_paths) \<noteq> None"
    using demo_system_run by metis
  let ?ms = "set (Up (g1, 0, st1, d1) # past)"
  have i: "ready (fst auto_paths) (snd auto_paths) (as_updates st1, d1)" "separate (fst auto_paths) (snd auto_paths)"
    "threads_ok demo_web ar_id ?ms g1"
    using sys_run_ok [OF run(1)] by simp_all
  obtain passed where p: "dk_trace d2 = dk_trace d1 @ passed"
    using sys_step_ok [OF run(2) i] by (auto simp: step_ok_def passes_def)
  have "dk_fs d2 (snd auto_paths) \<noteq> dk_fs d1 (snd auto_paths)" using run(3,4) by (auto simp: content_def split: option.splits)
  from system_requests_authorised [where f = "dk_fs d2", OF run(1,2) p list.set_intros(1) this]
  have "request_in ar_id (snd auto_paths) AUTOMATIC (dk_fs d2)" by auto
  with run(1,2) show ?thesis by blast
qed

theorem config_always_typed_witness:
  "\<exists>g (st :: unit app_state) d past. sys_run demo_web ''/api/v1'' ar_id (fst auto_paths) (snd auto_paths)
       (Up (g, 0, st, d) # past) \<and> th_config g = auto_config \<and> config_typed (th_config g)"
proof -
  obtain g1 st1 d1 past g2 st2 d2 where run:
    "sys_run demo_web ''/api/v1'' ar_id (fst auto_paths) (snd auto_paths) (Up (g1, 0, st1, d1) # past)" "th_config g1 = auto_config"
    using demo_system_run by metis
  from config_always_typed [OF run(1)] run show ?thesis by blast
qed

end
