(* ===== verification/Cycle.thy ===== *)
theory Cycle
  imports Footprint
begin

text \<open>
  The cycle of one update: the request goes out and is carried out, the result of the helper comes
  back into the daemon's history; and what two requests at the same time do to each other.
\<close>

section \<open>The request goes out\<close>

lemma read_request_quiet:
  assumes "dk_fs d p = Some (Regular r)" "length (rf_bytes r) \<le> 1048576" "dk_now d \<le> rf_mtime r + 600000000000"
    and "cx_request_path ctx = p" "from_slice (rf_bytes r) = Some q" "validate_request q = Inr ()"
  shows "\<exists>d'. read_request from_slice id (\<lambda>_. None) ctx d = (Inr q, d')"
proof -
  have "fst (read_regular_file (\<lambda>_. None) id p (Some MAX_REQUEST_AGE) d) = Inr (rf_bytes r)"
    using assms(1-3) by (auto simp: read_regular_quiet MAX_REQUEST_AGE_def from_secs_def)
  then obtain d' where "read_regular_file (\<lambda>_. None) id p (Some MAX_REQUEST_AGE) d = (Inr (rf_bytes r), d')"
    by (metis prod.collapse)
  then show ?thesis using assms(4-6) by (simp add: read_request_def)
qed

lemma perform_result:
  assumes "pm_apply_permitted (permissions_at (cx_config ctx) (cx_local_time ctx))"
    and "perform ctx q f = (oc, log)"
    and "todo = filter (\<lambda>p. p \<in> upgradable_now ctx) (ar_packages q)"
    and "ok \<longleftrightarrow> \<not> isl (cx_runner ctx ''apt-get'' simulate_args) \<and>
       (todo = [] \<or> \<not> isl (cx_runner ctx ''apt-get'' (install_args todo)))"
  shows "res_id (oc_result oc) = ar_id q \<and>
     map (\<lambda>(prog, argv, _). (prog, argv)) log =
       (''apt-get'', simulate_args) # (if todo = [] then [] else [(''apt-get'', install_args todo)]) \<and>
     res_succeeded (oc_result oc) = ok \<and> res_packages (oc_result oc) = (if ok then todo else [])"
proof (cases "cx_runner ctx ''apt-get'' simulate_args")
  case (Inl e)
  then show ?thesis using assms by (auto simp: perform_unfold fail_with_def refuse_def upgradable_now_def)
next
  case (Inr out)
  have t: "todo = filter (\<lambda>p. p \<in> pu_name ` set (parse_simulation out)) (ar_packages q)"
    using assms(3) Inr by (simp add: upgradable_now_def)
  show ?thesis
  proof (cases "todo = []")
    case True
    then show ?thesis
      using assms(1,2,4) Inr t by (auto simp: perform_unfold fail_with_def refuse_def filter_empty_conv)
  next
    case False
    then show ?thesis
      using assms(1,2,4) Inr unfolding t
      by (cases "cx_runner ctx ''apt-get'' (install_args todo)")
        (auto simp: perform_unfold fail_with_def refuse_def t)
  qed
qed

text \<open>C4. One update from the request to the upgrade. The daemon accepts a request; the helper then runs on the file
  as the daemon left it, within ten minutes and inside its own maintenance window, with no failing
  system call. Then it simulates, upgrades exactly the accepted packages that still are upgradable, and the
  outcome carries the id the client was given, reports success exactly when the commands
  succeeded and lists what was upgraded. (The JSON library must read back this one request.)\<close>

theorem apply_end_to_end:
  assumes "request_apply to_vec env w cfg caller False u d = (Inr a, d1)"
    and "available_valid u" "\<not> is_symlink (dk_fs d) (tmp_path (ust_request_file u))"
    and "q = \<lparr>ar_id = new_request_id (aw_hash w), ar_requested_at = aw_now w, ar_requested_by = caller,
        ar_packages = packages_of u\<rparr>"
    and "from_slice (to_vec q) = Some q" "length (to_vec q) \<le> 1048576" "length (packages_of u) \<le> 2000"
    and "cx_request_path ctx = ust_request_file u" "dk_fs d2 (ust_request_file u) = dk_fs d1 (ust_request_file u)"
    and "\<And>r. dk_fs d2 (ust_request_file u) = Some (Regular r) \<Longrightarrow> dk_now d2 \<le> rf_mtime r + 600000000000"
    and "pm_apply_permitted (permissions_at (cx_config ctx) (cx_local_time ctx))"
    and "process from_slice id (\<lambda>_. None) ctx d2 = (oc, log, d3)"
    and "todo = filter (\<lambda>p. p \<in> upgradable_now ctx) (apr_packages a)"
    and "ok \<longleftrightarrow> \<not> isl (cx_runner ctx ''apt-get'' simulate_args) \<and>
       (todo = [] \<or> \<not> isl (cx_runner ctx ''apt-get'' (install_args todo)))"
  shows "\<exists>out. oc = Some out \<and> apr_id a = Some (res_id (oc_result out)) \<and>
     map (\<lambda>(prog, argv, _). (prog, argv)) log =
       (''apt-get'', simulate_args) # (if todo = [] then [] else [(''apt-get'', install_args todo)]) \<and>
     res_succeeded (oc_result out) = ok \<and> res_packages (oc_result out) = (if ok then todo else [])"
proof -
  let ?rf = "ust_request_file u"
  let ?d = "d2\<lparr>dk_calls := Suc (dk_calls d2)\<rparr>"
  have nl: "no_link ?rf (snd (apply_pending env u d))"
    using assms(3) by (simp add: no_link_def apply_pending_def)
  have a: "content (dk_fs d1) ?rf = Some (to_vec q)" "apr_id a = Some (ar_id q)" "apr_packages a = ar_packages q"
    "packages_of u \<noteq> []"
    using assms(1,4) by (cases rule: request_apply_cases; auto dest: wa.wr_ok [OF nl] simp: apply_block_def split: if_splits)+
  have v: "validate_request q = Inr ()"
    using a(4) assms(2,4,7) by (auto simp: validate_request_ok new_request_id_valid MAX_PACKAGES_def
        list_all_iff packages_of_props available_valid_def)
  obtain r where r: "dk_fs d2 ?rf = Some (Regular r)" "rf_bytes r = to_vec q"
    using a(1) assms(9) by (auto simp: content_def split: option.splits node.splits)
  obtain d4 where rd: "read_request from_slice id (\<lambda>_. None) ctx ?d = (Inr q, d4)"
    using read_request_quiet [of ?d ?rf r ctx from_slice q] r assms(5,6,8) assms(10) [OF r(1)] v by auto
  obtain out lg where p: "perform ctx q (dk_fs d4) = (out, lg)" by fastforce
  have "lstat_ok (\<lambda>_. None) (cx_request_path ctx) d2 = (True, ?d)"
    using r(1) assms(8) by (simp add: lstat_ok_def)
  then have "oc = Some out" "log = lg" using assms(12) rd p by (simp_all add: process_def)
  with perform_result [OF assms(11) p _ assms(14)] assms(13) a(2,3) show ?thesis by simp
qed

section \<open>The result comes back\<close>

lemma store_change_quiet:
  assumes "us_path s \<in> {None, Some sp}" "replaceable sp d"
  obtains s' d' where "store_change ser (\<lambda>_. None) edit s d = (Inr (), s', d')" "us_data s' = store_trim (edit (us_data s))"
proof -
  obtain r s' d' where c: "store_change ser (\<lambda>_. None) edit s d = (r, s', d')" using prod_cases3 by blast
  then show ?thesis
  proof (cases rule: store_change_cases)
    case (3 p e)
    have "\<exists>d'. replace_file (\<lambda>_. None) p bs 384 d = (Inr (), d')" for bs
      using replace_file_quiet [of p d bs 384] assms 3(1) by simp
    then show ?thesis
      using save_bytes_replace_file [OF 3(4), of False] by (metis Inl_Inr_False prod.inject)
  qed (use c that in auto)
qed

lemma conclude_quiet:
  assumes "conclude to_vec (\<lambda>_. None) ctx res oc d = (r, log, d')"
    and "replaceable res d" "cx_request_path ctx \<notin> request_paths res" "dk_fs d (cx_request_path ctx) \<noteq> Some Directory"
  shows "content (dk_fs d') res = Some (to_vec (oc_result oc)) \<and> dk_fs d' (cx_request_path ctx) = None"
proof -
  have nl: "no_link res d" using assms(2) by (simp add: replaceable_def)
  obtain d1 where w: "write_atomic (\<lambda>_. None) res (to_vec (oc_result oc)) 420 d = (Inr (), d1)"
    using replace_file_quiet [OF assms(2)] by (auto simp: write_atomic_replace)
  have q: "dk_fs d1 (cx_request_path ctx) = dk_fs d (cx_request_path ctx)"
    using wa.wr_frame [OF nl w] assms(3) by (simp add: request_paths_def)
  have c: "content (dk_fs d1) res = Some (to_vec (oc_result oc))" by (rule wa.wr_ok [OF nl w])
  have "d' = snd (remove_file (\<lambda>_. None) (cx_request_path ctx) d1)"
    using assms(1) w by (auto simp: conclude_def Let_def split: if_splits)
  then show ?thesis
    using c q assms(3,4) by (auto simp: remove_file_def call_atomic_def put_fs_def content_def request_paths_def)
qed


section \<open>Two requests at once\<close>

lemma write_atomic_clears:
  assumes "no_link p d" "write_atomic env p bs mode d = (Inr (), d')"
  shows "dk_fs d' (tmp_path p) = None"
proof -
  obtain r1 d1 where e: "ensure_parent env p d = (r1, d1)" by fastforce
  have "dk_fs d1 (tmp_path p) = dk_fs d (tmp_path p)" using ensure_parent_keeps [of p d env] e by (simp add: keeps_def)
  then have sym: "\<not> is_symlink (dk_fs d1) (tmp_path p)" using assms(1) by (simp add: no_link_def is_symlink_def)
  have "cleanup env (tmp_path p) (tmp_then_rename env p bs mode) d1 = (Inr (), d')"
    using assms(2) e by (auto simp: write_atomic_def io_bind_def split: sum.splits)
  from cleanup_effect [OF sym this] show ?thesis by (simp add: replaced_def)
qed


text \<open>Nor are the writes themselves kept apart: both use the same temporary name. If the second one opens it when the
  first has written and not yet renamed it, what the first puts in place is an empty file. (The handle of the
  second is from then on the file in place, which the model of handles by name does not follow.)\<close>

theorem racing_writes:
  assumes "\<not> is_symlink (dk_fs d) (tmp_path p)" "dk_fs d p \<noteq> Some Directory"
    and "open_truncate env (tmp_path p) m d = (Inr h, d1)" "write_all env h bs d1 = (Inr (), d2)"
    and "open_truncate env (tmp_path p) m d2 = (Inr h', d3)" "sync_all env d3 = (Inr (), d4)"
    and "rename env (tmp_path p) p d4 = (Inr (), d5)"
  shows "content (dk_fs d5) p = Some []"
proof -
  let ?t = "tmp_path p"
  obtain r where h: "h = ?t" "dk_fs d1 ?t = Some (Regular r)" using open_truncate_Inr [OF assms(1,3)] by blast
  have c: "content (dk_fs d2) ?t = Some bs" using write_all_Inr assms(4) h by blast
  then have s: "\<not> is_symlink (dk_fs d2) ?t" by (auto simp: content_def is_symlink_def split: option.splits node.splits)
  have "fst (call_atomic env ((dk_fs d2)(?t := truncated m (dk_now d2) (dk_fs d2 ?t))) d2) = Inr ()"
    "d3 = snd (call_atomic env ((dk_fs d2)(?t := truncated m (dk_now d2) (dk_fs d2 ?t))) d2)"
    using assms(5) s by (auto simp: open_truncate_def follow_id io_bind_def split: if_splits prod.splits sum.splits)
  then have "dk_fs d3 ?t = truncated m (dk_now d2) (dk_fs d2 ?t)" by (simp add: call_atomic_Inr)
  then have "content (dk_fs d3) ?t = Some []" using c by (auto simp: content_def truncated_def split: option.splits node.splits)
  moreover have "dk_fs d4 = dk_fs d3" using sync_all_fs [of env d3] assms(6) by simp
  ultimately show ?thesis using rename_Inr [OF assms(7)] by (simp add: renamed_def content_def)
qed

section \<open>Concrete runs\<close>

lemma no_faults_on_empty: "\<not> is_symlink (dk_fs (disk_of Map.empty)) p" "dk_fs (disk_of Map.empty) p \<noteq> Some Directory"
  "dk_fs (disk_of Map.empty) p = None" "replaceable p (disk_of Map.empty)"
  by (simp_all add: disk_of_def is_symlink_def no_link_def replaceable_def)

theorem apply_end_to_end_witness:
  "\<exists>d1 out log d3. fst (request_apply (\<lambda>_. ''{}'') (\<lambda>_. None) sunday_world sunday_config ''ops'' False one_available
       (disk_of Map.empty)) = Inr \<lparr>apr_dry_run = False, apr_permitted = True, apr_reason = None,
         apr_id = Some (new_request_id 7), apr_packages = [''a'']\<rparr> \<and>
     process (\<lambda>_. Some \<lparr>ar_id = new_request_id 7, ar_requested_at = ''t'', ar_requested_by = ''ops'', ar_packages = [''a'']\<rparr>)
       id (\<lambda>_. None) (demo_ctx\<lparr>cx_request_path := ''q''\<rparr>) d1 = (Some out, log, d3) \<and>
     res_id (oc_result out) = new_request_id 7 \<and> res_succeeded (oc_result out) \<and> res_packages (oc_result out) = [''a'']"
proof -
  let ?d = "disk_of Map.empty"
  let ?q = "\<lparr>ar_id = new_request_id 7, ar_requested_at = ''t'', ar_requested_by = ''ops'', ar_packages = [''a'']\<rparr>"
  let ?ctx = "demo_ctx\<lparr>cx_request_path := ''q''\<rparr>"
  obtain a d1 where a: "request_apply (\<lambda>_. ''{}'') (\<lambda>_. None) sunday_world sunday_config ''ops'' False one_available ?d = (Inr a, d1)"
    using request_apply_q by blast
  have a': "a = \<lparr>apr_dry_run = False, apr_permitted = True, apr_reason = None,
         apr_id = Some (new_request_id 7), apr_packages = [''a'']\<rparr>"
    using a by (cases rule: request_apply_cases) (simp_all add: one_available_facts sunday_world_def)
  obtain oc log d3 where p: "process (\<lambda>_. Some ?q) id (\<lambda>_. None) ?ctx (d1\<lparr>dk_now := 0\<rparr>) = (oc, log, d3)"
    using prod_cases3 by blast
  have run: "cx_runner ?ctx x y = Inr ''Inst a (1 s)''" for x y by (simp add: demo_ctx_def one_upgrade_def)
  have todo: "[''a''] = filter (\<lambda>p. p \<in> upgradable_now ?ctx) (apr_packages a)"
    using run by (simp add: a' upgradable_now_def parse_one_upgrade)
  have w: "pm_apply_permitted (permissions_at (cx_config ?ctx) (cx_local_time ?ctx))" using demo_permitted by simp
  have l: "\<not> is_symlink (dk_fs ?d) (tmp_path (ust_request_file one_available))" by (simp add: disk_of_def is_symlink_def)
  have q: "?q = \<lparr>ar_id = new_request_id (aw_hash sunday_world), ar_requested_at = aw_now sunday_world,
      ar_requested_by = ''ops'', ar_packages = packages_of one_available\<rparr>"
    by (simp add: sunday_world_def one_available_facts)
  have f: "length (packages_of one_available) \<le> 2000" "cx_request_path ?ctx = ust_request_file one_available"
    by (simp_all add: one_available_facts)
  have now: "dk_now (d1\<lparr>dk_now := 0\<rparr>) \<le> rf_mtime r + 600000000000" for r by simp
  have fs: "dk_fs (d1\<lparr>dk_now := 0\<rparr>) (ust_request_file one_available) = dk_fs d1 (ust_request_file one_available)" by simp
  have ok: "True \<longleftrightarrow> \<not> isl (cx_runner ?ctx ''apt-get'' simulate_args) \<and>
       ([''a''] = [] \<or> \<not> isl (cx_runner ?ctx ''apt-get'' (install_args [''a''])))"
    using run by simp
  have "\<exists>out. oc = Some out \<and> apr_id a = Some (res_id (oc_result out)) \<and>
      res_succeeded (oc_result out) = True \<and> res_packages (oc_result out) = (if True then [''a''] else [])"
    using apply_end_to_end [OF a one_available_facts(1) l q refl _ f fs now w p todo ok] by auto
  then obtain out where "oc = Some out" "apr_id a = Some (res_id (oc_result out))"
      "res_succeeded (oc_result out)" "res_packages (oc_result out) = [''a'']" by auto
  then show ?thesis
    using a a' p by (intro exI [of _ "d1\<lparr>dk_now := 0\<rparr>"] exI [of _ out] exI [of _ log] exI [of _ d3]) auto
qed



end
