(* ===== verification/Cli.thy ===== *)
theory Cli
  imports Daemon
begin

text \<open>
  \<^verbatim>\<open>cli/abora/src/main.rs\<close>: the command line client. A command yields its exit code, what it prints and, in
  order, the requests it sends. The answer to a request may depend on all requests so far. clap's
  parsing, ureq, the JSON library, SHA-256, the terminal and the environment are arguments.
\<close>

section \<open>What a command does\<close>

datatype exit_code = Success | Failure

text \<open>A line on stdout, a line on stderr, a prompt without end of line.\<close>

datatype out = Out string | Err string | Ask string

record call =
  ca_method :: string
  ca_url :: string
  ca_bearer :: "string option"

datatype reply = Transport string | Reply nat "string + string"

record ('x, 'e) cli_env =
  ce_token_var :: "string option"
  ce_url_var :: "string option"
  ce_config_var :: "path option"
  ce_reply :: "call list \<Rightarrow> reply"
  ce_from_str :: "string \<Rightarrow> string + json"
  ce_pretty :: "json \<Rightarrow> string option"
  ce_terminal :: bool
  ce_input :: string
  ce_io :: io_env
  ce_lib :: "('x, 'e) config_lib"

type_synonym result = "exit_code \<times> out list \<times> call list"

datatype updates_command = ShowUpdates | ApplyUpdates bool bool

datatype command =
  CmdVersion
| CmdStatus "string option" "string option"
| CmdUpdates "string option" "string option" bool updates_command
| CmdConfigCheck "path option"
| CmdGenerateToken string "string list" nat "string option"

section \<open>Values\<close>

text \<open>\<^verbatim>\<open>value["key"]\<close> is null where there is none; \<^verbatim>\<open>get\<close> tells the difference.\<close>

definition jget :: "json \<Rightarrow> string \<Rightarrow> json option" where
  "jget v k = (case v of JObj m \<Rightarrow> m k | _ \<Rightarrow> None)"

definition jindex :: "json \<Rightarrow> string \<Rightarrow> json" where
  "jindex v k = (case jget v k of Some x \<Rightarrow> x | None \<Rightarrow> JNull)"

definition as_str :: "json \<Rightarrow> string option" where
  "as_str v = (case v of JStr s \<Rightarrow> Some s | _ \<Rightarrow> None)"

definition as_bool :: "json \<Rightarrow> bool option" where
  "as_bool v = (case v of JBool b \<Rightarrow> Some b | _ \<Rightarrow> None)"

definition as_array :: "json \<Rightarrow> json list" where
  "as_array v = (case v of JArr xs \<Rightarrow> xs | _ \<Rightarrow> [])"

text \<open>A number is a \<^verbatim>\<open>u64\<close> when its literal has digits only and fits.\<close>

definition as_u64 :: "json \<Rightarrow> nat option" where
  "as_u64 v = (case v of JNum s \<Rightarrow> (if list_all is_ascii_digit s then parse_uint u64_max s else None) | _ \<Rightarrow> None)"

abbreviation str_or :: "json \<Rightarrow> string \<Rightarrow> string" where
  "str_or v s \<equiv> (case as_str v of Some x \<Rightarrow> x | None \<Rightarrow> s)"

abbreviation u64_or0 :: "json \<Rightarrow> string" where
  "u64_or0 v \<equiv> show_nat (case as_u64 v of Some n \<Rightarrow> n | None \<Rightarrow> 0)"

section \<open>Rendering\<close>

definition os_pretty :: "json \<Rightarrow> string" where
  "os_pretty sys =
     (let os = jindex sys ''os''
      in case (as_str (jindex os ''pretty_name''), as_str (jindex os ''name''), as_str (jindex os ''version'')) of
           (Some p, _, _) \<Rightarrow> p
         | (None, Some n, Some v) \<Rightarrow> n @ '' '' @ v
         | (None, Some n, None) \<Rightarrow> n
         | _ \<Rightarrow> str_or (jindex os ''id'') ''unknown'')"

definition version_str :: "json \<Rightarrow> string" where
  "version_str v =
     (case (as_u64 (jindex v ''major''), as_u64 (jindex v ''minor''), as_u64 (jindex v ''patch'')) of
        (Some major, Some minor, Some patch) \<Rightarrow>
          show_nat major @ ''.'' @ show_nat minor @ ''.'' @ show_nat patch @
          (case as_str (jindex v ''prerelease'') of Some p \<Rightarrow> ''-'' @ p | None \<Rightarrow> []) @
          (case as_str (jindex v ''build'') of Some b \<Rightarrow> ''+'' @ b | None \<Rightarrow> [])
      | _ \<Rightarrow> str_or v ''-'')"

definition SHOW_AVAILABLE :: nat where "SHOW_AVAILABLE = 10"
definition SHOW_HISTORY :: nat where "SHOW_HISTORY = 5"

definition status_text :: "json \<Rightarrow> string" where
  "status_text v = (case as_str (jindex (jindex v ''status'') ''state'') of
     None \<Rightarrow> ''unknown (no check has finished yet)''
   | Some s \<Rightarrow>
       if s = ''update_available'' then show_nat (length (as_array (jindex v ''available''))) @ '' update(s) available''
       else if s = ''up_to_date'' then ''up to date''
       else if s = ''installing'' then ''installing an update now''
       else if s = ''error'' then ''error: '' @ str_or (jindex (jindex v ''status'') ''message'') ''unknown''
       else s)"

definition policy_lines :: "json \<Rightarrow> string list" where
  "policy_lines v = (case jget v ''schedule'' of
     Some (JObj m) \<Rightarrow>
       (let s = JObj m
        in [''policy:     maintenance window '' @
              (case as_bool (jindex s ''in_maintenance_window'') of
                 Some True \<Rightarrow> ''open'' | Some False \<Rightarrow> ''closed'' | None \<Rightarrow> ''unknown'') @
              ''; applying is '' @
              (if as_bool (jindex s ''apply_permitted'') = Some True then ''permitted now'' else ''not permitted now'') @
              ''; checks every '' @ u64_or0 (jindex s ''check_interval_seconds'') @ ''s''])
   | _ \<Rightarrow> [])"

definition reboot_line :: "json \<Rightarrow> string" where
  "reboot_line v =
     (let r = jindex v ''reboot''
      in if as_bool (jindex r ''required'') = Some True
         then ''reboot:     REQUIRED'' @
           (case as_str (jindex r ''pending_since'') of Some t \<Rightarrow> '' (since '' @ t @ '')'' | None \<Rightarrow> []) @
           (case as_str (jindex r ''reason'') of Some x \<Rightarrow> '': '' @ x | None \<Rightarrow> [])
         else ''reboot:     not required'')"

definition available_line :: "json \<Rightarrow> string" where
  "available_line u = ''  '' @
     (case as_str (jindex u ''summary'') of Some s \<Rightarrow> s | None \<Rightarrow> str_or (jindex u ''component'') ''-'')"

definition available_lines :: "json \<Rightarrow> string list" where
  "available_lines v =
     (let available = as_array (jindex v ''available'')
      in if available = [] then []
         else [[], ''available:''] @ map available_line (take SHOW_AVAILABLE available) @
           (if SHOW_AVAILABLE < length available
            then [''  ... and '' @ show_nat (length available - SHOW_AVAILABLE) @ '' more (use --json for the full list)'']
            else []))"

definition history_line :: "json \<Rightarrow> string" where
  "history_line h = ''  '' @ str_or (jindex h ''applied_at'') ''-'' @ '' '' @
     (if as_bool (jindex h ''succeeded'') = Some True then ''ok    '' else ''FAILED'') @ '' '' @
     str_or (jindex h ''note'') []"

definition history_lines :: "json \<Rightarrow> string list" where
  "history_lines v =
     (let history = as_array (jindex v ''history'')
      in if history = [] then []
         else [[], ''history (newest first):''] @ map history_line (take SHOW_HISTORY history))"

definition format_updates :: "json \<Rightarrow> string list" where
  "format_updates v =
     [''status:     '' @ status_text v, ''last check: '' @ str_or (jindex v ''last_check'') ''never''] @
     policy_lines v @ [reboot_line v] @ available_lines v @ history_lines v"

definition plan_packages :: "json \<Rightarrow> string list" where
  "plan_packages plan = List.map_filter as_str (as_array (jindex plan ''packages''))"

definition format_plan :: "json \<Rightarrow> string list" where
  "format_plan plan =
     (let packages = plan_packages plan
      in (show_nat (length packages) @ '' package(s) would be upgraded:'') #
         map (\<lambda>chunk. ''  '' @ join '' '' chunk) (chunks 6 packages))"


section \<open>Configuration and address\<close>

definition cli_load_config ::
  "('x, 'e) cli_env \<Rightarrow> path option \<Rightarrow> disk \<Rightarrow> (string + 'x config) \<times> disk" where
  "cli_load_config env explicit d =
     (let load = (\<lambda>p d. case config_load (cl_toml (ce_lib env)) (ce_io env) p d of
            (r, d') \<Rightarrow> (map_err (config_error_display (cl_show (ce_lib env))) r, d'))
      in case explicit of
           Some p \<Rightarrow> load p d
         | None \<Rightarrow> (case ce_config_var env of
             Some p \<Rightarrow> load p d
           | None \<Rightarrow> (case path_exists (ce_io env) DEFAULT_CONFIG_PATH d of
               (found, d') \<Rightarrow>
                 if found then load DEFAULT_CONFIG_PATH d'
                 else (Inl (''no configuration file found at '' @ DEFAULT_CONFIG_PATH @
                   ''; pass a path or set $ABORA_CONFIG''), d'))))"

definition resolve_daemon_url :: "('x, 'e) cli_env \<Rightarrow> string option \<Rightarrow> disk \<Rightarrow> string" where
  "resolve_daemon_url env explicit d = (case explicit of
     Some u \<Rightarrow> trim_end_matches (CHR ''/'') u
   | None \<Rightarrow> (case ce_url_var env of
       Some u \<Rightarrow> trim_end_matches (CHR ''/'') u
     | None \<Rightarrow>
         (let addr = (case fst (cli_load_config env None d) of
             Inr cfg \<Rightarrow> rc_listen_addr (cfg_remote cfg) | Inl _ \<Rightarrow> DEFAULT_LISTEN_ADDR)
          in if prefix ''http://'' addr \<or> prefix ''https://'' addr
             then trim_end_matches (CHR ''/'') addr else ''http://'' @ addr)))"

section \<open>Requests\<close>

text \<open>The requests made so far are the state; a request is added before it is answered.\<close>

definition api_failure :: "('x, 'e) cli_env \<Rightarrow> nat \<Rightarrow> string \<Rightarrow> string" where
  "api_failure env status body =
     (let http = ''HTTP '' @ show_nat status @ '': ''
      in case ce_from_str env body of
           Inr v \<Rightarrow> (case jget v ''error'' of
             Some err \<Rightarrow> http @ str_or (jindex err ''message'') ''unknown error'' @ '' ('' @
               str_or (jindex err ''code'') ''unknown'' @ '')''
           | None \<Rightarrow> http @ body)
         | Inl _ \<Rightarrow> http @ body)"

definition call_json ::
  "('x, 'e) cli_env \<Rightarrow> string \<Rightarrow> string \<Rightarrow> string option \<Rightarrow> call list \<Rightarrow> (string + json) \<times> call list" where
  "call_json env method url token calls =
     (let calls' = calls @ [\<lparr>ca_method = (if method = ''POST'' then ''POST'' else ''GET''), ca_url = url,
            ca_bearer = map_option (\<lambda>t. ''Bearer '' @ t) token\<rparr>]
      in (case ce_reply env calls' of
            Transport e \<Rightarrow> Inl (''transport error: '' @ e)
          | Reply status body \<Rightarrow> (case body of
              Inl e \<Rightarrow> Inl (''could not read response body: '' @ e)
            | Inr text \<Rightarrow>
                if 400 \<le> status then Inl (api_failure env status text)
                else map_err (\<lambda>e. ''invalid JSON from '' @ url @ '': '' @ e) (ce_from_str env text)),
          calls'))"

definition get_json ::
  "('x, 'e) cli_env \<Rightarrow> string \<Rightarrow> string option \<Rightarrow> call list \<Rightarrow> (string + json) \<times> call list" where
  "get_json env url token = call_json env ''GET'' url token"

definition token_or_env :: "('x, 'e) cli_env \<Rightarrow> string option \<Rightarrow> string option" where
  "token_or_env env token = (case token of Some t \<Rightarrow> Some t | None \<Rightarrow> ce_token_var env)"

section \<open>Commands\<close>

definition cmd_version :: result where
  "cmd_version = (Success,
     [Out (FRAMEWORK_NAME @ '' '' @ FRAMEWORK_VERSION),
      Out (''client: '' @ CLI_NAME @ '' '' @ version_display version_current),
      Out (''daemon: '' @ DAEMON_NAME @ '' (query `abora status` for the running version)''),
      Out (''api:    '' @ API_VERSION)], [])"

definition unreachable :: "string \<Rightarrow> string \<Rightarrow> out list" where
  "unreachable base msg =
     [Err (''error: could not reach '' @ DAEMON_NAME @ '' at '' @ base @ [CHR 0x0A] @ ''  '' @ msg),
      Err ''hint: is the daemon running? try `cargo run -p aborad` or start the systemd unit.''] @
     (if str_contains msg ''bearer token''
      then [Err ''hint: the daemon requires authentication; pass --token or set $ABORA_DAEMON_TOKEN.''] else [])"

definition system_lines :: "string + json \<Rightarrow> string list" where
  "system_lines r = (case r of
     Inr sys \<Rightarrow>
       [''hostname:  '' @ str_or (jindex sys ''hostname'') ''-'',
        ''os:        '' @ os_pretty sys,
        ''kernel:    '' @ str_or (jindex (jindex sys ''kernel'') ''release'') ''-'',
        ''arch:      '' @ str_or (jindex sys ''architecture'') ''-'' @ '' ('' @ str_or (jindex sys ''machine'') ''-'' @ '')'',
        ''memory:    '' @ u64_or0 (jindex (jindex sys ''memory'') ''used_bytes'') @ ''/'' @
          u64_or0 (jindex (jindex sys ''memory'') ''total_bytes'') @ '' bytes used'',
        ''uptime:    '' @ u64_or0 (jindex sys ''uptime_seconds'') @ ''s (host)'']
   | Inl msg \<Rightarrow> [''system:    unavailable ('' @ msg @ '')''])"

definition status_lines :: "json \<Rightarrow> string + json \<Rightarrow> string + json \<Rightarrow> string list" where
  "status_lines hl version sys =
     [''daemon:    '' @ str_or (jindex (jindex hl ''daemon'') ''name'') ''-'' @ '' '' @
        version_str (jindex (jindex hl ''daemon'') ''version''),
      (case version of
         Inr v \<Rightarrow> ''framework: '' @ version_str (jindex v ''framework_version'')
       | Inl msg \<Rightarrow> ''framework: unavailable ('' @ msg @ '')''),
      ''status:    '' @ str_or (jindex hl ''status'') ''unknown'',
      ''api:       '' @ str_or (jindex (jindex hl ''api'') ''name'') ''-'' @ '' ('' @
        str_or (jindex (jindex hl ''api'') ''path'') ''-'' @ '')'',
      ''uptime:    '' @ u64_or0 (jindex hl ''uptime_seconds'') @ ''s (daemon since '' @
        str_or (jindex hl ''started_at'') ''-'' @ '')''] @ system_lines sys"

definition cmd_status :: "('x, 'e) cli_env \<Rightarrow> string option \<Rightarrow> string option \<Rightarrow> disk \<Rightarrow> result" where
  "cmd_status env url token d =
     (let base = resolve_daemon_url env url d; token = token_or_env env token
      in case get_json env (base @ ''/api/v1/health'') token [] of
           (Inl msg, calls) \<Rightarrow> (Failure, unreachable base msg, calls)
         | (Inr hl, calls) \<Rightarrow> (case get_json env (base @ ''/api/v1/version'') token calls of
             (version, calls) \<Rightarrow> (case get_json env (base @ ''/api/v1/system'') token calls of
               (sys, calls) \<Rightarrow> (Success, map Out (status_lines hl version sys), calls))))"


definition updates_error :: "string \<Rightarrow> string \<Rightarrow> exit_code \<times> out list" where
  "updates_error base msg = (Failure,
     [Err (''error: '' @ msg)] @
     (if str_contains msg ''HTTP 403''
      then [Err ''hint: this token does not grant the needed permission (`read:updates` to look, `manage:updates` to apply).'']
      else if str_contains msg ''transport error'' then [Err (''hint: is the daemon running at '' @ base @ ''?'')]
      else if str_contains msg ''bearer token'' then [Err ''hint: pass --token or set $ABORA_DAEMON_TOKEN.'']
      else []))"

definition pretty_or_empty :: "('x, 'e) cli_env \<Rightarrow> json \<Rightarrow> string" where
  "pretty_or_empty env v = (case ce_pretty env v of Some s \<Rightarrow> s | None \<Rightarrow> [])"

text \<open>The question before an apply: what is printed, and whether it was answered with yes.\<close>

definition confirm :: "('x, 'e) cli_env \<Rightarrow> bool \<Rightarrow> out list \<times> bool" where
  "confirm env yes =
     (if yes then ([], True)
      else if \<not> ce_terminal env
      then ([Err ''refusing to apply without confirmation: run in a terminal, or pass --yes''], False)
      else if trim (ce_input env) \<in> {''y'', ''Y'', ''yes'', ''YES''}
      then ([Ask ''Apply these updates now? [y/N] ''], True)
      else ([Ask ''Apply these updates now? [y/N] '', Out ''cancelled; nothing was requested''], False))"

definition cli_apply_updates ::
  "('x, 'e) cli_env \<Rightarrow> string \<Rightarrow> string option \<Rightarrow> bool \<Rightarrow> bool \<Rightarrow> bool \<Rightarrow> call list \<Rightarrow> result" where
  "cli_apply_updates env base token dry_run yes json calls =
     (case call_json env ''POST'' (base @ ''/api/v1/updates/apply?dry_run=true'') token calls of
        (Inl msg, calls) \<Rightarrow> (case updates_error base msg of (x, os) \<Rightarrow> (x, os, calls))
      | (Inr plan, calls) \<Rightarrow>
          let raw = (if json \<and> dry_run then [Out (pretty_or_empty env plan)] else [])
          in if as_bool (jindex plan ''permitted'') \<noteq> Some True
             then (Failure, raw @ [Err (''cannot apply now: '' @ str_or (jindex plan ''reason'') ''not permitted'')], calls)
             else
               let shown = raw @ (if \<not> json \<or> \<not> dry_run then map Out (format_plan plan) else [])
               in if dry_run then (Success, shown, calls)
                  else (case confirm env yes of (asked, ok) \<Rightarrow>
                    if \<not> ok then (Failure, shown @ asked, calls)
                    else (case call_json env ''POST'' (base @ ''/api/v1/updates/apply'') token calls of
                        (Inl msg, calls) \<Rightarrow> (case updates_error base msg of (x, os) \<Rightarrow> (x, shown @ asked @ os, calls))
                      | (Inr v, calls) \<Rightarrow> (Success, shown @ asked @
                          [Out (if json then pretty_or_empty env v
                                else ''accepted (request '' @ str_or (jindex v ''id'') ''-'' @
                                  ''). Follow it with `abora updates`: status shows `installing`, then a history entry appears.'')],
                          calls))))"

definition cmd_updates ::
  "('x, 'e) cli_env \<Rightarrow> string option \<Rightarrow> string option \<Rightarrow> bool \<Rightarrow> updates_command \<Rightarrow> disk \<Rightarrow> result" where
  "cmd_updates env url token json cmd d =
     (let base = resolve_daemon_url env url d; token = token_or_env env token
      in case cmd of
           ShowUpdates \<Rightarrow> (case get_json env (base @ ''/api/v1/updates'') token [] of
              (Inl msg, calls) \<Rightarrow> (case updates_error base msg of (x, os) \<Rightarrow> (x, os, calls))
            | (Inr body, calls) \<Rightarrow>
                (Success, if json then [Out (pretty_or_empty env body)] else map Out (format_updates body), calls))
         | ApplyUpdates dry_run yes \<Rightarrow> cli_apply_updates env base token dry_run yes json [])"

definition cmd_config_check :: "('x, 'e) cli_env \<Rightarrow> path option \<Rightarrow> disk \<Rightarrow> result" where
  "cmd_config_check env p d = (case fst (cli_load_config env p d) of
     Inl msg \<Rightarrow> (Failure, [Err (''config check failed: '' @ msg)], [])
   | Inr config \<Rightarrow> (case validate config of
       Inr _ \<Rightarrow> (Success, Out ''config OK'' # map (\<lambda>l. Out (''  '' @ l)) (config_summary config), [])
     | Inl errors \<Rightarrow> (Failure, Err ''config invalid:'' # map (\<lambda>e. Err (''  - '' @ e)) errors, [])))"

section \<open>Tokens\<close>

definition cli_hex_encode :: "hash \<Rightarrow> string" where
  "cli_hex_encode bytes = concat (map (\<lambda>b. [HEX ! unat (drop_bit 4 b), HEX ! unat (and b 0x0F)]) bytes)"

definition sha256_hex :: "(string \<Rightarrow> hash) \<Rightarrow> string \<Rightarrow> string" where
  "sha256_hex sha256 secret = ''sha256:'' @ cli_hex_encode (sha256 secret)"

text \<open>The two calls on \<^verbatim>\<open>/dev/urandom\<close>: an error of the open, and the bytes or an error of the read.\<close>

record urandom =
  ur_open :: "string option"
  ur_read :: "nat \<Rightarrow> string + hash"

definition random_secret :: "urandom \<Rightarrow> nat \<Rightarrow> string + string" where
  "random_secret ur byte_len =
     (if \<not> (16 \<le> byte_len \<and> byte_len \<le> 128) then Inl ''secret length must be between 16 and 128 bytes''
      else case ur_open ur of
        Some e \<Rightarrow> Inl (''could not open /dev/urandom: '' @ e)
      | None \<Rightarrow> (case ur_read ur byte_len of
          Inl e \<Rightarrow> Inl (''could not read /dev/urandom: '' @ e)
        | Inr bytes \<Rightarrow> Inr (cli_hex_encode bytes)))"

definition quoted :: "string \<Rightarrow> string" where
  "quoted s = CHR 0x22 # s @ [CHR 0x22]"

definition granted_permissions :: "string list \<Rightarrow> string list" where
  "granted_permissions permissions = (if permissions = [] then [''read_all''] else permissions)"

definition cmd_generate_token ::
  "(string \<Rightarrow> hash) \<Rightarrow> urandom \<Rightarrow> string \<Rightarrow> string list \<Rightarrow> nat \<Rightarrow> string option \<Rightarrow> result" where
  "cmd_generate_token sha256 ur name permissions secret_bytes explicit =
     (case (case explicit of Some s \<Rightarrow> Inr s | None \<Rightarrow> random_secret ur secret_bytes) of
        Inl msg \<Rightarrow> (Failure, [Err (''error: '' @ msg)], [])
      | Inr secret \<Rightarrow>
          let hash = sha256_hex sha256 secret;
              perms = join '', '' (map quoted (granted_permissions permissions))
          in (Success,
              [Out (''secret:      '' @ secret), Out (''secret_hash: '' @ hash), Out [],
               Out ''Append this to the file referenced by [security].token_file (e.g. /etc/abora/auth.toml):'',
               Out ''  [[tokens]]'', Out (''  name = '' @ quoted name), Out (''  permissions = ['' @ perms @ '']''),
               Out (''  secret_hash = '' @ quoted hash), Out [],
               Out ''note: the secret is shown only once. The daemon stores hashes only.''], []))"

definition cli_main ::
  "('x, 'e) cli_env \<Rightarrow> (string \<Rightarrow> hash) \<Rightarrow> urandom \<Rightarrow> command \<Rightarrow> disk \<Rightarrow> result" where
  "cli_main env sha256 ur cmd d = (case cmd of
     CmdVersion \<Rightarrow> cmd_version
   | CmdStatus url token \<Rightarrow> cmd_status env url token d
   | CmdUpdates url token json c \<Rightarrow> cmd_updates env url token json c d
   | CmdConfigCheck p \<Rightarrow> cmd_config_check env p d
   | CmdGenerateToken name permissions n secret \<Rightarrow> cmd_generate_token sha256 ur name permissions n secret)"


section \<open>Facts\<close>

lemma cli_hex_encode_eq: "cli_hex_encode bs = hex_encode bs"
proof -
  have "HEX ! unat (drop_bit 4 b) = hex_digit (unat b div 16)" "HEX ! unat (and b 0x0F) = hex_digit (unat b mod 16)" for b :: u8
    using HEX_nth nibble_bounds nibbles by metis+
  then show ?thesis by (simp add: cli_hex_encode_def hex_encode_def)
qed

lemma hex_encode_digits: "c \<in> set (hex_encode bs) \<Longrightarrow> from_hex_digit c \<noteq> None"
proof -
  assume "c \<in> set (hex_encode bs)"
  then obtain b :: u8 where "c = hex_digit (unat b div 16) \<or> c = hex_digit (unat b mod 16)"
    by (auto simp: hex_encode_def)
  then show ?thesis using from_hex_digit_hex_digit nibble_bounds by (metis option.distinct(1))
qed

lemma random_secret_hex:
  assumes "random_secret ur n = Inr s" "\<And>bs. ur_read ur n = Inr bs \<Longrightarrow> length bs = n"
  shows "length s = 2 * n \<and> 16 \<le> n \<and> n \<le> 128 \<and> (\<forall>c \<in> set s. from_hex_digit c \<noteq> None)"
  using assms hex_encode_digits
  by (fastforce simp: random_secret_def cli_hex_encode_eq length_hex_encode split: if_splits option.splits sum.splits)

lemma call_json_calls: "call_json env m url token calls = (r, calls') \<Longrightarrow>
   calls' = calls @ [\<lparr>ca_method = (if m = ''POST'' then ''POST'' else ''GET''), ca_url = url,
     ca_bearer = map_option (\<lambda>t. ''Bearer '' @ t) token\<rparr>]"
  by (simp add: call_json_def Let_def)

lemma call_json_Inr: "call_json env m url token calls = (Inr v, calls') \<Longrightarrow>
   \<exists>status text. ce_reply env calls' = Reply status (Inr text) \<and> status < 400 \<and> ce_from_str env text = Inr v"
  by (auto simp: call_json_def Let_def map_err_def split: reply.splits sum.splits if_splits)

lemma confirm_yes: "confirm env yes = (os, True) \<longleftrightarrow>
   yes \<and> os = [] \<or> \<not> yes \<and> ce_terminal env \<and> trim (ce_input env) \<in> {''y'', ''Y'', ''yes'', ''YES''} \<and>
     os = [Ask ''Apply these updates now? [y/N] '']"
  by (auto simp: confirm_def)

lemma cli_apply_updates_cases:
  assumes "cli_apply_updates env base token dry_run yes json calls = (x, outs, calls')"
  obtains (plan_failed) e where "call_json env ''POST'' (base @ ''/api/v1/updates/apply?dry_run=true'') token calls = (Inl e, calls')"
      "x = Failure"
  | (planned) plan where "call_json env ''POST'' (base @ ''/api/v1/updates/apply?dry_run=true'') token calls = (Inr plan, calls')"
      "x = Success \<longleftrightarrow> dry_run \<and> as_bool (jindex plan ''permitted'') = Some True"
  | (asked) plan calls1 r where "call_json env ''POST'' (base @ ''/api/v1/updates/apply?dry_run=true'') token calls = (Inr plan, calls1)"
      "as_bool (jindex plan ''permitted'') = Some True" "\<not> dry_run" "snd (confirm env yes)"
      "call_json env ''POST'' (base @ ''/api/v1/updates/apply'') token calls1 = (r, calls')"
      "x = Success \<longleftrightarrow> (\<exists>v. r = Inr v)"
proof -
  obtain r1 calls1 where c1: "call_json env ''POST'' (base @ ''/api/v1/updates/apply?dry_run=true'') token calls = (r1, calls1)"
    by fastforce
  obtain os ok where q: "confirm env yes = (os, ok)" by fastforce
  obtain r2 calls2 where c2: "call_json env ''POST'' (base @ ''/api/v1/updates/apply'') token calls1 = (r2, calls2)"
    by fastforce
  show ?thesis
  proof (cases r1)
    case (Inl e)
    then show ?thesis using assms c1 plan_failed by (simp add: cli_apply_updates_def updates_error_def)
  next
    case (Inr plan)
    note run = assms [unfolded cli_apply_updates_def c1 Inr sum.case prod.case Let_def q c2]
    show ?thesis
    proof (cases "as_bool (jindex plan ''permitted'') = Some True \<and> \<not> dry_run \<and> ok")
      case True
      then show ?thesis using run c1 Inr c2 q asked by (cases r2) (simp_all add: updates_error_def)
    next
      case False
      then show ?thesis using run c1 Inr planned by (auto split: if_splits)
    qed
  qed
qed

lemma as_u64_show: "as_u64 (JNum (show_u64 n)) = Some (unat n)"
  using unat_le_u64_max [of n]
  by (simp add: as_u64_def show_u64_def show_nat_digits parse_show_nat del: show_nat.simps)


text \<open>The form \<^verbatim>\<open>serde\<close> derives for a version.\<close>

definition version_json :: "version \<Rightarrow> json" where
  "version_json v =
     JObj [''major'' \<mapsto> JNum (show_u64 (v_major v)), ''minor'' \<mapsto> JNum (show_u64 (v_minor v)),
       ''patch'' \<mapsto> JNum (show_u64 (v_patch v)),
       ''prerelease'' \<mapsto> (case v_prerelease v of Some s \<Rightarrow> JStr s | None \<Rightarrow> JNull),
       ''build'' \<mapsto> (case v_build v of Some s \<Rightarrow> JStr s | None \<Rightarrow> JNull)]"

lemma version_json_index:
  "jindex (version_json v) ''major'' = JNum (show_u64 (v_major v))"
  "jindex (version_json v) ''minor'' = JNum (show_u64 (v_minor v))"
  "jindex (version_json v) ''patch'' = JNum (show_u64 (v_patch v))"
  "as_str (jindex (version_json v) ''prerelease'') = v_prerelease v"
  "as_str (jindex (version_json v) ''build'') = v_build v"
  by (simp_all add: version_json_def jindex_def jget_def as_str_def split: option.splits)

section \<open>Properties\<close>

text \<open>C35. The client asks before it acts. \<^verbatim>\<open>abora updates apply\<close> sends the dry run and then at most one request that
  changes the system. That one is sent only when it is not a dry run, the daemon answered the plan
  with \<^verbatim>\<open>permitted\<close>, and the user said yes, on the command line or at a terminal. Success means
  that what was asked for, the plan or the apply, was answered with a status below 400.\<close>

theorem apply_asks_first:
  assumes "cli_apply_updates env base token dry_run yes json [] = (x, outs, calls)"
    and "post = (\<lambda>url. \<lparr>ca_method = ''POST'', ca_url = base @ url, ca_bearer = map_option (\<lambda>t. ''Bearer '' @ t) token\<rparr>)"
    and "plan = post ''/api/v1/updates/apply?dry_run=true''" and "act = post ''/api/v1/updates/apply''"
  shows "(calls = [plan] \<or> calls = [plan, act]) \<and>
     (act \<in> set calls \<longrightarrow> \<not> dry_run \<and>
        (\<exists>status text v. ce_reply env [plan] = Reply status (Inr text) \<and> status < 400 \<and>
           ce_from_str env text = Inr v \<and> as_bool (jindex v ''permitted'') = Some True) \<and>
        (yes \<or> ce_terminal env \<and> trim (ce_input env) \<in> {''y'', ''Y'', ''yes'', ''YES''})) \<and>
     (x = Success \<longrightarrow> calls = (if dry_run then [plan] else [plan, act]) \<and>
        (\<exists>status text. ce_reply env calls = Reply status (Inr text) \<and> status < 400))"
proof -
  have ne: "plan \<noteq> act" by (simp add: assms(2-4))
  from assms(1) show ?thesis
  proof (cases rule: cli_apply_updates_cases)
    case (plan_failed e)
    have "calls = [plan]" using call_json_calls [OF plan_failed(1)] by (simp add: assms(2,3))
    with plan_failed(2) ne show ?thesis by auto
  next
    case (planned v)
    have "calls = [plan]" using call_json_calls [OF planned(1)] by (simp add: assms(2,3))
    with planned(2) call_json_Inr [OF planned(1)] ne show ?thesis by auto
  next
    case (asked v calls1 r)
    have c1: "calls1 = [plan]" using call_json_calls [OF asked(1)] by (simp add: assms(2,3))
    then have c: "calls = [plan, act]" using call_json_calls [OF asked(5)] by (simp add: assms(2,4))
    have "yes \<or> ce_terminal env \<and> trim (ce_input env) \<in> {''y'', ''Y'', ''yes'', ''YES''}"
      using asked(4) confirm_yes [of env yes "fst (confirm env yes)"] by (cases "confirm env yes") auto
    moreover have "\<exists>status text. ce_reply env calls = Reply status (Inr text) \<and> status < 400" if "x = Success"
      using that asked(5,6) call_json_Inr by fastforce
    ultimately show ?thesis using asked(2,3) call_json_Inr [OF asked(1)] c c1 by auto
  qed
qed


text \<open>The version the client prints from the daemon's answer is the one the framework itself prints, for every
  version.\<close>

theorem version_shown_as_printed: "version_str (version_json v) = version_display v"
  by (simp add: version_str_def version_json_index as_u64_show version_display_def) (simp add: show_u64_def)


text \<open>The plan lists every package once, in the daemon's order, at most six in a row; the summary of the updates
  never has more than 24 lines.\<close>

lemma format_plan_rows:
  "\<exists>rows. format_plan plan = (show_nat (length (plan_packages plan)) @ '' package(s) would be upgraded:'') #
       map (\<lambda>row. ''  '' @ join '' '' row) rows \<and>
     concat rows = plan_packages plan \<and> (\<forall>row \<in> set rows. row \<noteq> [] \<and> length row \<le> 6)"
  using chunk_length [of _ 6 "plan_packages plan"]
  by (intro exI [of _ "chunks 6 (plan_packages plan)"]) (auto simp: format_plan_def Let_def concat_chunks)

lemma format_updates_short: "length (format_updates v) \<le> 24"
proof -
  have "length (policy_lines v) \<le> 1" "length (available_lines v) \<le> 13" "length (history_lines v) \<le> 7"
    by (simp_all add: policy_lines_def available_lines_def history_lines_def SHOW_AVAILABLE_def SHOW_HISTORY_def Let_def
        split: option.split json.split)
  then show ?thesis by (simp add: format_updates_def)
qed

section \<open>Concrete runs\<close>

definition demo_cli :: "(unit, string) cli_env" where
  "demo_cli = \<lparr>ce_token_var = None, ce_url_var = None, ce_config_var = None,
     ce_reply = (\<lambda>_. Reply 200 (Inr ''{}'')),
     ce_from_str = (\<lambda>_. Inr (JObj [''permitted'' \<mapsto> JBool True, ''packages'' \<mapsto> JArr [JStr ''a'']])),
     ce_pretty = (\<lambda>_. None), ce_terminal = True, ce_input = ''y'', ce_io = (\<lambda>_. None),
     ce_lib = \<lparr>cl_toml = (\<lambda>_. Inl ''no''), cl_show = id, cl_builtin = sunday_config\<rparr>\<rparr>"

theorem apply_asks_first_witness:
  "\<exists>outs calls. cli_apply_updates demo_cli ''http://h'' (Some ''key'') False False False [] = (Success, outs, calls) \<and>
     map ca_url calls = [''http://h/api/v1/updates/apply?dry_run=true'', ''http://h/api/v1/updates/apply'']"
proof -
  let ?post = "\<lambda>url. \<lparr>ca_method = ''POST'', ca_url = ''http://h'' @ url, ca_bearer = map_option (\<lambda>t. ''Bearer '' @ t) (Some ''key'')\<rparr>"
  have "trim ''y'' = ''y''" by (rule trim_plain) (simp_all add: plain_char_def)
  then have "fst (cli_apply_updates demo_cli ''http://h'' (Some ''key'') False False False []) = Success"
    by (simp add: cli_apply_updates_def call_json_def demo_cli_def confirm_def as_bool_def jindex_def jget_def Let_def)
  then obtain outs calls where c: "cli_apply_updates demo_cli ''http://h'' (Some ''key'') False False False [] = (Success, outs, calls)"
    by (metis prod.collapse)
  have "calls = [?post ''/api/v1/updates/apply?dry_run=true'', ?post ''/api/v1/updates/apply'']"
    using apply_asks_first [OF c refl refl refl] by simp
  with c show ?thesis by simp
qed


end
