(* ===== verification/Boot.thy ===== *)
theory Boot
  imports FileSys
begin

text \<open>
  \<^verbatim>\<open>boot/abora-boot\<close>: the boot screen. A canvas mirrors the frame buffer byte by byte, text and a logo are
  drawn into it, and rows are written out. An index out of range is a panic, \<^term>\<open>None\<close>. Bytes are
  words; \<^verbatim>\<open>usize\<close> is a natural number, with its wrap-around (the release build) wherever a file or the
  size of the screen decides how large a number gets.
\<close>

section \<open>Machine arithmetic and loops\<close>

definition umul :: "nat \<Rightarrow> nat \<Rightarrow> nat" where "umul a b = a * b mod 2 ^ 64"
definition uadd :: "nat \<Rightarrow> nat \<Rightarrow> nat" where "uadd a b = (a + b) mod 2 ^ 64"
definition usub :: "nat \<Rightarrow> nat \<Rightarrow> nat" where "usub a b = (a + 2 ^ 64 - b) mod 2 ^ 64"

lemma umul_small: "a * b < 2 ^ 64 \<Longrightarrow> umul a b = a * b"
  by (simp add: umul_def)

lemma uadd_small: "a + b < 2 ^ 64 \<Longrightarrow> uadd a b = a + b"
  by (simp add: uadd_def)

lemma usub_small: "b \<le> a \<Longrightarrow> a < 2 ^ 64 \<Longrightarrow> usub a b = a - b"
  by (simp only: usub_def Nat.add_diff_assoc2 [symmetric] mod_add_self2 mod_less less_imp_diff_less)

text \<open>A loop whose body may panic.\<close>

fun each :: "('a \<Rightarrow> 's \<Rightarrow> 's option) \<Rightarrow> 'a list \<Rightarrow> 's \<Rightarrow> 's option" where
  "each f [] s = Some s"
| "each f (x # xs) s = Option.bind (f x s) (each f xs)"

lemma each_append: "each f (xs @ ys) s = Option.bind (each f xs s) (each f ys)"
  by (induction xs arbitrary: s) (auto split: bind_split)

lemma each_inv:
  assumes "P s" "\<And>x t. x \<in> set xs \<Longrightarrow> P t \<Longrightarrow> \<exists>u. f x t = Some u \<and> P u"
  shows "\<exists>t. each f xs s = Some t \<and> P t"
  using assms
proof (induction xs arbitrary: s)
  case (Cons x xs)
  then obtain u where "f x s = Some u" "P u" by (metis list.set_intros(1))
  with Cons.IH [OF \<open>P u\<close>] Cons.prems(2) show ?case by simp
qed simp

section \<open>Font\<close>

record font =
  ft_height :: nat
  ft_glyphs :: "u8 list"
  ft_count :: nat

definition font_width :: nat where "font_width = 8"

definition font_load :: "string + u8 list \<Rightarrow> string + font" where
  "font_load file_read = (case file_read of
     Inl e \<Rightarrow> Inl e
   | Inr data \<Rightarrow>
       if length data < 4 \<or> data ! 0 \<noteq> 0x36 \<or> data ! 1 \<noteq> 0x04 then Inl ''not a PSF1 font''
       else
         let count = (if and (data ! 2) 1 \<noteq> 0 then 512 else 256);
             height = unat (data ! 3);
             need = 4 + count * height
         in if height = 0 \<or> length data < need then Inl ''truncated PSF1 font''
            else Inr \<lparr>ft_height = height, ft_glyphs = take (need - 4) (drop 4 data), ft_count = count\<rparr>)"

text \<open>Characters are code points.\<close>

definition glyph :: "font \<Rightarrow> nat \<Rightarrow> u8 list option" where
  "glyph f c =
     (let i = (if min 256 (ft_count f) \<le> c \<or> c < 32 then 63 else c)
      in if (i + 1) * ft_height f \<le> length (ft_glyphs f)
         then Some (take (ft_height f) (drop (i * ft_height f) (ft_glyphs f))) else None)"

section \<open>Logo\<close>

record logo =
  lg_width :: nat
  lg_height :: nat
  lg_rgba :: "u8 list"

definition u32_from_le :: "u8 list \<Rightarrow> nat" where
  "u32_from_le bs = (\<Sum>i<4. unat (bs ! i) * 256 ^ i)"

definition logo_load :: "path \<Rightarrow> string + u8 list \<Rightarrow> string + logo" where
  "logo_load p file_read = (case file_read of
     Inl e \<Rightarrow> Inl (p @ '': '' @ e)
   | Inr data \<Rightarrow>
       if length data < 12 \<or> take 4 data \<noteq> [0x41, 0x42, 0x52, 0x31] then Inl ''not an ABR1 logo file''
       else
         let width = u32_from_le (take 4 (drop 4 data)); height = u32_from_le (take 4 (drop 8 data))
         in if width = 0 \<or> height = 0 \<or> length data \<noteq> uadd 12 (umul (umul width height) 4)
            then Inl ''logo size does not match its header''
            else Inr \<lparr>lg_width = width, lg_height = height, lg_rgba = drop 12 data\<rparr>)"

text \<open>A texel, premultiplied: three colours times alpha, and alpha times 255.\<close>

definition texel :: "logo \<Rightarrow> nat \<Rightarrow> nat \<Rightarrow> nat list option" where
  "texel l x y =
     (let i = (min y (lg_height l - 1) * lg_width l + min x (lg_width l - 1)) * 4; px = (\<lambda>k. unat (lg_rgba l ! (i + k)))
      in if i + 3 < length (lg_rgba l) then Some [px 0 * px 3, px 1 * px 3, px 2 * px 3, px 3 * 255] else None)"

definition source_coord :: "nat \<Rightarrow> nat \<Rightarrow> nat \<Rightarrow> nat" where
  "source_coord d extent box = nat (max 0 (int ((2 * d + 1) * extent * 128 div box) - 128))"

text \<open>The weights are those of the code: the bottom row is mixed with \<^verbatim>\<open>fy\<close>.\<close>

definition mix :: "nat \<Rightarrow> nat \<Rightarrow> nat \<Rightarrow> nat \<Rightarrow> nat \<Rightarrow> nat \<Rightarrow> nat" where
  "mix fx fy t00 t10 t01 t11 =
     (let upper = t00 * (256 - fx) + t10 * fx; lower = t01 * (256 - fy) + t11 * fy
      in (upper * (256 - fy) + lower * fy) div 2 ^ 16)"

definition unmultiply :: "nat list \<Rightarrow> nat \<times> nat \<times> nat \<times> nat" where
  "unmultiply out =
     (let alpha = out ! 3 div 255; un = (\<lambda>v. min (v div alpha) 255)
      in if alpha = 0 then (0, 0, 0, 0) else (un (out ! 0), un (out ! 1), un (out ! 2), min alpha 255))"

definition sample :: "logo \<Rightarrow> nat \<Rightarrow> nat \<Rightarrow> nat \<Rightarrow> nat \<Rightarrow> (nat \<times> nat \<times> nat \<times> nat) option" where
  "sample l dx dy dw dh =
     (if dw = 0 \<or> dh = 0 then None
      else
        let sx = source_coord dx (lg_width l) dw; sy = source_coord dy (lg_height l) dh;
            x0 = sx div 256; y0 = sy div 256; fx = sx mod 256; fy = sy mod 256
        in (case (texel l x0 y0, texel l (x0 + 1) y0, texel l x0 (y0 + 1), texel l (x0 + 1) (y0 + 1)) of
              (Some t00, Some t10, Some t01, Some t11) \<Rightarrow>
                Some (unmultiply (map (\<lambda>c. mix fx fy (t00 ! c) (t10 ! c) (t01 ! c) (t11 ! c)) [0, 1, 2, 3]))
            | _ \<Rightarrow> None))"


section \<open>Canvas\<close>

type_synonym rgb = "u8 \<times> u8 \<times> u8"

record canvas =
  cv_width :: nat
  cv_height :: nat
  cv_stride :: nat
  cv_pixels :: "u8 list"

text \<open>\<^verbatim>\<open>Canvas::open\<close>: what reading a file of sysfs gives, and whether the device opens. The value \<^term>\<open>None\<close> is
  the panic of an allocation that is too large.\<close>

definition sys_number :: "string \<Rightarrow> string \<Rightarrow> string + nat" where
  "sys_number s e = (case parse_uint usize_max s of Some n \<Rightarrow> Inr n | None \<Rightarrow> Inl e)"

definition canvas_open :: "(string \<Rightarrow> string + string) \<Rightarrow> (string \<Rightarrow> string option) \<Rightarrow> string \<Rightarrow> (string + canvas) option" where
  "canvas_open file_read dev name =
     (let sys = ''/sys/class/graphics/'' @ name;
          read = (\<lambda>f. map_err (\<lambda>e. sys @ ''/'' @ f @ '': '' @ e) (file_read (sys @ ''/'' @ f)))
      in case read ''virtual_size'' of Inl e \<Rightarrow> Some (Inl e) | Inr extent \<Rightarrow>
         (case split_once (CHR '','') (trim extent) of None \<Rightarrow> Some (Inl ''bad virtual_size'') | Some (w, h) \<Rightarrow>
         (case sys_number w ''bad width'' of Inl e \<Rightarrow> Some (Inl e) | Inr width \<Rightarrow>
         (case sys_number h ''bad height'' of Inl e \<Rightarrow> Some (Inl e) | Inr height \<Rightarrow>
         (case read ''stride'' of Inl e \<Rightarrow> Some (Inl e) | Inr st \<Rightarrow>
         (case sys_number (trim st) ''bad stride'' of Inl e \<Rightarrow> Some (Inl e) | Inr stride \<Rightarrow>
         (case read ''bits_per_pixel'' of Inl e \<Rightarrow> Some (Inl e) | Inr bs \<Rightarrow>
         (case sys_number (trim bs) ''bad bits_per_pixel'' of Inl e \<Rightarrow> Some (Inl e) | Inr bpp \<Rightarrow>
           if bpp \<noteq> 32 then Some (Inl (show_nat bpp @ '' bits per pixel is not supported (need 32)''))
           else if width = 0 \<or> height = 0 \<or> stride < umul width 4 then Some (Inl ''nonsensical framebuffer geometry'')
           else (case dev (''/dev/'' @ name) of
               Some e \<Rightarrow> Some (Inl (''/dev/'' @ name @ '': '' @ e))
             | None \<Rightarrow> if 2 ^ 63 \<le> umul stride height then None
                 else Some (Inr \<lparr>cv_width = width, cv_height = height, cv_stride = stride,
                   cv_pixels = replicate (umul stride height) 0\<rparr>))))))))))"

definition put_pixel :: "rgb \<Rightarrow> nat \<Rightarrow> nat \<Rightarrow> canvas \<Rightarrow> canvas option" where
  "put_pixel c x y cv =
     (if x < cv_width cv \<and> y < cv_height cv then
        let i = y * cv_stride cv + x * 4
        in if i + 3 < length (cv_pixels cv)
           then Some (cv\<lparr>cv_pixels := (cv_pixels cv)[i := snd (snd c), i + 1 := fst (snd c), i + 2 := fst c, i + 3 := 0xFF]\<rparr>)
           else None
      else Some cv)"

definition get_pixel :: "nat \<Rightarrow> nat \<Rightarrow> canvas \<Rightarrow> rgb option" where
  "get_pixel x y cv =
     (let i = y * cv_stride cv + x * 4
      in if i + 2 < length (cv_pixels cv)
         then Some (cv_pixels cv ! (i + 2), cv_pixels cv ! (i + 1), cv_pixels cv ! i) else None)"

definition fill_rect :: "nat \<Rightarrow> nat \<Rightarrow> nat \<Rightarrow> nat \<Rightarrow> rgb \<Rightarrow> canvas \<Rightarrow> canvas option" where
  "fill_rect x y w h c cv =
     each (\<lambda>row. each (\<lambda>col. put_pixel c col row) [x..<min (uadd x w) (cv_width cv)])
       [y..<min (uadd y h) (cv_height cv)] cv"

definition draw_glyph :: "u8 list \<Rightarrow> nat \<Rightarrow> nat \<Rightarrow> nat \<Rightarrow> rgb \<Rightarrow> canvas \<Rightarrow> canvas option" where
  "draw_glyph rows scale px y color =
     each (\<lambda>(gy, bits). each (\<lambda>gx cv.
         if and bits (drop_bit gx 0x80) \<noteq> 0
         then fill_rect (px + gx * scale) (y + gy * scale) scale scale color cv else Some cv) [0..<font_width])
       (enumerate 0 rows)"

fun draw_text :: "font \<Rightarrow> nat \<Rightarrow> nat \<Rightarrow> nat \<Rightarrow> nat list \<Rightarrow> rgb \<Rightarrow> canvas \<Rightarrow> canvas option" where
  "draw_text f scale px y [] color cv = Some cv"
| "draw_text f scale px y (c # cs) color cv =
     (if cv_width cv < px + font_width * scale then Some cv
      else Option.bind (glyph f c) (\<lambda>rows.
           Option.bind (draw_glyph rows scale px y color cv)
             (draw_text f scale (px + font_width * scale) y cs color)))"

text \<open>All arguments are bytes, so a blended byte is one.\<close>

definition blend :: "nat \<Rightarrow> nat \<Rightarrow> u8 \<Rightarrow> u8" where
  "blend a f u = of_nat ((f * a + unat u * (255 - a)) div 255)"

definition blit_pixel :: "logo \<Rightarrow> nat \<Rightarrow> nat \<Rightarrow> nat \<Rightarrow> nat \<Rightarrow> nat \<Rightarrow> nat \<Rightarrow> canvas \<Rightarrow> canvas option" where
  "blit_pixel l x y w h dy dx cv = (case sample l dx dy w h of
     None \<Rightarrow> None
   | Some (r, g, b, a) \<Rightarrow>
       if a = 0 then Some cv
       else if uadd x dx < cv_width cv \<and> uadd y dy < cv_height cv then
         (case get_pixel (uadd x dx) (uadd y dy) cv of
            None \<Rightarrow> None
          | Some (ur, ug, ub) \<Rightarrow> put_pixel (blend a r ur, blend a g ug, blend a b ub) (uadd x dx) (uadd y dy) cv)
       else Some cv)"

definition blit_scaled :: "logo \<Rightarrow> nat \<Rightarrow> nat \<Rightarrow> nat \<Rightarrow> nat \<Rightarrow> canvas \<Rightarrow> canvas option" where
  "blit_scaled l x y w h = each (\<lambda>dy. each (blit_pixel l x y w h dy) [0..<w]) [0..<h]"

text \<open>Rows written to the device: where, and which bytes.\<close>

definition flush_rows :: "nat \<Rightarrow> nat \<Rightarrow> canvas \<Rightarrow> (nat \<times> u8 list) option option" where
  "flush_rows first bottom cv =
     (let b = min bottom (cv_height cv)
      in if b \<le> first then Some None
         else if b * cv_stride cv \<le> length (cv_pixels cv)
         then Some (Some (first * cv_stride cv, take ((b - first) * cv_stride cv) (drop (first * cv_stride cv) (cv_pixels cv))))
         else None)"

section \<open>Screen\<close>

definition BACKGROUND :: rgb where "BACKGROUND = (0, 0, 0)"
definition TEXT_COLOR :: rgb where "TEXT_COLOR = (0xD0, 0xD0, 0xD0)"
definition MAX_LINES :: nat where "MAX_LINES = 500"

record screen =
  bs_canvas :: canvas
  bs_font :: font
  bs_x :: nat
  bs_y :: nat
  bs_w :: nat
  bs_h :: nat
  bs_lines :: "nat list list"

definition MARGIN :: nat where "MARGIN = 16"

text \<open>The width of the text area, and the logo drawn to its right.\<close>

definition place_logo :: "logo option \<Rightarrow> canvas \<Rightarrow> (nat \<times> canvas) option" where
  "place_logo lg cv =
     (let w = cv_width cv; sz = min (min (max (cv_height cv div 3) 96) 320) (w div 3)
      in case lg of
           None \<Rightarrow> Some (usub w (2 * MARGIN), cv)
         | Some l \<Rightarrow> map_option (Pair (usub (usub w (3 * MARGIN)) sz))
             (blit_scaled l (usub (usub w MARGIN) sz) MARGIN sz sz cv))"

definition screen_new :: "canvas \<Rightarrow> font \<Rightarrow> logo option \<Rightarrow> screen option" where
  "screen_new cv f lg =
     Option.bind (fill_rect 0 0 (cv_width cv) (cv_height cv) BACKGROUND cv) (\<lambda>cv.
     Option.bind (place_logo lg cv) (\<lambda>(text_w, cv).
     Option.bind (flush_rows 0 (cv_height cv) cv) (\<lambda>_.
       Some \<lparr>bs_canvas = cv, bs_font = f, bs_x = MARGIN, bs_y = MARGIN, bs_w = text_w,
         bs_h = usub (cv_height cv) (2 * MARGIN), bs_lines = []\<rparr>)))"

definition wrap_line :: "nat \<Rightarrow> nat list \<Rightarrow> nat list list" where
  "wrap_line cols text =
     (let chars = map (\<lambda>c. if c = 9 then 32 else c) text
      in if chars = [] then [[]]
         else (case chunks cols chars of [] \<Rightarrow> [] | s # rest \<Rightarrow> s # map (\<lambda>r. [32, 32] @ r) rest))"

definition screen_push :: "nat list \<Rightarrow> screen \<Rightarrow> screen" where
  "screen_push text s =
     (let cols = max (bs_w s div font_width) 8; all = bs_lines s @ wrap_line cols text
      in s\<lparr>bs_lines := drop (length all - MAX_LINES) all\<rparr>)"

definition screen_draw :: "screen \<Rightarrow> (screen \<times> (nat \<times> u8 list) option) option" where
  "screen_draw s =
     (let ch = ft_height (bs_font s); rows = bs_h s div ch; skip = length (bs_lines s) - rows
      in if ch = 0 then None
         else Option.bind (fill_rect (bs_x s) (bs_y s) (bs_w s) (bs_h s) BACKGROUND (bs_canvas s)) (\<lambda>cv.
              Option.bind (each (\<lambda>(row, text). draw_text (bs_font s) 1 (bs_x s) (bs_y s + row * ch) text TEXT_COLOR)
                  (enumerate 0 (drop skip (bs_lines s))) cv) (\<lambda>cv.
              map_option (Pair (s\<lparr>bs_canvas := cv\<rparr>)) (flush_rows (bs_y s) (uadd (bs_y s) (bs_h s)) cv))))"


section \<open>The log and the loop\<close>

datatype source = Kernel | Init

record boot_args =
  ba_fifo :: path
  ba_logo :: path
  ba_font :: path
  ba_fb :: string

definition BOOT_USAGE :: string where
  "BOOT_USAGE = ''usage: abora-boot [--fifo PATH] [--logo FILE] [--font FILE] [--fb fb0]''"

fun parse_boot_args_from :: "boot_args \<Rightarrow> string list \<Rightarrow> boot_args args_result" where
  "parse_boot_args_from a [] = ArgsOk a"
| "parse_boot_args_from a (flag # it) =
     (let with_value = (\<lambda>set. case it of [] \<Rightarrow> ArgsError (flag @ '' needs a value'')
            | v # it' \<Rightarrow> parse_boot_args_from (set v) it')
      in if flag = ''--fifo'' then with_value (\<lambda>v. a\<lparr>ba_fifo := v\<rparr>)
         else if flag = ''--logo'' then with_value (\<lambda>v. a\<lparr>ba_logo := v\<rparr>)
         else if flag = ''--font'' then with_value (\<lambda>v. a\<lparr>ba_font := v\<rparr>)
         else if flag = ''--fb'' then with_value (\<lambda>v. a\<lparr>ba_fb := v\<rparr>)
         else if flag = ''--help'' \<or> flag = ''-h'' then ArgsExit BOOT_USAGE
         else ArgsError (''unknown argument `'' @ flag @ ''`''))"

definition parse_boot_args :: "string list \<Rightarrow> boot_args args_result" where
  "parse_boot_args argv = parse_boot_args_from \<lparr>ba_fifo = ''/run/boot.fifo'', ba_logo = ''/usr/share/abora/logo.rgba'',
     ba_font = ''/usr/share/abora/font.psf'', ba_fb = ''fb0''\<rparr> argv"

definition pad_left :: "nat \<Rightarrow> string \<Rightarrow> string" where
  "pad_left n s = replicate (n - length s) (CHR '' '') @ s"

definition kmsg_line :: "nat \<Rightarrow> string \<Rightarrow> string" where
  "kmsg_line usec message =
     ''['' @ pad_left 5 (show_nat (usec div 1000000)) @ ''.'' @ pad0 3 (usec div 1000 mod 1000) @ ''] '' @ trim_end message"

definition parse_kmsg :: "string \<Rightarrow> string option" where
  "parse_kmsg record = (case lines record of
     [] \<Rightarrow> None
   | first # _ \<Rightarrow> (case split_once (CHR '';'') first of
       None \<Rightarrow> None
     | Some (meta, message) \<Rightarrow> (case drop 2 (split_char (CHR '','') meta) of
         [] \<Rightarrow> None
       | usec # _ \<Rightarrow> map_option (\<lambda>n. kmsg_line n message) (parse_uint u64_max usec))))"

text \<open>The code points of a text, as \<^verbatim>\<open>chars\<close> gives them.\<close>

definition code_point :: "string \<Rightarrow> nat" where
  "code_point s = (case map byte s of
     [a] \<Rightarrow> a
   | [a, b] \<Rightarrow> (a mod 32) * 64 + b mod 64
   | [a, b, c] \<Rightarrow> (a mod 16) * 4096 + (b mod 64) * 64 + c mod 64
   | [a, b, c, d] \<Rightarrow> (a mod 8) * 262144 + (b mod 64) * 4096 + (c mod 64) * 64 + d mod 64
   | _ \<Rightarrow> 0)"

function chars_of :: "string \<Rightarrow> nat list" where
  "chars_of s = (if s = [] then [] else code_point (take (max 1 (utf8_char s)) s) # chars_of (drop (max 1 (utf8_char s)) s))"
  by pat_completeness auto
termination by (relation "measure length") auto

declare chars_of.simps [simp del]

text \<open>What a start makes of font, frame buffer and logo; a logo that does not load is left out.\<close>

definition boot_start ::
  "path \<Rightarrow> path \<Rightarrow> string + u8 list \<Rightarrow> (string + canvas) option \<Rightarrow> string + u8 list \<Rightarrow> (string + screen option) option" where
  "boot_start font_path logo_path font_read opened logo_read = (case font_load font_read of
     Inl e \<Rightarrow> Some (Inl (''font '' @ font_path @ '': '' @ e))
   | Inr f \<Rightarrow> (case opened of
       None \<Rightarrow> None
     | Some (Inl _) \<Rightarrow> Some (Inr None)
     | Some (Inr cv) \<Rightarrow> map_option (Inr \<circ> Some) (screen_new cv f (result_ok (logo_load logo_path logo_read)))))"

text \<open>One turn for the lines of one batch: what is echoed to the console, the screen, what is written out.\<close>

definition boot_turn ::
  "(source \<times> string) list \<Rightarrow> screen option \<Rightarrow> (string list \<times> screen option \<times> (nat \<times> u8 list) option) option" where
  "boot_turn batch scr =
     (let echo = map snd (filter (\<lambda>(src, _). src = Init) batch)
      in case scr of
           None \<Rightarrow> Some (echo, None, None)
         | Some s \<Rightarrow> map_option (\<lambda>(s, out). (echo, Some s, out))
             (screen_draw (fold (\<lambda>(_, text). screen_push (chars_of text)) batch s)))"

fun boot_run :: "(source \<times> string) list list \<Rightarrow> screen option \<Rightarrow> (string list \<times> screen option) option" where
  "boot_run [] scr = Some ([], scr)"
| "boot_run (b # bs) scr = (case boot_turn b scr of
     None \<Rightarrow> None
   | Some (echo, scr', _) \<Rightarrow> map_option (\<lambda>(echoes, last). (echo @ echoes, last)) (boot_run bs scr'))"


section \<open>Drawing stays inside the canvas\<close>

definition wf_canvas :: "canvas \<Rightarrow> bool" where
  "wf_canvas cv \<longleftrightarrow> cv_width cv * 4 \<le> cv_stride cv \<and> length (cv_pixels cv) = cv_stride cv * cv_height cv"

definition geometry :: "canvas \<Rightarrow> nat \<times> nat \<times> nat" where
  "geometry cv = (cv_width cv, cv_height cv, cv_stride cv)"

text \<open>The invariant of every drawing operation: what it starts from, with other pixels.\<close>

definition drawn :: "canvas \<Rightarrow> canvas \<Rightarrow> bool" where
  "drawn cv cv' \<longleftrightarrow> wf_canvas cv' \<and> geometry cv' = geometry cv"

definition draws :: "(canvas \<Rightarrow> canvas option) \<Rightarrow> bool" where
  "draws f \<longleftrightarrow> (\<forall>cv. wf_canvas cv \<longrightarrow> (\<exists>cv'. f cv = Some cv' \<and> drawn cv cv'))"

lemma drawn_refl: "wf_canvas cv \<Longrightarrow> drawn cv cv"
  by (simp add: drawn_def)

lemma drawn_trans: "drawn cv cv' \<Longrightarrow> drawn cv' cv'' \<Longrightarrow> drawn cv cv''"
  by (simp add: drawn_def)

lemma drawsD: "draws f \<Longrightarrow> drawn cv0 cv \<Longrightarrow> \<exists>cv'. f cv = Some cv' \<and> drawn cv0 cv'"
  unfolding draws_def using drawn_trans drawn_def by blast

lemma draws_each: "(\<And>x. x \<in> set xs \<Longrightarrow> draws (f x)) \<Longrightarrow> draws (each f xs)"
proof -
  assume f: "\<And>x. x \<in> set xs \<Longrightarrow> draws (f x)"
  have "\<exists>cv'. each f xs cv = Some cv' \<and> drawn cv cv'" if "wf_canvas cv" for cv
    by (rule each_inv) (use that f drawn_refl drawsD in blast)+
  then show ?thesis by (simp add: draws_def)
qed

lemma draws_Some [simp]: "draws Some"
  by (simp add: draws_def drawn_refl)

lemma offset_bound:
  assumes "wf_canvas cv" "x < cv_width cv" "y < cv_height cv"
  shows "y * cv_stride cv + x * 4 + 3 < length (cv_pixels cv)"
proof -
  have "x * 4 + 3 < cv_width cv * 4" using assms(2) by simp
  also have "\<dots> \<le> cv_stride cv" using assms(1) by (simp add: wf_canvas_def)
  finally have "y * cv_stride cv + (x * 4 + 3) < (y + 1) * cv_stride cv" by simp
  also have "\<dots> \<le> cv_height cv * cv_stride cv" using assms(3) by (intro mult_right_mono) simp_all
  finally show ?thesis using assms(1) by (simp add: wf_canvas_def mult.commute add.assoc)
qed

lemma draws_put: "draws (put_pixel c x y)"
  using offset_bound by (auto simp: draws_def put_pixel_def Let_def drawn_def wf_canvas_def geometry_def)

lemma draws_fill: "draws (fill_rect x y w h c)"
  unfolding fill_rect_def draws_def
proof (intro allI impI)
  fix cv assume "wf_canvas cv"
  have "draws (each (\<lambda>row. each (\<lambda>col. put_pixel c col row) [x..<min (uadd x w) (cv_width cv)])
      [y..<min (uadd y h) (cv_height cv)])"
    by (intro draws_each draws_put)
  with \<open>wf_canvas cv\<close> show "\<exists>cv'. each (\<lambda>row. each (\<lambda>col. put_pixel c col row) [x..<min (uadd x w) (cv_width cv)])
      [y..<min (uadd y h) (cv_height cv)] cv = Some cv' \<and> drawn cv cv'"
    by (simp add: draws_def)
qed

lemma draws_if: "draws f \<Longrightarrow> draws (\<lambda>cv. if b then f cv else Some cv)"
  by (cases b) (simp_all add: draws_def drawn_refl)

lemma draws_glyph: "draws (draw_glyph rows scale px y color)"
  unfolding draw_glyph_def
  by (rule draws_each) (auto intro!: draws_each draws_if draws_fill split: prod.split)

definition wf_font :: "font \<Rightarrow> bool" where
  "wf_font f \<longleftrightarrow> 0 < ft_height f \<and> 256 \<le> ft_count f \<and> length (ft_glyphs f) = ft_count f * ft_height f"

lemma font_load_wf: "font_load r = Inr f \<Longrightarrow> wf_font f"
  by (auto simp: font_load_def wf_font_def Let_def split: sum.splits if_splits)

lemma glyph_total: "wf_font f \<Longrightarrow> \<exists>rows. glyph f c = Some rows \<and> length rows = ft_height f"
proof -
  assume f: "wf_font f"
  define i where "i = (if min 256 (ft_count f) \<le> c \<or> c < 32 then 63 else c)"
  have "i + 1 \<le> ft_count f" using f by (auto simp: i_def wf_font_def)
  then have "(i + 1) * ft_height f \<le> ft_count f * ft_height f" by (rule mult_le_mono1)
  then have "(i + 1) * ft_height f \<le> length (ft_glyphs f)" using f by (simp only: wf_font_def)
  then show ?thesis unfolding glyph_def i_def [symmetric] by simp
qed

lemma draws_text: "wf_font f \<Longrightarrow> draws (draw_text f scale px y cps color)"
proof (induction cps arbitrary: px)
  case (Cons c cs)
  obtain rows where g: "glyph f c = Some rows" using glyph_total [OF Cons.prems] by blast
  show ?case
    unfolding draws_def
  proof (intro allI impI)
    fix cv assume "wf_canvas cv"
    then obtain cv1 where 1: "draw_glyph rows scale px y color cv = Some cv1" "drawn cv cv1"
      using draws_glyph unfolding draws_def by blast
    obtain cv2 where "draw_text f scale (px + font_width * scale) y cs color cv1 = Some cv2" "drawn cv cv2"
      using drawsD [OF Cons.IH [OF Cons.prems] 1(2)] by blast
    with 1 g \<open>wf_canvas cv\<close> show "\<exists>cv'. draw_text f scale px y (c # cs) color cv = Some cv' \<and> drawn cv cv'"
      by (auto simp: drawn_refl)
  qed
qed (simp add: draws_def drawn_refl)

definition wf_logo :: "logo \<Rightarrow> bool" where
  "wf_logo l \<longleftrightarrow> 0 < lg_width l \<and> 0 < lg_height l \<and> length (lg_rgba l) = lg_width l * lg_height l * 4"

lemma logo_load_wf:
  assumes "logo_load p r = Inr l" "lg_width l * lg_height l < 2 ^ 61"
  shows "wf_logo l"
proof -
  obtain data where d: "12 \<le> length data" "length data = uadd 12 (umul (umul (lg_width l) (lg_height l)) 4)"
    "lg_rgba l = drop 12 data" "0 < lg_width l" "0 < lg_height l"
  proof (cases r)
    case (Inr data)
    define w h where "w = u32_from_le (take 4 (drop 4 data))" and "h = u32_from_le (take 4 (drop 8 data))"
    have "(if length data < 12 \<or> take 4 data \<noteq> [0x41, 0x42, 0x52, 0x31] then Inl ''not an ABR1 logo file''
        else if w = 0 \<or> h = 0 \<or> length data \<noteq> uadd 12 (umul (umul w h) 4) then Inl ''logo size does not match its header''
        else Inr \<lparr>lg_width = w, lg_height = h, lg_rgba = drop 12 data\<rparr>) = Inr l"
      using assms(1) unfolding logo_load_def Inr sum.case Let_def w_def h_def .
    then have "l = \<lparr>lg_width = w, lg_height = h, lg_rgba = drop 12 data\<rparr>" "12 \<le> length data"
      "length data = uadd 12 (umul (umul w h) 4)" "0 < w" "0 < h"
      by (auto split: if_splits)
    then show ?thesis by (intro that [of data]) simp_all
  qed (use assms(1) in \<open>simp add: logo_load_def\<close>)
  have 1: "umul (lg_width l) (lg_height l) = lg_width l * lg_height l"
    by (rule umul_small) (use assms(2) in simp)
  define n where "n = lg_width l * lg_height l"
  have n: "n < 2 ^ 61" using assms(2) by (simp only: n_def)
  have "umul n 4 = n * 4" by (rule umul_small) (use n in simp)
  then have 2: "umul (lg_width l * lg_height l) 4 = lg_width l * lg_height l * 4" by (simp only: n_def)
  have "uadd 12 (n * 4) = 12 + n * 4" by (rule uadd_small) (use n in simp)
  then have "uadd 12 (lg_width l * lg_height l * 4) = 12 + lg_width l * lg_height l * 4" by (simp only: n_def)
  with d 1 2 show ?thesis by (simp add: wf_logo_def)
qed

lemma texel_total:
  assumes "wf_logo l"
  shows "\<exists>t. texel l x y = Some t"
proof -
  define u v where "u = min x (lg_width l - 1)" and "v = min y (lg_height l - 1)"
  have "u < lg_width l" "v < lg_height l" using assms by (auto simp: u_def v_def wf_logo_def)
  then have "v * lg_width l + u < (v + 1) * lg_width l" "(v + 1) * lg_width l \<le> lg_height l * lg_width l"
    using mult_le_mono1 [of "v + 1" "lg_height l" "lg_width l"] by simp_all
  then have "v * lg_width l + u < lg_width l * lg_height l" by (metis mult.commute order.strict_trans2)
  then have "(v * lg_width l + u) * 4 + 3 < length (lg_rgba l)" using assms by (simp add: wf_logo_def)
  then show ?thesis unfolding texel_def u_def [symmetric] v_def [symmetric] by (simp add: Let_def)
qed

lemma sample_total: "wf_logo l \<Longrightarrow> 0 < dw \<Longrightarrow> 0 < dh \<Longrightarrow> sample l dx dy dw dh \<noteq> None"
proof -
  assume l: "wf_logo l" and "0 < dw" "0 < dh"
  let ?x = "source_coord dx (lg_width l) dw div 256" and ?y = "source_coord dy (lg_height l) dh div 256"
  obtain a b c d where "texel l ?x ?y = Some a" "texel l (?x + 1) ?y = Some b" "texel l ?x (?y + 1) = Some c"
    "texel l (?x + 1) (?y + 1) = Some d"
    using texel_total [OF l] by metis
  with \<open>0 < dw\<close> \<open>0 < dh\<close> show ?thesis unfolding sample_def Let_def by (simp del: list.map)
qed

lemma draws_blit: "wf_logo l \<Longrightarrow> draws (blit_scaled l x y w h)"
  unfolding blit_scaled_def
proof (intro draws_each)
  fix dy dx assume l: "wf_logo l" and d: "dy \<in> set [0..<h]" "dx \<in> set [0..<w]"
  then have "0 < w" "0 < h" by auto
  then obtain r g b a where s: "sample l dx dy w h = Some (r, g, b, a)" using sample_total [OF l] by (metis option.exhaust prod_cases4)
  show "draws (blit_pixel l x y w h dy dx)"
    unfolding draws_def
  proof (intro allI impI)
    fix cv assume cv: "wf_canvas cv"
    show "\<exists>cv'. blit_pixel l x y w h dy dx cv = Some cv' \<and> drawn cv cv'"
    proof (cases "a \<noteq> 0 \<and> uadd x dx < cv_width cv \<and> uadd y dy < cv_height cv")
      case True
      then obtain ur ug ub where "get_pixel (uadd x dx) (uadd y dy) cv = Some (ur, ug, ub)"
        using offset_bound [OF cv, of "uadd x dx" "uadd y dy"] by (auto simp: get_pixel_def Let_def)
      with True s cv draws_put show ?thesis by (auto simp: blit_pixel_def draws_def)
    qed (use s cv in \<open>auto simp: blit_pixel_def drawn_refl\<close>)
  qed
qed

lemma flush_total: "wf_canvas cv \<Longrightarrow> \<exists>out. flush_rows a b cv = Some out"
  using mult_le_mono1 [of "min b (cv_height cv)" "cv_height cv" "cv_stride cv"]
  by (auto simp: flush_rows_def wf_canvas_def Let_def mult.commute)


section \<open>The screen\<close>

definition wf_screen :: "screen \<Rightarrow> bool" where
  "wf_screen s \<longleftrightarrow> wf_canvas (bs_canvas s) \<and> wf_font (bs_font s) \<and> length (bs_lines s) \<le> MAX_LINES"

lemma screen_push_wf: "wf_screen s \<Longrightarrow> wf_screen (screen_push t s) \<and> bs_canvas (screen_push t s) = bs_canvas s"
  by (simp add: wf_screen_def screen_push_def Let_def length_drop_excess)

lemma screen_pushes_wf:
  "wf_screen s \<Longrightarrow> wf_screen (fold (\<lambda>(_, t). screen_push (chars_of t)) batch s) \<and>
   bs_canvas (fold (\<lambda>(_, t). screen_push (chars_of t)) batch s) = bs_canvas s"
proof (induction batch arbitrary: s)
  case (Cons p batch)
  obtain src t where p: "p = (src, t)" by fastforce
  show ?case using Cons.IH [of "screen_push (chars_of t) s"] screen_push_wf [OF Cons.prems] by (simp add: p)
qed simp

lemma screen_draw_wf:
  assumes "wf_screen s"
  shows "\<exists>s' out. screen_draw s = Some (s', out) \<and> wf_screen s' \<and> geometry (bs_canvas s') = geometry (bs_canvas s)"
proof -
  let ?ch = "ft_height (bs_font s)"
  have f: "wf_font (bs_font s)" and cv: "wf_canvas (bs_canvas s)" using assms by (simp_all add: wf_screen_def)
  have ch: "?ch \<noteq> 0" using f by (simp add: wf_font_def)
  obtain cv1 where 1: "fill_rect (bs_x s) (bs_y s) (bs_w s) (bs_h s) BACKGROUND (bs_canvas s) = Some cv1"
    "drawn (bs_canvas s) cv1" using draws_fill cv unfolding draws_def by blast
  have "draws (each (\<lambda>(row, t). draw_text (bs_font s) 1 (bs_x s) (bs_y s + row * ?ch) t TEXT_COLOR) xs)" for xs
    by (rule draws_each) (auto simp: draws_text [OF f, unfolded One_nat_def] split: prod.split)
  from drawsD [OF this 1(2)] obtain cv2 where 2: "each (\<lambda>(row, t). draw_text (bs_font s) 1 (bs_x s) (bs_y s + row * ?ch) t TEXT_COLOR)
      (enumerate 0 (drop (length (bs_lines s) - bs_h s div ?ch) (bs_lines s))) cv1 = Some cv2" "drawn (bs_canvas s) cv2"
    by blast
  obtain out where "flush_rows (bs_y s) (uadd (bs_y s) (bs_h s)) cv2 = Some out"
    using flush_total 2(2) unfolding drawn_def by blast
  then have "screen_draw s = Some (s\<lparr>bs_canvas := cv2\<rparr>, out)" using ch 1(1) 2(1) by (simp add: screen_draw_def Let_def)
  then show ?thesis using 2(2) assms by (auto simp: wf_screen_def drawn_def)
qed

lemma place_logo_total:
  assumes "drawn cv0 cv" "\<And>l. lg = Some l \<Longrightarrow> wf_logo l"
  shows "\<exists>w cv'. place_logo lg cv = Some (w, cv') \<and> drawn cv0 cv'"
proof (cases lg)
  case None
  then show ?thesis using assms(1) by (simp add: place_logo_def Let_def)
next
  case (Some l)
  then show ?thesis using drawsD [OF draws_blit [OF assms(2) [OF Some]] assms(1)] unfolding place_logo_def Let_def by fastforce
qed

lemma screen_new_wf:
  assumes "wf_canvas cv" "wf_font f" "\<And>l. lg = Some l \<Longrightarrow> wf_logo l"
  shows "\<exists>s. screen_new cv f lg = Some s \<and> wf_screen s \<and> geometry (bs_canvas s) = geometry cv"
proof -
  obtain cv1 where 1: "fill_rect 0 0 (cv_width cv) (cv_height cv) BACKGROUND cv = Some cv1" "drawn cv cv1"
    using draws_fill assms(1) unfolding draws_def by blast
  obtain w cv2 where 2: "place_logo lg cv1 = Some (w, cv2)" "drawn cv cv2"
    using place_logo_total [OF 1(2)] assms(3) by blast
  obtain out where "flush_rows 0 (cv_height cv2) cv2 = Some out" using flush_total 2(2) unfolding drawn_def by blast
  with 1 2 assms(2) show ?thesis by (simp add: screen_new_def wf_screen_def drawn_def)
qed

lemma canvas_open_wf:
  assumes "canvas_open rd dev name = Some (Inr cv)" "cv_width cv < 2 ^ 62" "cv_stride cv * cv_height cv < 2 ^ 64"
  shows "wf_canvas cv"
proof -
  have c: "\<not> cv_stride cv < umul (cv_width cv) 4" "length (cv_pixels cv) = umul (cv_stride cv) (cv_height cv)"
    using assms(1) by (auto simp: canvas_open_def Let_def split: sum.splits option.splits if_splits)
  have "umul (cv_width cv) 4 = cv_width cv * 4" by (rule umul_small) (use assms(2) in simp)
  moreover have "umul (cv_stride cv) (cv_height cv) = cv_stride cv * cv_height cv" by (rule umul_small [OF assms(3)])
  ultimately show ?thesis using c by (simp add: wf_canvas_def)
qed

lemma boot_turn_wf:
  assumes "wf_screen s"
  shows "\<exists>s' out. boot_turn batch (Some s) = Some (map snd (filter (\<lambda>(src, _). src = Init) batch), Some s', out) \<and>
    wf_screen s' \<and> geometry (bs_canvas s') = geometry (bs_canvas s)"
  using screen_draw_wf [of "fold (\<lambda>(_, t). screen_push (chars_of t)) batch s"] screen_pushes_wf [OF assms, of batch]
  by (auto simp: boot_turn_def Let_def)

lemma boot_run_wf:
  "wf_screen s \<Longrightarrow> \<exists>s'. boot_run batches (Some s) =
     Some (concat (map (\<lambda>b. map snd (filter (\<lambda>(src, _). src = Init) b)) batches), Some s') \<and>
   wf_screen s' \<and> geometry (bs_canvas s') = geometry (bs_canvas s)"
proof (induction batches arbitrary: s)
  case (Cons b bs)
  obtain s1 out where 1: "boot_turn b (Some s) = Some (map snd (filter (\<lambda>(src, _). src = Init) b), Some s1, out)"
    "wf_screen s1" "geometry (bs_canvas s1) = geometry (bs_canvas s)" using boot_turn_wf [OF Cons.prems] by blast
  from Cons.IH [OF 1(2)] 1 show ?case by auto
qed simp


text \<open>Wrapping loses nothing: the pieces without their indentation are the line again, with tabs as spaces.\<close>

lemma wrap_line_pieces:
  assumes "0 < cols"
  shows "\<exists>first rest. wrap_line cols t = first # map ((@) [32, 32]) rest \<and>
     first @ concat rest = map (\<lambda>c. if c = 9 then 32 else c) t \<and> length first \<le> cols \<and> (\<forall>r \<in> set rest. length r \<le> cols)"
proof (cases "t = []")
  case False
  let ?t = "map (\<lambda>c. if c = 9 then 32 else c) t"
  have c: "concat (chunks cols ?t) = ?t" by (rule concat_chunks [OF assms])
  obtain s rest where r: "chunks cols ?t = s # rest" using chunks_step [OF assms, of ?t] False by auto
  have "\<forall>x \<in> set (s # rest). length x \<le> cols" using chunk_length [of _ cols ?t] r by auto
  then show ?thesis using False c r by (intro exI [of _ s] exI [of _ rest]) (simp add: wrap_line_def Let_def)
qed (simp add: wrap_line_def)

section \<open>What drawing does\<close>

definition in_range :: "canvas \<Rightarrow> nat \<Rightarrow> nat \<Rightarrow> bool" where
  "in_range cv x y \<longleftrightarrow> x < cv_width cv \<and> y < cv_height cv"

lemma get_put:
  assumes cv: "wf_canvas cv" and r: "in_range cv x y" "in_range cv x' y'" and put: "put_pixel c x y cv = Some cv'"
  shows "get_pixel x' y' cv' = (if x' = x \<and> y' = y then Some c else get_pixel x' y' cv)"
proof -
  let ?i = "y * cv_stride cv + x * 4" and ?j = "y' * cv_stride cv + x' * 4"
  have b: "?i + 3 < length (cv_pixels cv)" "?j + 3 < length (cv_pixels cv)"
    using offset_bound [OF cv] r by (simp_all add: in_range_def)
  have p: "cv_pixels cv' = (cv_pixels cv)[?i := snd (snd c), ?i + 1 := fst (snd c), ?i + 2 := fst c, ?i + 3 := 0xFF]"
    "cv_stride cv' = cv_stride cv"
    using put r(1) b(1) by (auto simp: put_pixel_def in_range_def Let_def)
  show ?thesis
  proof (cases "x' = x \<and> y' = y")
    case True
    then show ?thesis using b(1) by (simp add: get_pixel_def p Let_def nth_list_update)
  next
    case False
    have w: "x * 4 + 3 < cv_stride cv" "x' * 4 + 3 < cv_stride cv"
      using r cv by (simp_all add: in_range_def wf_canvas_def)
    have "?j + 3 < ?i \<or> ?i + 3 < ?j"
    proof (cases "y' = y")
      case True
      then have "x' \<noteq> x" using False by simp
      then show ?thesis using True by auto
    next
      case False
      then consider "y' + 1 \<le> y" | "y + 1 \<le> y'" by linarith
      then show ?thesis
      proof cases
        case 1
        then have "(y' + 1) * cv_stride cv \<le> y * cv_stride cv" by (rule mult_le_mono1)
        then show ?thesis using w(2) by simp
      next
        case 2
        then have "(y + 1) * cv_stride cv \<le> y' * cv_stride cv" by (rule mult_le_mono1)
        then show ?thesis using w(1) by simp
      qed
    qed
    then show ?thesis using False by (auto simp: get_pixel_def p Let_def nth_list_update)
  qed
qed

lemma each_concat: "each (\<lambda>x. each (f x) (ys x)) xs s = each (\<lambda>(x, y). f x y) (concat (map (\<lambda>x. map (Pair x) (ys x)) xs)) s"
proof (induction xs arbitrary: s)
  case (Cons x xs)
  have "each (f x) zs t = each (\<lambda>(x, y). f x y) (map (Pair x) zs) t" for zs t
    by (induction zs arbitrary: t) (auto split: bind_split)
  moreover have "each (\<lambda>x. each (f x) (ys x)) xs = each (\<lambda>(x, y). f x y) (concat (map (\<lambda>x. map (Pair x) (ys x)) xs))"
    by (rule ext) (rule Cons.IH)
  ultimately show ?case by (simp add: each_append)
qed simp

lemma set_rows: "set (concat (map (\<lambda>r. map (Pair r) xs) rs)) = set rs \<times> set xs"
  by auto

lemma each_pixels:
  assumes "wf_canvas cv" "\<And>p. p \<in> set ps \<Longrightarrow> in_range cv (snd p) (fst p)" "in_range cv x y"
    and "each (\<lambda>(row, col). put_pixel c col row) ps cv = Some cv'"
  shows "get_pixel x y cv' = (if (y, x) \<in> set ps then Some c else get_pixel x y cv)"
  using assms
proof (induction ps arbitrary: cv)
  case (Cons p ps)
  obtain row col where p: "p = (row, col)" by fastforce
  obtain cv1 where 1: "put_pixel c col row cv = Some cv1" "drawn cv cv1"
    using draws_put Cons.prems(1) unfolding draws_def by blast
  have g: "in_range cv1 u v = in_range cv u v" for u v using 1(2) by (simp add: in_range_def drawn_def geometry_def)
  have r: "in_range cv col row" using Cons.prems(2) [of p] p by simp
  have e: "each (\<lambda>(row, col). put_pixel c col row) ps cv1 = Some cv'" using Cons.prems(4) 1 p by simp
  have "wf_canvas cv1" using 1(2) by (simp add: drawn_def)
  from Cons.IH [OF this _ _ e] have "get_pixel x y cv' = (if (y, x) \<in> set ps then Some c else get_pixel x y cv1)"
    using Cons.prems(2,3) by (simp add: g)
  with get_put [OF Cons.prems(1) r Cons.prems(3) 1(1)] show ?case by (auto simp: p)
qed simp

section \<open>Properties\<close>

text \<open>C38. The boot screen cannot crash. With a font that loaded, a frame buffer that opened and a logo that loaded or
  not (all of sizes whose products fit a machine word), the screen is set up, and whatever lines
  arrive in whatever batches every redraw stays inside the pixel buffer; at most 500 lines are kept,
  the buffer keeps its size, and every line of init, and only those, is echoed once and in order.\<close>

theorem boot_never_panics:
  assumes "canvas_open rd dev name = Some (Inr cv)" "cv_width cv < 2 ^ 62" "cv_stride cv * cv_height cv < 2 ^ 64"
    and "\<And>l. logo_load lp lr = Inr l \<Longrightarrow> lg_width l * lg_height l < 2 ^ 61"
    and "font_load fr = Inr f"
  shows "\<exists>scr s. boot_start fp lp fr (canvas_open rd dev name) lr = Some (Inr (Some scr)) \<and>
     boot_run batches (Some scr) = Some (concat (map (\<lambda>b. map snd (filter (\<lambda>(src, _). src = Init) b)) batches), Some s) \<and>
     length (bs_lines s) \<le> 500 \<and> geometry (bs_canvas s) = geometry cv \<and>
     length (cv_pixels (bs_canvas s)) = cv_stride cv * cv_height cv"
proof -
  have "wf_logo l" if "result_ok (logo_load lp lr) = Some l" for l
    using that logo_load_wf assms(4) by (cases "logo_load lp lr") auto
  then obtain scr where scr: "screen_new cv f (result_ok (logo_load lp lr)) = Some scr" "wf_screen scr"
    "geometry (bs_canvas scr) = geometry cv"
    using screen_new_wf [OF canvas_open_wf [OF assms(1-3)] font_load_wf [OF assms(5)]] by blast
  then have "boot_start fp lp fr (canvas_open rd dev name) lr = Some (Inr (Some scr))"
    using assms(1,5) by (simp add: boot_start_def)
  with boot_run_wf [OF scr(2), of batches] scr(3) show ?thesis
    by (fastforce simp: wf_screen_def MAX_LINES_def wf_canvas_def geometry_def)
qed

text \<open>C40. Filling a rectangle changes exactly the pixels of the canvas inside it, to exactly the colour; every
  other pixel reads as before, also at the edges, where the rectangle is cut off.\<close>

theorem fill_rect_exact:
  assumes "wf_canvas cv" "x + w < 2 ^ 64" "y + h < 2 ^ 64"
  shows "\<exists>cv'. fill_rect x y w h c cv = Some cv' \<and> geometry cv' = geometry cv \<and>
     (\<forall>px < cv_width cv. \<forall>py < cv_height cv. get_pixel px py cv' =
        (if x \<le> px \<and> px < x + w \<and> y \<le> py \<and> py < y + h then Some c else get_pixel px py cv))"
proof -
  let ?ps = "concat (map (\<lambda>row. map (Pair row) [x..<min (x + w) (cv_width cv)]) [y..<min (y + h) (cv_height cv)])"
  have f: "fill_rect x y w h c cv = each (\<lambda>(row, col). put_pixel c col row) ?ps cv"
    by (simp only: fill_rect_def uadd_small [OF assms(2)] uadd_small [OF assms(3)] each_concat)
  obtain cv' where cv': "fill_rect x y w h c cv = Some cv'" "drawn cv cv'"
    using draws_fill assms(1) unfolding draws_def by blast
  have "get_pixel px py cv' = (if (py, px) \<in> set ?ps then Some c else get_pixel px py cv)"
    if "px < cv_width cv" "py < cv_height cv" for px py
    by (rule each_pixels [OF assms(1)]) (use cv'(1) f that in \<open>auto simp: in_range_def\<close>)
  moreover have "(py, px) \<in> set ?ps \<longleftrightarrow> x \<le> px \<and> px < x + w \<and> y \<le> py \<and> py < y + h"
    if "px < cv_width cv" "py < cv_height cv" for px py
  proof -
    have "(py, px) \<in> set ?ps \<longleftrightarrow> py \<in> set [y..<min (y + h) (cv_height cv)] \<and> px \<in> set [x..<min (x + w) (cv_width cv)]"
      by (simp only: set_rows mem_Times_iff fst_conv snd_conv)
    with that show ?thesis by auto
  qed
  ultimately have "\<forall>px < cv_width cv. \<forall>py < cv_height cv. get_pixel px py cv' =
      (if x \<le> px \<and> px < x + w \<and> y \<le> py \<and> py < y + h then Some c else get_pixel px py cv)" by simp
  with cv' show ?thesis by (auto simp: drawn_def)
qed


text \<open>Scaling keeps a solid colour: a logo that is one colour with one alpha everywhere gives that colour and
  alpha at every destination pixel, whatever the sizes (and nothing where it is transparent).\<close>

theorem solid_logo_sample:
  assumes "wf_logo l" "0 < dw" "0 < dh"
    and "\<And>i. i < lg_width l * lg_height l \<Longrightarrow> lg_rgba l ! (4 * i) = r \<and> lg_rgba l ! (4 * i + 1) = g \<and>
       lg_rgba l ! (4 * i + 2) = b \<and> lg_rgba l ! (4 * i + 3) = a"
  shows "sample l dx dy dw dh = Some (if a = 0 then (0, 0, 0, 0) else (unat r, unat g, unat b, unat a))"
proof -
  have t: "texel l x y = Some [unat r * unat a, unat g * unat a, unat b * unat a, unat a * 255]" for x y
  proof -
    define i where "i = min y (lg_height l - 1) * lg_width l + min x (lg_width l - 1)"
    obtain tx where tx: "texel l x y = Some tx" using texel_total [OF assms(1)] by blast
    then have "i * 4 + 3 < length (lg_rgba l)" by (auto simp: texel_def Let_def i_def split: if_splits)
    then have "i < lg_width l * lg_height l" using assms(1) by (simp add: wf_logo_def)
    from assms(4) [OF this] show ?thesis
      using tx unfolding texel_def i_def [symmetric] by (simp add: Let_def mult.commute split: if_splits)
  qed
  have mix: "mix fx fy c c c c = c" if "fx < 256" "fy < 256" for fx fy c
  proof -
    have u: "c * (256 - fx) + c * fx = c * 256" "c * (256 - fy) + c * fy = c * 256"
      using that by (simp_all add: add_mult_distrib2 [symmetric])
    have "c * 256 * (256 - fy) + c * 256 * fy = c * 256 * 256" using that by (simp add: add_mult_distrib2 [symmetric])
    then show ?thesis by (simp only: mix_def Let_def u) simp
  qed
  have byte: "unat x \<le> 255" for x :: u8 using unsigned_less [of x, where ?'a = nat] by simp
  have a0: "unat a = 0 \<longleftrightarrow> a = 0" by (simp add: unat_eq_0)
  show ?thesis
    using assms(2,3) byte [of r] byte [of g] byte [of b] byte [of a] a0
    by (auto simp: sample_def Let_def t mix unmultiply_def)
qed

definition edge_logo :: logo where
  "edge_logo = \<lparr>lg_width = 2, lg_height = 2,
     lg_rgba = [0, 0, 0, 0xFF, 0xFF, 0xFF, 0xFF, 0xFF, 0, 0, 0, 0xFF, 0xFF, 0xFF, 0xFF, 0xFF]\<rparr>"

text \<open>Interpolation mixes the bottom row with the vertical fraction. A logo whose left column is black and whose
  right column is white, drawn twice as large: the second pixel of the left edge lies exactly on the
  black column, yet white from the right column bleeds into it.\<close>

theorem bottom_row_bleeds:
  "source_coord 0 (lg_width edge_logo) 4 = 0 \<and> texel edge_logo 0 0 = Some [0, 0, 0, 65025] \<and>
   texel edge_logo 0 1 = Some [0, 0, 0, 65025] \<and> sample edge_logo 0 1 4 4 = Some (15, 15, 15, 255)"
  by (simp add: source_coord_def edge_logo_def texel_def sample_def mix_def unmultiply_def Let_def)

text \<open>The size check of a logo overflows. Twelve bytes that claim 2^31 times 2^31 pixels are accepted, and the
  first pixel taken from such a logo is an index out of range: the boot screen stops with a panic.\<close>

theorem logo_header_overflow:
  "\<exists>data l. length data = 12 \<and> logo_load p (Inr data) = Inr l \<and> lg_rgba l = [] \<and> sample l 0 0 1 1 = None"
proof -
  let ?data = "[0x41, 0x42, 0x52, 0x31, 0, 0, 0, 0x80, 0, 0, 0, 0x80] :: u8 list"
  have h: "u32_from_le [0, 0, 0, 0x80] = 2147483648" 
  proof -
    have "{..<4 :: nat} = {0, 1, 2, 3}" by auto
    then show ?thesis by (simp add: u32_from_le_def)
  qed
  have "umul 2147483648 2147483648 = 4611686018427387904" "umul 4611686018427387904 4 = 0" "uadd 12 0 = 12"
    by (simp_all add: umul_def uadd_def)
  then have "logo_load p (Inr ?data) = Inr \<lparr>lg_width = 2147483648, lg_height = 2147483648, lg_rgba = []\<rparr>"
    by (simp add: logo_load_def h)
  moreover have "sample \<lparr>lg_width = 2147483648, lg_height = 2147483648, lg_rgba = []\<rparr> 0 0 1 1 = None"
    by (simp add: sample_def texel_def Let_def)
  ultimately show ?thesis by (intro exI [of _ ?data] exI [of _ "\<lparr>lg_width = 2147483648, lg_height = 2147483648, lg_rgba = []\<rparr>"]) simp
qed


section \<open>Concrete runs\<close>

definition demo_canvas :: canvas where
  "demo_canvas = \<lparr>cv_width = 80, cv_height = 40, cv_stride = 320, cv_pixels = replicate 12800 0\<rparr>"

definition demo_sys :: "string \<Rightarrow> string + string" where
  "demo_sys f = (if f = ''/sys/class/graphics/fb0/virtual_size'' then Inr ''80,40''
     else if f = ''/sys/class/graphics/fb0/stride'' then Inr ''320'' else Inr ''32'')"

definition demo_font :: "u8 list" where
  "demo_font = [0x36, 0x04, 0, 1] @ replicate 256 0"

lemma demo_canvas_open: "canvas_open demo_sys (\<lambda>_. None) ''fb0'' = Some (Inr demo_canvas)"
proof -
  have t: "trim ''80,40'' = ''80,40''" "trim ''320'' = ''320''" "trim ''32'' = ''32''"
    by (rule trim_plain; simp add: plain_char_def)+
  have p: "sys_number ''80'' e = Inr 80" "sys_number ''40'' e = Inr 40" "sys_number ''320'' e = Inr 320"
    "sys_number ''32'' e = Inr 32" for e
    by (simp_all add: sys_number_def parse_uint_def is_ascii_digit_def digits_val_def digit_val_def u64_max_def)
  have u: "umul 80 4 = 320" "umul 320 40 = 12800" by (simp_all add: umul_def)
  show ?thesis by (simp add: canvas_open_def demo_sys_def t p u demo_canvas_def Let_def)
qed

lemma demo_font_load: "\<exists>f. font_load (Inr demo_font) = Inr f"
proof -
  have "demo_font ! 0 = 0x36" "demo_font ! 1 = 0x04" "demo_font ! 2 = 0" "demo_font ! 3 = 1" "length demo_font = 260"
    by (simp_all add: demo_font_def)
  then show ?thesis by (simp add: font_load_def Let_def)
qed

theorem boot_never_panics_witness:
  "\<exists>scr s. boot_start ''f'' ''l'' (Inr demo_font) (canvas_open demo_sys (\<lambda>_. None) ''fb0'') (Inl ''none'') = Some (Inr (Some scr)) \<and>
     boot_run [[(Init, ''ok''), (Kernel, ''x'')], [(Init, ''on'')]] (Some scr) = Some ([''ok'', ''on''], Some s) \<and>
     length (bs_lines s) \<le> 500"
proof -
  obtain f where f: "font_load (Inr demo_font) = Inr f" using demo_font_load by blast
  have "cv_width demo_canvas < 2 ^ 62" "cv_stride demo_canvas * cv_height demo_canvas < 2 ^ 64"
    by (simp_all add: demo_canvas_def)
  from boot_never_panics [OF demo_canvas_open this _ f, where lp = "''l''" and lr = "Inl ''none''"
      and batches = "[[(Init, ''ok''), (Kernel, ''x'')], [(Init, ''on'')]]" and fp = "''f''"]
  show ?thesis by (auto simp: logo_load_def)
qed

theorem fill_rect_exact_witness:
  "\<exists>cv. fill_rect 70 30 100 5 (1, 2, 3) demo_canvas = Some cv \<and> get_pixel 79 34 cv = Some (1, 2, 3) \<and>
     get_pixel 69 34 cv = get_pixel 69 34 demo_canvas"
proof -
  have w: "wf_canvas demo_canvas" by (simp add: wf_canvas_def demo_canvas_def)
  obtain cv where "fill_rect 70 30 100 5 (1, 2, 3) demo_canvas = Some cv" and px: "\<forall>px < cv_width demo_canvas. \<forall>py < cv_height demo_canvas.
      get_pixel px py cv = (if 70 \<le> px \<and> px < 70 + 100 \<and> 30 \<le> py \<and> py < 30 + 5 then Some (1, 2, 3) else get_pixel px py demo_canvas)"
    using fill_rect_exact [OF w, of 70 100 30 5 "(1, 2, 3)"] by auto
  moreover have "79 < cv_width demo_canvas" "69 < cv_width demo_canvas" "34 < cv_height demo_canvas" by (simp_all add: demo_canvas_def)
  ultimately show ?thesis by simp
qed

theorem solid_logo_sample_witness:
  "sample \<lparr>lg_width = 1, lg_height = 1, lg_rgba = [200, 100, 50, 255]\<rparr> 3 3 8 8 = Some (200, 100, 50, 255)"
  using solid_logo_sample [of "\<lparr>lg_width = 1, lg_height = 1, lg_rgba = [200, 100, 50, 255]\<rparr>" 8 8 200 100 50 255 3 3]
  by (simp add: wf_logo_def)

end
