(* ===== verification/Feed.thy ===== *)
theory Feed
  imports Boot
begin

text \<open>
  The threads of \<^verbatim>\<open>boot/abora-boot/src/main.rs\<close> together: one reads the kernel log, one the pipe init writes
  to, both send lines over a channel to the loop, which draws them in batches. Steps come in any order.
\<close>

section \<open>The readers\<close>

text \<open>What one \<^verbatim>\<open>read\<close> of \<^verbatim>\<open>/dev/kmsg\<close> gives: bytes, of which none mean the end, or an error.\<close>

datatype kmsg_read = KmsgBytes string | KmsgInterrupted | KmsgError

text \<open>One turn of the loop in \<^verbatim>\<open>spawn_kmsg\<close>: the line sent, if any, and whether the thread goes on.\<close>

definition kmsg_turn :: "kmsg_read \<Rightarrow> string option \<times> bool" where
  "kmsg_turn r = (case r of
     KmsgBytes bs \<Rightarrow> if bs = [] then (None, False) else (parse_kmsg (from_utf8_lossy bs), True)
   | KmsgInterrupted \<Rightarrow> (None, True)
   | KmsgError \<Rightarrow> (None, False))"

text \<open>What reading up to the next line feed gives. \<^verbatim>\<open>lines\<close> cuts a line feed and a carriage return before it
  off and fails on bytes that are not UTF-8; \<^verbatim>\<open>map_while\<close> ends the loop at the first failure.\<close>

datatype fifo_read = FifoBytes string | FifoError

definition chomp :: "string \<Rightarrow> string" where
  "chomp bs = (if bs \<noteq> [] \<and> last bs = CHR 0x0A then strip_cr (butlast bs) else bs)"

definition fifo_turn :: "fifo_read \<Rightarrow> string option" where
  "fifo_turn r = (case r of
     FifoBytes bs \<Rightarrow> if bs \<noteq> [] \<and> valid_utf8 bs then Some (chomp bs) else None
   | FifoError \<Rightarrow> None)"

text \<open>All that a reader sends.\<close>

fun kmsg_sends :: "kmsg_read list \<Rightarrow> string list" where
  "kmsg_sends [] = []"
| "kmsg_sends (r # rs) = (case kmsg_turn r of (line, on) \<Rightarrow>
     (case line of Some l \<Rightarrow> [l] | None \<Rightarrow> []) @ (if on then kmsg_sends rs else []))"

fun fifo_sends :: "fifo_read list \<Rightarrow> string list" where
  "fifo_sends [] = []"
| "fifo_sends (r # rs) = (case fifo_turn r of Some l \<Rightarrow> l # fifo_sends rs | None \<Rightarrow> [])"

section \<open>Readers, channel and loop\<close>

text \<open>A reader is \<^term>\<open>None\<close> once its thread has ended; \<^term>\<open>fd_taken\<close> is what the loop has received.\<close>

record feed =
  fd_kernel :: "kmsg_read list option"
  fd_init :: "fifo_read list option"
  fd_queue :: "(source \<times> string) list"
  fd_taken :: "(source \<times> string) list"
  fd_echoed :: "string list"
  fd_screen :: "screen option"

text \<open>A device or pipe that does not open ends its thread at once.\<close>

definition feed_start :: "kmsg_read list option \<Rightarrow> fifo_read list option \<Rightarrow> screen option \<Rightarrow> feed" where
  "feed_start ring fifo scr = \<lparr>fd_kernel = ring, fd_init = fifo, fd_queue = [], fd_taken = [], fd_echoed = [], fd_screen = scr\<rparr>"

definition kernel_reads :: "feed \<Rightarrow> kmsg_read \<Rightarrow> kmsg_read list \<Rightarrow> feed" where
  "kernel_reads s r rs = (case kmsg_turn r of (line, on) \<Rightarrow>
     s\<lparr>fd_kernel := if on then Some rs else None,
       fd_queue := fd_queue s @ (case line of Some l \<Rightarrow> [(Kernel, l)] | None \<Rightarrow> [])\<rparr>)"

definition init_reads :: "feed \<Rightarrow> fifo_read \<Rightarrow> fifo_read list \<Rightarrow> feed" where
  "init_reads s r rs = (case fifo_turn r of
     Some l \<Rightarrow> s\<lparr>fd_init := Some rs, fd_queue := fd_queue s @ [(Init, l)]\<rparr>
   | None \<Rightarrow> s\<lparr>fd_init := None\<rparr>)"

text \<open>The loop takes one line and up to 500 more that wait.\<close>

definition BATCH :: nat where "BATCH = 501"

definition loop_takes :: "nat \<Rightarrow> feed \<Rightarrow> feed option" where
  "loop_takes n s = (case boot_turn (take n (fd_queue s)) (fd_screen s) of
     None \<Rightarrow> None
   | Some (echo, scr, _) \<Rightarrow> Some (s\<lparr>fd_queue := drop n (fd_queue s), fd_taken := fd_taken s @ take n (fd_queue s),
       fd_echoed := fd_echoed s @ echo, fd_screen := scr\<rparr>))"

inductive feed_step :: "feed \<Rightarrow> feed \<Rightarrow> bool" where
  kernel: "fd_kernel s = Some (r # rs) \<Longrightarrow> feed_step s (kernel_reads s r rs)"
| init: "fd_init s = Some (r # rs) \<Longrightarrow> feed_step s (init_reads s r rs)"
| draws: "0 < n \<Longrightarrow> n \<le> BATCH \<Longrightarrow> n \<le> length (fd_queue s) \<Longrightarrow> loop_takes n s = Some t \<Longrightarrow> feed_step s t"

text \<open>\<^verbatim>\<open>Disconnected\<close>: both senders are gone and nothing waits; the program ends.\<close>

definition feed_over :: "feed \<Rightarrow> bool" where
  "feed_over s \<longleftrightarrow> fd_kernel s = None \<and> fd_init s = None \<and> fd_queue s = []"

inductive_cases feed_stepE: "feed_step s t"

section \<open>Facts\<close>

definition of_source :: "source \<Rightarrow> (source \<times> string) list \<Rightarrow> string list" where
  "of_source src ls = map snd (filter (\<lambda>(x, _). x = src) ls)"

lemma of_source_simps [simp]:
  "of_source src [] = []" "of_source src (a @ b) = of_source src a @ of_source src b"
  "of_source src ((x, l) # ls) = (if x = src then l # of_source src ls else of_source src ls)"
  by (simp_all add: of_source_def)

lemma of_source_split: "of_source src (take n q) @ of_source src (drop n q) = of_source src q"
  by (metis append_take_drop_id of_source_simps(2))

definition kernel_left :: "feed \<Rightarrow> string list" where
  "kernel_left s = (case fd_kernel s of Some rs \<Rightarrow> kmsg_sends rs | None \<Rightarrow> [])"

definition init_left :: "feed \<Rightarrow> string list" where
  "init_left s = (case fd_init s of Some rs \<Rightarrow> fifo_sends rs | None \<Rightarrow> [])"

text \<open>What a screen keeps of the lines it was given.\<close>

definition columns :: "screen \<Rightarrow> nat" where
  "columns s = max (bs_w s div font_width) 8"

definition shown_lines :: "nat \<Rightarrow> (source \<times> string) list \<Rightarrow> nat list list" where
  "shown_lines cols ls = concat (map (\<lambda>(_, text). wrap_line cols (chars_of text)) ls)"

definition newest :: "nat \<Rightarrow> 'a list \<Rightarrow> 'a list" where
  "newest n xs = drop (length xs - n) xs"

lemma newest_app: "newest n (newest n xs @ ys) = newest n (xs @ ys)"
proof (cases "length xs \<le> n")
  case False
  then have "length (newest n xs @ ys) - n = length ys" by (simp add: newest_def)
  moreover have "newest n xs @ ys = drop (length xs - n) (xs @ ys)" using False by (simp add: newest_def)
  ultimately show ?thesis using False by (simp add: newest_def add.commute)
qed (simp add: newest_def)

lemma push_lines: "bs_lines (screen_push t s) = newest MAX_LINES (bs_lines s @ wrap_line (columns s) t)"
  "columns (screen_push t s) = columns s"
  by (simp_all add: screen_push_def newest_def columns_def Let_def)

lemma pushes_lines:
  "bs_lines s = newest MAX_LINES (xs :: nat list list) \<Longrightarrow>
   bs_lines (fold (\<lambda>(_, text). screen_push (chars_of text)) batch s) = newest MAX_LINES (xs @ shown_lines (columns s) batch) \<and>
   columns (fold (\<lambda>(_, text). screen_push (chars_of text)) batch s) = columns s"
proof (induction batch arbitrary: s xs)
  case (Cons p batch)
  obtain src t where p: "p = (src, t)" by fastforce
  have "bs_lines (screen_push (chars_of t) s) = newest MAX_LINES (xs @ wrap_line (columns s) (chars_of t))"
    using Cons.prems by (simp add: push_lines newest_app)
  from Cons.IH [OF this] show ?case by (simp add: p push_lines shown_lines_def)
qed (simp add: shown_lines_def)

lemma draw_lines: "screen_draw s = Some (s', out) \<Longrightarrow> bs_lines s' = bs_lines s \<and> columns s' = columns s"
  by (auto simp: screen_draw_def columns_def Let_def bind_eq_Some_conv split: if_splits)

text \<open>One redraw.\<close>

lemma loop_takes_effect:
  assumes "loop_takes n s = Some t"
  shows "fd_kernel t = fd_kernel s" "fd_init t = fd_init s" "fd_queue t = drop n (fd_queue s)"
    "fd_taken t = fd_taken s @ take n (fd_queue s)" "fd_echoed t = fd_echoed s @ of_source Init (take n (fd_queue s))"
  using assms by (auto simp: loop_takes_def boot_turn_def of_source_def Let_def split: option.splits prod.splits)

lemma loop_takes_screen:
  assumes "loop_takes n s = Some t" "fd_screen s = Some scr" "bs_lines scr = newest MAX_LINES xs" "wf_screen scr"
  shows "\<exists>scr'. fd_screen t = Some scr' \<and> wf_screen scr' \<and> columns scr' = columns scr \<and>
    bs_lines scr' = newest MAX_LINES (xs @ shown_lines (columns scr) (take n (fd_queue s)))"
proof -
  let ?b = "take n (fd_queue s)"
  let ?p = "fold (\<lambda>(_, text). screen_push (chars_of text)) ?b scr"
  obtain scr' out where d: "screen_draw ?p = Some (scr', out)" "fd_screen t = Some scr'"
    using assms(1,2) by (auto simp: loop_takes_def boot_turn_def Let_def split: option.splits prod.splits)
  obtain s2 out2 where "screen_draw ?p = Some (s2, out2)" "wf_screen s2"
    using screen_draw_wf [of ?p] screen_pushes_wf [OF assms(4), of ?b] by blast
  with d pushes_lines [OF assms(3), of ?b] draw_lines [OF d(1)] show ?thesis by auto
qed

lemma loop_takes_total:
  assumes "case fd_screen s of Some scr \<Rightarrow> wf_screen scr | None \<Rightarrow> True"
  shows "\<exists>t. loop_takes n s = Some t"
proof (cases "fd_screen s")
  case None
  then show ?thesis by (simp add: loop_takes_def boot_turn_def Let_def)
next
  case (Some scr)
  with boot_turn_wf [of scr "take n (fd_queue s)"] assms show ?thesis by (auto simp: loop_takes_def)
qed

text \<open>What every step keeps: the lines of both readers, and what the screen holds.\<close>

definition feed_keeps :: "feed \<Rightarrow> bool" where
  "feed_keeps s \<longleftrightarrow> fd_echoed s = of_source Init (fd_taken s) \<and>
     (case fd_screen s of Some scr \<Rightarrow> wf_screen scr \<and> bs_lines scr = newest MAX_LINES (shown_lines (columns scr) (fd_taken s))
      | None \<Rightarrow> True)"

definition all_of :: "source \<Rightarrow> feed \<Rightarrow> string list" where
  "all_of src s = of_source src (fd_taken s) @ of_source src (fd_queue s) @
     (case src of Kernel \<Rightarrow> kernel_left s | Init \<Rightarrow> init_left s)"

definition feed_left :: "feed \<Rightarrow> nat" where
  "feed_left s = 2 * (case fd_kernel s of Some rs \<Rightarrow> length rs | None \<Rightarrow> 0) +
     2 * (case fd_init s of Some rs \<Rightarrow> length rs | None \<Rightarrow> 0) + length (fd_queue s)"

lemma step_all_of: "feed_step s t \<Longrightarrow> all_of src t = all_of src s"
proof (induction rule: feed_step.induct)
  case (kernel s r rs)
  then show ?case by (cases src) (auto simp: all_of_def kernel_reads_def kernel_left_def init_left_def split: prod.split option.split)
next
  case (init s r rs)
  then show ?case by (cases src) (auto simp: all_of_def init_reads_def kernel_left_def init_left_def split: option.split)
next
  case (draws n s t)
  note e = loop_takes_effect [OF draws(4)]
  have "kernel_left t = kernel_left s" "init_left t = init_left s" by (simp_all add: kernel_left_def init_left_def e)
  with of_source_split [of src n "fd_queue s"] show ?case by (simp add: all_of_def e) (metis append.assoc)
qed

lemma step_keeps: "feed_step s t \<Longrightarrow> feed_keeps s \<Longrightarrow> feed_keeps t"
proof (induction rule: feed_step.induct)
  case (kernel s r rs)
  then show ?case by (cases "kmsg_turn r"; cases "fd_screen s") (simp_all add: feed_keeps_def kernel_reads_def)
next
  case (init s r rs)
  then show ?case by (cases "fifo_turn r"; cases "fd_screen s") (simp_all add: feed_keeps_def init_reads_def)
next
  case (draws n s t)
  note e = loop_takes_effect [OF draws(4)]
  show ?case
  proof (cases "fd_screen s")
    case None
    then have "fd_screen t = None" using draws(4) by (auto simp: loop_takes_def boot_turn_def Let_def split: option.splits)
    with draws(5) show ?thesis by (simp add: feed_keeps_def e)
  next
    case (Some scr)
    with draws(5) have "wf_screen scr" "bs_lines scr = newest MAX_LINES (shown_lines (columns scr) (fd_taken s))"
      by (simp_all add: feed_keeps_def)
    from loop_takes_screen [OF draws(4) Some this(2) this(1)] draws(5) show ?thesis
      by (auto simp: feed_keeps_def e shown_lines_def)
  qed
qed

lemma step_shrinks: "feed_step s t \<Longrightarrow> feed_left t < feed_left s"
proof (induction rule: feed_step.induct)
  case (kernel s r rs)
  then show ?case by (auto simp: feed_left_def kernel_reads_def split: prod.split option.split)
next
  case (init s r rs)
  then show ?case by (auto simp: feed_left_def init_reads_def split: option.split)
next
  case (draws n s t)
  then show ?case by (simp add: feed_left_def loop_takes_effect [OF draws(4)])
qed

lemma feed_reach:
  assumes "feed_step\<^sup>*\<^sup>* s t" "feed_keeps s"
  shows "feed_keeps t" "all_of src t = all_of src s"
  using assms by (induction) (auto simp: step_keeps step_all_of)

lemma feed_goes_on:
  assumes "feed_keeps s" "\<nexists>t. feed_step s t"
  shows "fd_queue s = []" "kernel_left s = []" "init_left s = []"
proof -
  obtain t where t: "loop_takes 1 s = Some t" using assms(1) loop_takes_total [of s 1] by (auto simp: feed_keeps_def split: option.splits)
  show "fd_queue s = []"
  proof (rule ccontr)
    assume "fd_queue s \<noteq> []"
    then have "feed_step s t" by (intro draws [OF _ _ _ t]) (auto simp: BATCH_def Suc_le_eq)
    with assms(2) show False by blast
  qed
  show "kernel_left s = []" using assms(2) feed_step.kernel [of s]
    by (cases "fd_kernel s"; cases "the (fd_kernel s)") (auto simp: kernel_left_def)
  show "init_left s = []" using assms(2) feed_step.init [of s]
    by (cases "fd_init s"; cases "the (fd_init s)") (auto simp: init_left_def)
qed

text \<open>What the readers send, unless they end: the lines of the records that parse, and all lines of the pipe.\<close>

definition kmsg_lines :: "kmsg_read list \<Rightarrow> string list" where
  "kmsg_lines rs = List.map_filter (\<lambda>r. case r of KmsgBytes bs \<Rightarrow> parse_kmsg (from_utf8_lossy bs) | _ \<Rightarrow> None) rs"

lemma kmsg_sends_all: "KmsgError \<notin> set rs \<Longrightarrow> KmsgBytes [] \<notin> set rs \<Longrightarrow> kmsg_sends rs = kmsg_lines rs"
  by (induction rs) (auto simp: kmsg_turn_def kmsg_lines_def List.map_filter_simps split: kmsg_read.splits option.splits)

lemma fifo_sends_all: "\<forall>bs \<in> set bss. bs \<noteq> [] \<and> valid_utf8 bs \<Longrightarrow> fifo_sends (map FifoBytes bss) = map chomp bss"
  by (induction bss) (auto simp: fifo_turn_def)

section \<open>Properties\<close>

text \<open>C39. Whatever the two readers deliver and however their sends and the redraws interleave, nothing is lost,
  repeated or reordered: at every moment the lines of a reader are those the loop has received, those
  in the channel and those still to come, in that order. What init wrote is echoed as received, the screen
  holds the newest 500 pieces of exactly the received lines, a redraw never panics, so the loop can
  always go on while lines wait, and every step brings the end nearer; where no step is possible, every line
  was received and shown. A reader sends all there is: interrupted reads cost nothing, and records that do
  not parse are the only ones left out.\<close>

theorem boot_lines_complete:
  assumes "feed_step\<^sup>*\<^sup>* (feed_start (Some ring) (Some fifo) scr) s"
    and "\<And>x. scr = Some x \<Longrightarrow> wf_screen x \<and> bs_lines x = []"
  shows "of_source Kernel (fd_taken s) @ of_source Kernel (fd_queue s) @ kernel_left s = kmsg_sends ring \<and>
    of_source Init (fd_taken s) @ of_source Init (fd_queue s) @ init_left s = fifo_sends fifo \<and>
    fd_echoed s = of_source Init (fd_taken s) \<and>
    (\<forall>x. fd_screen s = Some x \<longrightarrow> bs_lines x = newest MAX_LINES (shown_lines (columns x) (fd_taken s))) \<and>
    (\<forall>t. feed_step s t \<longrightarrow> feed_left t < feed_left s) \<and>
    (fd_queue s \<noteq> [] \<longrightarrow> (\<exists>t. loop_takes 1 s = Some t \<and> feed_step s t)) \<and>
    ((\<nexists>t. feed_step s t) \<longrightarrow> fd_echoed s = fifo_sends fifo \<and> of_source Kernel (fd_taken s) = kmsg_sends ring) \<and>
    (KmsgError \<notin> set ring \<and> KmsgBytes [] \<notin> set ring \<longrightarrow> kmsg_sends ring = kmsg_lines ring) \<and>
    (\<forall>bss. fifo = map FifoBytes bss \<and> (\<forall>bs \<in> set bss. bs \<noteq> [] \<and> valid_utf8 bs) \<longrightarrow> fifo_sends fifo = map chomp bss)"
proof -
  let ?s0 = "feed_start (Some ring) (Some fifo) scr"
  have "feed_keeps ?s0" using assms(2)
    by (auto simp: feed_keeps_def feed_start_def newest_def shown_lines_def split: option.split)
  note k = feed_reach [OF assms(1) this]
  have a: "of_source Kernel (fd_taken s) @ of_source Kernel (fd_queue s) @ kernel_left s = kmsg_sends ring"
    "of_source Init (fd_taken s) @ of_source Init (fd_queue s) @ init_left s = fifo_sends fifo"
    using k(2) [of Kernel] k(2) [of Init] by (simp_all add: all_of_def feed_start_def kernel_left_def init_left_def)
  have e: "fd_echoed s = of_source Init (fd_taken s)" using k(1) by (simp add: feed_keeps_def)
  have sc: "\<forall>x. fd_screen s = Some x \<longrightarrow> bs_lines x = newest MAX_LINES (shown_lines (columns x) (fd_taken s))"
    using k(1) by (auto simp: feed_keeps_def)
  have g: "\<exists>t. loop_takes 1 s = Some t \<and> feed_step s t" if "fd_queue s \<noteq> []"
  proof -
    obtain t where t: "loop_takes 1 s = Some t" using k(1) loop_takes_total [of s 1] by (auto simp: feed_keeps_def split: option.splits)
    with that have "feed_step s t" by (intro draws [OF _ _ _ t]) (auto simp: BATCH_def Suc_le_eq)
    with t show ?thesis by blast
  qed
  have f: "fd_echoed s = fifo_sends fifo \<and> of_source Kernel (fd_taken s) = kmsg_sends ring" if "\<nexists>t. feed_step s t"
    using a e feed_goes_on [OF k(1) that] by simp
  show ?thesis using a e sc g f step_shrinks kmsg_sends_all [of ring] fifo_sends_all by auto
qed

lemma demo_kmsg: "kmsg_sends [KmsgInterrupted, KmsgError] = []" by (simp add: kmsg_turn_def)

theorem boot_lines_complete_witness:
  "\<exists>s. feed_step\<^sup>*\<^sup>* (feed_start (Some [KmsgInterrupted, KmsgError]) (Some [FifoBytes (''ok'' @ [CHR 0x0A]), FifoError]) None) s \<and>
     fd_queue s = [] \<and> fd_echoed s = [''ok''] \<and> feed_over s"
proof -
  let ?fifo = "[FifoBytes (''ok'' @ [CHR 0x0A]), FifoError]"
  let ?ring = "[KmsgInterrupted, KmsgError]"
  let ?s0 = "feed_start (Some ?ring) (Some ?fifo) None"
  have v: "valid_utf8 (''ok'' @ [CHR 0x0A])" by (rule valid_utf8_ascii) simp
  have t: "fifo_turn (FifoBytes (''ok'' @ [CHR 0x0A])) = Some ''ok''" "fifo_turn FifoError = None"
    using v by (simp_all add: fifo_turn_def chomp_def strip_cr_def)
  define s4 where "s4 = \<lparr>fd_kernel = None, fd_init = None, fd_queue = [(Init, ''ok'')], fd_taken = [], fd_echoed = [], fd_screen = None\<rparr>"
  define s5 where "s5 = \<lparr>fd_kernel = None, fd_init = None, fd_queue = [], fd_taken = [(Init, ''ok'')], fd_echoed = [''ok''], fd_screen = None\<rparr>"
  let ?s1 = "kernel_reads ?s0 KmsgInterrupted [KmsgError]"
  let ?s2 = "kernel_reads ?s1 KmsgError []"
  let ?s3 = "init_reads ?s2 (FifoBytes (''ok'' @ [CHR 0x0A])) [FifoError]"
  have 1: "feed_step ?s0 ?s1" by (rule kernel) (simp add: feed_start_def)
  have 2: "feed_step ?s1 ?s2" by (rule kernel) (simp add: feed_start_def kernel_reads_def kmsg_turn_def)
  have 3: "feed_step ?s2 ?s3" by (rule init) (simp add: feed_start_def kernel_reads_def kmsg_turn_def)
  have s4: "init_reads ?s3 FifoError [] = s4"
    by (simp add: s4_def init_reads_def t [simplified] feed_start_def kernel_reads_def kmsg_turn_def)
  have 4: "feed_step ?s3 s4" unfolding s4 [symmetric]
    by (rule init) (simp add: init_reads_def t [simplified] feed_start_def kernel_reads_def kmsg_turn_def)
  have l: "loop_takes 1 s4 = Some s5" by (simp add: loop_takes_def s4_def s5_def boot_turn_def)
  have r4: "feed_step\<^sup>*\<^sup>* ?s0 s4" 
    by (rule converse_rtranclp_into_rtranclp [OF 1 converse_rtranclp_into_rtranclp [OF 2
          converse_rtranclp_into_rtranclp [where r = feed_step, OF 3 r_into_rtranclp [where r = feed_step, OF 4]]]])
  have g: "(fd_queue s4 \<noteq> [] \<longrightarrow> (\<exists>t. loop_takes 1 s4 = Some t \<and> feed_step s4 t))"
    using boot_lines_complete [OF r4] by simp
  then have "feed_step s4 s5" using l by (simp add: s4_def)
  with r4 have "feed_step\<^sup>*\<^sup>* ?s0 s5" by (rule rtranclp.rtrancl_into_rtrancl)
  then show ?thesis by (intro exI [of _ s5]) (simp add: s5_def feed_over_def)
qed

text \<open>One line that is not UTF-8 ends the thread: nothing init writes after it is shown or echoed.\<close>

theorem bad_line_silences_init:
  "fifo_sends (FifoBytes (CHR 0xFF # bs) # rest) = []"
  using valid_utf8_bytes [of "CHR 0xFF # bs" "CHR 0xFF"] by (auto simp: fifo_turn_def)

end
